(* ===== verification/Prelude.thy ===== *)
theory Prelude
  imports Main "HOL-Library.Word"
begin

text \<open>
  Shared vocabulary of the development.

  Rust's \<^verbatim>\<open>String\<close>, \<^verbatim>\<open>&str\<close>, \<^verbatim>\<open>Bytes\<close> and \<^verbatim>\<open>Vec<u8>\<close> are all \<^typ>\<open>string\<close>: a
  \<^typ>\<open>char\<close> of HOL is one byte, and a Rust string is the list of the bytes of its UTF-8
  encoding.  Every delimiter the sources split on is an ASCII character, and an ASCII byte
  never occurs inside a multi-byte UTF-8 sequence, so splitting bytes and splitting code
  points agree.

  The theory holds the functions of Rust's standard library that several components call
  (\<^verbatim>\<open>str::split\<close>, \<^verbatim>\<open>strip_prefix\<close>, \<^verbatim>\<open>split_once\<close>, \<^verbatim>\<open>trim\<close>, \<^verbatim>\<open>join\<close>, \<^verbatim>\<open>find_map\<close>,
  \<^verbatim>\<open>str::parse\<close> on unsigned integers, \<^verbatim>\<open>to_string\<close> on integers), the lemmas about them,
  and the lemma collections of the development.
\<close>

named_theorems status_simps \<open>status codes and bodies of the canned responses\<close>
named_theorems model_defs \<open>definitions a proof of the component unfolds\<close>

subsection \<open>Results and small combinators\<close>

type_synonym ('e, 'a) result = "'e + 'a"

definition result_bind :: "('e, 'a) result \<Rightarrow> ('a \<Rightarrow> ('e, 'b) result) \<Rightarrow> ('e, 'b) result" where
  "result_bind r f = (case r of Inl e \<Rightarrow> Inl e | Inr a \<Rightarrow> f a)"

definition unwrap_or :: "'a option \<Rightarrow> 'a \<Rightarrow> 'a" where
  "unwrap_or x d = (case x of None \<Rightarrow> d | Some a \<Rightarrow> a)"

definition ok_or :: "'a option \<Rightarrow> 'e \<Rightarrow> ('e, 'a) result" where
  "ok_or x e = (case x of None \<Rightarrow> Inl e | Some a \<Rightarrow> Inr a)"

definition result_ok :: "('e, 'a) result \<Rightarrow> 'a option" where
  "result_ok r = (case r of Inl e \<Rightarrow> None | Inr a \<Rightarrow> Some a)"

fun find_map :: "('a \<Rightarrow> 'b option) \<Rightarrow> 'a list \<Rightarrow> 'b option" where
  "find_map f [] = None"
| "find_map f (x # xs) = (case f x of None \<Rightarrow> find_map f xs | Some y \<Rightarrow> Some y)"

fun filter_map :: "('a \<Rightarrow> 'b option) \<Rightarrow> 'a list \<Rightarrow> 'b list" where
  "filter_map f [] = []"
| "filter_map f (x # xs) = (case f x of None \<Rightarrow> filter_map f xs | Some y \<Rightarrow> y # filter_map f xs)"

subsection \<open>Strings\<close>

abbreviation newline :: string where
  "newline \<equiv> [CHR 0x0A]"

fun split_on :: "char \<Rightarrow> string \<Rightarrow> string list" where
  "split_on c [] = [[]]"
| "split_on c (x # xs) =
     (if x = c then [] # split_on c xs
      else (case split_on c xs of [] \<Rightarrow> [[x]] | y # ys \<Rightarrow> (x # y) # ys))"

fun join :: "string \<Rightarrow> string list \<Rightarrow> string" where
  "join sep [] = []"
| "join sep [x] = x"
| "join sep (x # y # ys) = x @ sep @ join sep (y # ys)"

fun strip_prefix :: "string \<Rightarrow> string \<Rightarrow> string option" where
  "strip_prefix [] s = Some s"
| "strip_prefix (p # ps) [] = None"
| "strip_prefix (p # ps) (x # xs) = (if p = x then strip_prefix ps xs else None)"

definition starts_with :: "string \<Rightarrow> string \<Rightarrow> bool" where
  "starts_with p s \<longleftrightarrow> strip_prefix p s \<noteq> None"

fun split_once :: "char \<Rightarrow> string \<Rightarrow> (string \<times> string) option" where
  "split_once c [] = None"
| "split_once c (x # xs) =
     (if x = c then Some ([], xs) else map_option (\<lambda>(k, v). (x # k, v)) (split_once c xs))"

definition replace_char :: "char \<Rightarrow> char \<Rightarrow> string \<Rightarrow> string" where
  "replace_char a b s = map (\<lambda>c. if c = a then b else c) s"

definition trim_end_matches :: "char \<Rightarrow> string \<Rightarrow> string" where
  "trim_end_matches c s = rev (dropWhile (\<lambda>x. x = c) (rev s))"

definition ascii_lower :: "char \<Rightarrow> char" where
  "ascii_lower c = (if 65 \<le> (of_char c :: nat) \<and> (of_char c :: nat) \<le> 90
     then char_of ((of_char c :: nat) + 32) else c)"

definition lowercase :: "string \<Rightarrow> string" where
  "lowercase s = map ascii_lower s"

subsubsection \<open>Whitespace\<close>

text \<open>
  \<^verbatim>\<open>str::trim\<close> removes the characters with the Unicode property White\_Space from both
  ends.  \<open>whitespace_seqs\<close> lists their UTF-8 encodings.
\<close>

definition whitespace_seqs :: "string list" where
  "whitespace_seqs =
     [[CHR 0x09], [CHR 0x0A], [CHR 0x0B], [CHR 0x0C], [CHR 0x0D], [CHR 0x20],
      [CHR 0xC2, CHR 0x85], [CHR 0xC2, CHR 0xA0], [CHR 0xE1, CHR 0x9A, CHR 0x80],
      [CHR 0xE2, CHR 0x80, CHR 0x80], [CHR 0xE2, CHR 0x80, CHR 0x81],
      [CHR 0xE2, CHR 0x80, CHR 0x82], [CHR 0xE2, CHR 0x80, CHR 0x83],
      [CHR 0xE2, CHR 0x80, CHR 0x84], [CHR 0xE2, CHR 0x80, CHR 0x85],
      [CHR 0xE2, CHR 0x80, CHR 0x86], [CHR 0xE2, CHR 0x80, CHR 0x87],
      [CHR 0xE2, CHR 0x80, CHR 0x88], [CHR 0xE2, CHR 0x80, CHR 0x89],
      [CHR 0xE2, CHR 0x80, CHR 0x8A], [CHR 0xE2, CHR 0x80, CHR 0xA8],
      [CHR 0xE2, CHR 0x80, CHR 0xA9], [CHR 0xE2, CHR 0x80, CHR 0xAF],
      [CHR 0xE2, CHR 0x81, CHR 0x9F], [CHR 0xE3, CHR 0x80, CHR 0x80]]"

definition strip_ws :: "string list \<Rightarrow> string \<Rightarrow> string option" where
  "strip_ws ws s = find_map (\<lambda>w. strip_prefix w s) ws"

fun trim_seqs :: "nat \<Rightarrow> string list \<Rightarrow> string \<Rightarrow> string" where
  "trim_seqs 0 ws s = s"
| "trim_seqs (Suc n) ws s = (case strip_ws ws s of None \<Rightarrow> s | Some s' \<Rightarrow> trim_seqs n ws s')"

definition trim_start :: "string \<Rightarrow> string" where
  "trim_start s = trim_seqs (length s) whitespace_seqs s"

definition trim_end :: "string \<Rightarrow> string" where
  "trim_end s = rev (trim_seqs (length s) (map rev whitespace_seqs) (rev s))"

definition trim :: "string \<Rightarrow> string" where
  "trim s = trim_end (trim_start s)"

subsubsection \<open>Decimal numbers\<close>

definition digit_value :: "char \<Rightarrow> nat option" where
  "digit_value c = (let n = (of_char c :: nat) in if 48 \<le> n \<and> n \<le> 57 then Some (n - 48) else None)"

fun parse_digits :: "nat \<Rightarrow> string \<Rightarrow> nat option" where
  "parse_digits acc [] = Some acc"
| "parse_digits acc (c # cs) =
     (case digit_value c of None \<Rightarrow> None | Some d \<Rightarrow> parse_digits (10 * acc + d) cs)"

text \<open>
  \<^verbatim>\<open>str::parse::<uN>()\<close>: an optional \<^verbatim>\<open>+\<close>, then one or more decimal digits whose value fits
  in \<open>bits\<close> bits; anything else is an error.
\<close>

definition parse_unsigned :: "nat \<Rightarrow> string \<Rightarrow> nat option" where
  "parse_unsigned bits s =
     (let ds = (if s \<noteq> [] \<and> hd s = CHR ''+'' then tl s else s)
      in if ds = [] then None
         else (case parse_digits 0 ds of
                 None \<Rightarrow> None
               | Some n \<Rightarrow> if n < 2 ^ bits then Some n else None))"

definition digit_char :: "nat \<Rightarrow> char" where
  "digit_char d = char_of (48 + d)"

fun show_nat :: "nat \<Rightarrow> string" where
  "show_nat n = (if n < 10 then [digit_char n] else show_nat (n div 10) @ [digit_char (n mod 10)])"

declare show_nat.simps [simp del]

subsection \<open>Lemmas: results and combinators\<close>

lemma result_bind_simps [simp]:
  "result_bind (Inl e) f = Inl e"
  "result_bind (Inr a) f = f a"
  by (simp_all add: result_bind_def)

lemma result_bind_Inr_iff:
  "result_bind r f = Inr b \<longleftrightarrow> (\<exists>a. r = Inr a \<and> f a = Inr b)"
  by (cases r) auto

lemma result_bind_Inl_iff: "result_bind r f = Inl e \<longleftrightarrow> r = Inl e \<or> (\<exists>a. r = Inr a \<and> f a = Inl e)"
  by (cases r) auto

lemma unwrap_or_simps [simp]:
  "unwrap_or None d = d"
  "unwrap_or (Some a) d = a"
  by (simp_all add: unwrap_or_def)

lemma ok_or_simps [simp]:
  "ok_or None e = Inl e"
  "ok_or (Some a) e = Inr a"
  by (simp_all add: ok_or_def)

lemma ok_or_Inr_iff [simp]: "ok_or x e = Inr a \<longleftrightarrow> x = Some a"
  by (cases x) auto

lemma result_ok_simps [simp]:
  "result_ok (Inl e) = None"
  "result_ok (Inr a) = Some a"
  by (simp_all add: result_ok_def)

lemma find_map_SomeD: "find_map f xs = Some y \<Longrightarrow> \<exists>x \<in> set xs. f x = Some y"
  by (induction xs) (auto split: option.splits)

lemma find_map_None_iff: "find_map f xs = None \<longleftrightarrow> (\<forall>x \<in> set xs. f x = None)"
  by (induction xs) (auto split: option.splits)

lemma find_map_append:
  "find_map f (xs @ ys) = (case find_map f xs of None \<Rightarrow> find_map f ys | Some y \<Rightarrow> Some y)"
  by (induction xs) (auto split: option.splits)

lemma set_filter_map: "set (filter_map f xs) = {y. \<exists>x \<in> set xs. f x = Some y}"
  by (induction xs) (auto split: option.splits)

lemma filter_map_append: "filter_map f (xs @ ys) = filter_map f xs @ filter_map f ys"
  by (induction xs) (auto split: option.splits)

subsection \<open>Lemmas: splitting and joining\<close>

lemma split_on_nonempty [simp]: "split_on c s \<noteq> []"
  by (cases s) (auto split: list.splits)

lemma join_Cons: "ys \<noteq> [] \<Longrightarrow> join sep (x # ys) = x @ sep @ join sep ys"
  by (cases ys) auto

lemma join_split_on: "join [c] (split_on c s) = s"
proof (induction s)
  case (Cons x xs)
  obtain y ys where "split_on c xs = y # ys"
    by (cases "split_on c xs") auto
  with Cons show ?case
    by (cases ys) (auto simp: join_Cons)
qed simp

lemma split_on_no_delim: "p \<in> set (split_on c s) \<Longrightarrow> c \<notin> set p"
proof (induction s arbitrary: p)
  case (Cons x xs)
  then show ?case
    by (cases "split_on c xs") (auto split: if_splits)
qed simp

lemma split_on_id: "c \<notin> set s \<Longrightarrow> split_on c s = [s]"
  by (induction s) auto

lemma split_on_append: "c \<notin> set xs \<Longrightarrow> split_on c (xs @ c # ys) = xs # split_on c ys"
  by (induction xs) auto

lemma split_on_join:
  "xs \<noteq> [] \<Longrightarrow> (\<forall>x \<in> set xs. c \<notin> set x) \<Longrightarrow> split_on c (join [c] xs) = xs"
proof (induction xs)
  case (Cons x xs)
  then show ?case
    by (cases xs) (auto simp: split_on_id split_on_append)
qed simp

lemma set_split_on: "p \<in> set (split_on c s) \<Longrightarrow> set p \<subseteq> set s"
proof (induction s arbitrary: p)
  case (Cons x xs)
  show ?case
  proof (cases "x = c")
    case True
    with Cons show ?thesis by auto
  next
    case False
    obtain y ys where "split_on c xs = y # ys"
      by (cases "split_on c xs") auto
    with False Cons.IH [of y] Cons.IH [of p] Cons.prems show ?thesis
      by auto
  qed
qed simp

lemma strip_prefix_Some_iff [simp]: "strip_prefix p s = Some r \<longleftrightarrow> s = p @ r"
  by (induction p s rule: strip_prefix.induct) auto

lemma strip_prefix_append [simp]: "strip_prefix p (p @ r) = Some r"
  by simp

lemma strip_prefix_None_iff: "strip_prefix p s = None \<longleftrightarrow> (\<nexists>r. s = p @ r)"
  by (induction p s rule: strip_prefix.induct) auto

lemma starts_with_append [simp]: "starts_with p (p @ r)"
  by (simp add: starts_with_def)

lemma starts_with_iff: "starts_with p s \<longleftrightarrow> (\<exists>r. s = p @ r)"
  by (auto simp: starts_with_def strip_prefix_None_iff)

lemma split_once_Some_iff:
  "split_once c s = Some (k, v) \<longleftrightarrow> s = k @ c # v \<and> c \<notin> set k"
proof (induction s arbitrary: k)
  case (Cons x xs)
  then show ?case by (cases k) auto
qed simp

lemma split_once_None_iff: "split_once c s = None \<longleftrightarrow> c \<notin> set s"
  by (induction s) auto

lemma replace_char_id: "a \<notin> set s \<Longrightarrow> replace_char a b s = s"
  by (auto simp: replace_char_def intro: map_idI)

lemma length_replace_char [simp]: "length (replace_char a b s) = length s"
  by (simp add: replace_char_def)

lemma trim_end_matches_last: "trim_end_matches c s = [] \<or> last (trim_end_matches c s) \<noteq> c"
proof (cases "dropWhile (\<lambda>x. x = c) (rev s)")
  case (Cons y ys)
  then have "y \<noteq> c" using hd_dropWhile [of "\<lambda>x. x = c" "rev s"] by simp
  with Cons show ?thesis by (simp add: trim_end_matches_def)
qed (simp add: trim_end_matches_def)

lemma trim_end_matches_decomp: "\<exists>n. s = trim_end_matches c s @ replicate n c"
proof -
  let ?t = "takeWhile (\<lambda>x. x = c) (rev s)"
  have "rev (rev s) = rev (?t @ dropWhile (\<lambda>x. x = c) (rev s))"
    by (simp only: takeWhile_dropWhile_id)
  then have "s = trim_end_matches c s @ rev ?t"
    by (simp only: rev_rev_ident rev_append trim_end_matches_def)
  moreover have "replicate (length ?t) c = ?t"
    by (rule replicate_length_same) (auto dest: set_takeWhileD)
  then have "rev ?t = replicate (length ?t) c"
    by (metis rev_replicate)
  ultimately show ?thesis by metis
qed

lemma lowercase_append [simp]: "lowercase (a @ b) = lowercase a @ lowercase b"
  by (simp add: lowercase_def)

subsection \<open>Lemmas: decimal numbers\<close>

lemma digit_value_digit_char [simp]: "d < 10 \<Longrightarrow> digit_value (digit_char d) = Some d"
  by (simp add: digit_value_def digit_char_def)

lemma parse_digits_append:
  "parse_digits acc (xs @ ys) =
     (case parse_digits acc xs of None \<Rightarrow> None | Some n \<Rightarrow> parse_digits n ys)"
  by (induction acc xs rule: parse_digits.induct) (auto split: option.splits)

lemma show_nat_nonempty [simp]: "show_nat n \<noteq> []"
  by (subst show_nat.simps) simp

lemma parse_digits_show_nat: "parse_digits 0 (show_nat n) = Some n"
proof (induction n rule: show_nat.induct)
  case (1 n)
  show ?case
  proof (cases "n < 10")
    case True
    then show ?thesis by (subst show_nat.simps) simp
  next
    case False
    with 1 have "parse_digits 0 (show_nat (n div 10)) = Some (n div 10)" by simp
    with False show ?thesis by (subst show_nat.simps) (simp add: parse_digits_append)
  qed
qed

lemma show_nat_digits: "c \<in> set (show_nat n) \<Longrightarrow> digit_value c \<noteq> None"
proof (induction n rule: show_nat.induct)
  case (1 n)
  then show ?case
    by (cases "n < 10") (auto simp: show_nat.simps [of n])
qed

lemma parse_unsigned_show_nat:
  assumes "n < 2 ^ bits"
  shows "parse_unsigned bits (show_nat n) = Some n"
proof -
  obtain c cs where eq: "show_nat n = c # cs"
    by (cases "show_nat n") auto
  then have "digit_value c \<noteq> None" using show_nat_digits [of c n] by simp
  then have "c \<noteq> CHR ''+''" by (auto simp: digit_value_def)
  then have "hd (show_nat n) \<noteq> CHR ''+''" by (simp add: eq)
  then show ?thesis
    using assms by (simp add: parse_unsigned_def parse_digits_show_nat)
qed

lemma parse_unsigned_bound: "parse_unsigned bits s = Some n \<Longrightarrow> n < 2 ^ bits"
  by (auto simp: parse_unsigned_def Let_def split: if_splits option.splits)

end
