(* ===== verification/Http_Lib.thy ===== *)
theory Http_Lib
  imports Prelude
begin

text \<open>
  The interface of the \<^verbatim>\<open>http\<close> crate (re-exported by hyper) that the sources call.  The crate
  is not part of the repository, so it is a parameter of the model: a record of its
  operations, passed to every definition that uses one, and a locale with the laws its
  documentation promises.

  \<^item> \<open>build_headers\<close> is \<^verbatim>\<open>Response::builder().header(k1, v1)...header(kn, vn).body(b)\<close>: the header
    map of the response, or \<^const>\<open>None\<close> for \<^verbatim>\<open>Err\<close>.  The documentation of
    \<^verbatim>\<open>Builder::header\<close> says that it \<^emph>\<open>appends\<close> to the header map.
  \<^item> \<open>hm_insert\<close>, \<open>hm_get\<close>, \<open>hm_get_all\<close>, \<open>hm_iter\<close> are the \<^verbatim>\<open>HeaderMap\<close> methods; header names
    are compared without regard to ASCII case and stored in lower case.
  \<^item> \<open>value_to_str\<close> is \<^verbatim>\<open>HeaderValue::to_str\<close>, \<open>value_from_str\<close> is \<^verbatim>\<open>HeaderValue::from_str\<close>.

  \<^verbatim>\<open>Method\<close> is represented by the string \<^verbatim>\<open>Method::as_str\<close> returns, \<^verbatim>\<open>StatusCode\<close> by its number,
  and \<^verbatim>\<open>Uri\<close> by what its accessors \<^verbatim>\<open>path\<close>, \<^verbatim>\<open>query\<close> and \<^verbatim>\<open>path_and_query\<close> return.
\<close>

record 'h http_lib =
  hm_new :: 'h
  hm_insert :: "'h \<Rightarrow> string \<Rightarrow> string \<Rightarrow> 'h"
  hm_get :: "'h \<Rightarrow> string \<Rightarrow> string option"
  hm_get_all :: "'h \<Rightarrow> string \<Rightarrow> string list"
  hm_iter :: "'h \<Rightarrow> (string \<times> string) list"
  build_headers :: "(string \<times> string) list \<Rightarrow> 'h option"
  value_to_str :: "string \<Rightarrow> string option"
  value_from_str :: "string \<Rightarrow> string option"

record uri =
  uri_path :: string
  uri_query :: "string option"
  uri_path_and_query :: "string option"

text \<open>What the documentation of \<^verbatim>\<open>HeaderName\<close> and \<^verbatim>\<open>HeaderValue\<close> says of valid bytes.\<close>

definition token_char :: "char \<Rightarrow> bool" where
  "token_char c \<longleftrightarrow>
     (let b = (of_char c :: nat) in
      48 \<le> b \<and> b \<le> 57 \<or> 65 \<le> b \<and> b \<le> 90 \<or> 97 \<le> b \<and> b \<le> 122 \<or>
      c \<in> set ''!#$%&*+-.^_`|~'' \<or> b = 39)"

definition header_name_ok :: "string \<Rightarrow> bool" where
  "header_name_ok k \<longleftrightarrow> k \<noteq> [] \<and> list_all token_char k"

definition header_value_ok :: "string \<Rightarrow> bool" where
  "header_value_ok v \<longleftrightarrow>
     list_all (\<lambda>c. let b = (of_char c :: nat) in 32 \<le> b \<and> b \<noteq> 127 \<or> b = 9) v"

definition visible_ascii :: "string \<Rightarrow> bool" where
  "visible_ascii v \<longleftrightarrow> list_all (\<lambda>c. let b = (of_char c :: nat) in 32 \<le> b \<and> b < 127 \<or> b = 9) v"

definition header_ok :: "string \<times> string \<Rightarrow> bool" where
  "header_ok kv \<longleftrightarrow> header_name_ok (fst kv) \<and> header_value_ok (snd kv)"

definition values_of :: "string \<Rightarrow> (string \<times> string) list \<Rightarrow> string list" where
  "values_of k hs = map snd (filter (\<lambda>kv. lowercase (fst kv) = lowercase k) hs)"

locale http_crate =
  fixes L :: "'h http_lib"
  assumes get_all_new: "hm_get_all L (hm_new L) k = []"
    and get_all_insert: "header_ok (k, v) \<Longrightarrow>
      hm_get_all L (hm_insert L h k v) k' =
         (if lowercase k = lowercase k' then [v] else hm_get_all L h k')"
    and get_first: "hm_get L h k = (case hm_get_all L h k of [] \<Rightarrow> None | v # vs \<Rightarrow> Some v)"
    and iter_values: "values_of k (hm_iter L h) = hm_get_all L h k"
    and iter_lower: "kv \<in> set (hm_iter L h) \<Longrightarrow> lowercase (fst kv) = fst kv"
    and iter_ok: "kv \<in> set (hm_iter L h) \<Longrightarrow> header_ok kv"
    and build_ok: "list_all header_ok hs \<Longrightarrow>
      \<exists>h. build_headers L hs = Some h \<and> (\<forall>k. hm_get_all L h k = values_of k hs)"
    and build_err: "\<not> list_all header_ok hs \<Longrightarrow> build_headers L hs = None"
    and to_str: "value_to_str L v = (if visible_ascii v then Some v else None)"
    and from_str: "visible_ascii v \<Longrightarrow> value_from_str L v = Some v"
begin

lemma build_headers_Some:
  assumes "build_headers L hs = Some h"
  shows "list_all header_ok hs" and "hm_get_all L h k = values_of k hs"
  using assms build_ok [of hs] build_err [of hs] by (cases "list_all header_ok hs"; auto)+

lemma build_headers_Some_get:
  assumes "build_headers L hs = Some h"
  shows "hm_get L h k = (case values_of k hs of [] \<Rightarrow> None | v # vs \<Rightarrow> Some v)"
  using build_headers_Some [OF assms] by (simp add: get_first)

lemma build_headers_ok: "list_all header_ok hs \<Longrightarrow> \<exists>h. build_headers L hs = Some h"
  using build_ok by blast

lemma get_insert_same: "header_ok (k, v) \<Longrightarrow> hm_get L (hm_insert L h k v) k = Some v"
  by (simp add: get_first get_all_insert)

lemma get_insert_other:
  "header_ok (k, v) \<Longrightarrow> lowercase k \<noteq> lowercase k' \<Longrightarrow> hm_get L (hm_insert L h k v) k' = hm_get L h k'"
  by (simp add: get_first get_all_insert)

lemma get_Some_in_iter:
  assumes "hm_get L h k = Some v"
  shows "(lowercase k, v) \<in> set (hm_iter L h)"
proof -
  from assms have "v \<in> set (values_of k (hm_iter L h))"
    by (auto simp: get_first iter_values split: list.splits)
  then obtain kv where "kv \<in> set (hm_iter L h)" "lowercase (fst kv) = lowercase k" "v = snd kv"
    by (auto simp: values_of_def)
  with iter_lower [of kv h] show ?thesis by (cases kv) auto
qed

end

subsection \<open>A header map as an association list\<close>

text \<open>
  An instance of the interface: names in lower case, values in the order in which they were
  appended.  A real header map holds valid names and values only; the list representation
  drops what is not valid when it is read (\<open>valid_part\<close>).  The instance shows that the laws
  hold together, and the witnesses evaluate on it.
\<close>

definition valid_part :: "(string \<times> string) list \<Rightarrow> (string \<times> string) list" where
  "valid_part h = filter (\<lambda>kv. lowercase (fst kv) = fst kv \<and> header_ok kv) h"

definition alist_insert ::
    "(string \<times> string) list \<Rightarrow> string \<Rightarrow> string \<Rightarrow> (string \<times> string) list" where
  "alist_insert h k v = filter (\<lambda>kv. fst kv \<noteq> lowercase k) h @ [(lowercase k, v)]"

definition alist_get_all :: "(string \<times> string) list \<Rightarrow> string \<Rightarrow> string list" where
  "alist_get_all h k = values_of k (valid_part h)"

definition alist_get :: "(string \<times> string) list \<Rightarrow> string \<Rightarrow> string option" where
  "alist_get h k = (case alist_get_all h k of [] \<Rightarrow> None | v # vs \<Rightarrow> Some v)"

definition alist_build :: "(string \<times> string) list \<Rightarrow> (string \<times> string) list option" where
  "alist_build hs =
     (if list_all header_ok hs then Some (map (\<lambda>kv. (lowercase (fst kv), snd kv)) hs) else None)"

definition visible_str :: "string \<Rightarrow> string option" where
  "visible_str v = (if visible_ascii v then Some v else None)"

definition alist_http :: "(string \<times> string) list http_lib" where
  "alist_http =
     \<lparr>hm_new = [], hm_insert = alist_insert, hm_get = alist_get, hm_get_all = alist_get_all,
      hm_iter = valid_part, build_headers = alist_build,
      value_to_str = visible_str, value_from_str = visible_str\<rparr>"

lemma of_char_ascii_lower:
  "(of_char (ascii_lower c) :: nat) =
     (let b = (of_char c :: nat) in if 65 \<le> b \<and> b \<le> 90 then b + 32 else b)"
  by (auto simp: ascii_lower_def Let_def)

lemma ascii_lower_idem [simp]: "ascii_lower (ascii_lower c) = ascii_lower c"
  by (simp add: ascii_lower_def)

lemma lowercase_idem [simp]: "lowercase (lowercase s) = lowercase s"
  by (simp add: lowercase_def)

lemma token_char_lower: "token_char c \<Longrightarrow> token_char (ascii_lower c)"
  unfolding token_char_def of_char_ascii_lower Let_def
  by (auto simp: ascii_lower_def)

lemma header_ok_lower: "header_ok kv \<Longrightarrow> header_ok (lowercase (fst kv), snd kv)"
  by (auto simp: header_ok_def header_name_ok_def lowercase_def list_all_iff token_char_lower)

lemma valid_part_append [simp]: "valid_part (a @ b) = valid_part a @ valid_part b"
  by (simp add: valid_part_def)

lemma values_of_append [simp]: "values_of k (a @ b) = values_of k a @ values_of k b"
  by (simp add: values_of_def)

lemma values_of_filter_other:
  "values_of k' (valid_part (filter (\<lambda>kv. fst kv \<noteq> lowercase k) h)) =
     (if lowercase k = lowercase k' then [] else values_of k' (valid_part h))"
  by (induction h) (auto simp: values_of_def valid_part_def)

lemma valid_part_build:
  "list_all header_ok hs \<Longrightarrow>
     values_of k (valid_part (map (\<lambda>kv. (lowercase (fst kv), snd kv)) hs)) = values_of k hs"
proof (induction hs)
  case (Cons kv hs)
  then show ?case using header_ok_lower [of kv] by (auto simp: values_of_def valid_part_def)
qed (simp add: values_of_def valid_part_def)

interpretation alist: http_crate alist_http
proof
  fix h :: "(string \<times> string) list" and k v k' :: string
  assume "header_ok (k, v)"
  then have "valid_part [(lowercase k, v)] = [(lowercase k, v)]"
    using header_ok_lower [of "(k, v)"] by (simp add: valid_part_def)
  then show "hm_get_all alist_http (hm_insert alist_http h k v) k' =
         (if lowercase k = lowercase k' then [v] else hm_get_all alist_http h k')"
    by (simp add: alist_http_def alist_get_all_def alist_insert_def values_of_filter_other)
       (simp add: values_of_def)
next
  fix k :: string and h :: "(string \<times> string) list"
  show "values_of k (hm_iter alist_http h) = hm_get_all alist_http h k"
    by (simp add: alist_http_def alist_get_all_def)
qed (auto simp: alist_http_def alist_get_all_def alist_get_def alist_build_def visible_str_def
      valid_part_build, auto simp: valid_part_def values_of_def)

end
