(* ===== verification/Utf8.thy ===== *)
theory Utf8
  imports Prelude
begin

text \<open>
  UTF-8 validation and lossy decoding as Rust's standard library performs them
  (\<^verbatim>\<open>str::from_utf8\<close>, \<^verbatim>\<open>String::from_utf8\<close>, \<^verbatim>\<open>String::from_utf8_lossy\<close>).

  \<open>utf8_step\<close> reads one well-formed sequence, or the maximal prefix of an ill-formed one:
  its second component is the number of bytes consumed, its first says whether they are a
  well-formed sequence.  Validation accepts when every step does; lossy decoding writes
  U+FFFD (\<^verbatim>\<open>EF BF BD\<close>) for every step that does not.
\<close>

definition byte :: "char \<Rightarrow> nat" where
  "byte c = of_char c"

definition utf8_width :: "char \<Rightarrow> nat" where
  "utf8_width c =
     (let b = byte c in
      if b < 0x80 then 1
      else if 0xC2 \<le> b \<and> b \<le> 0xDF then 2
      else if 0xE0 \<le> b \<and> b \<le> 0xEF then 3
      else if 0xF0 \<le> b \<and> b \<le> 0xF4 then 4
      else 0)"

definition utf8_cont :: "char \<Rightarrow> bool" where
  "utf8_cont c \<longleftrightarrow> 0x80 \<le> byte c \<and> byte c \<le> 0xBF"

definition utf8_second :: "char \<Rightarrow> char \<Rightarrow> bool" where
  "utf8_second a b \<longleftrightarrow>
     (if byte a = 0xE0 then 0xA0 \<le> byte b \<and> byte b \<le> 0xBF
      else if byte a = 0xED then 0x80 \<le> byte b \<and> byte b \<le> 0x9F
      else if byte a = 0xF0 then 0x90 \<le> byte b \<and> byte b \<le> 0xBF
      else if byte a = 0xF4 then 0x80 \<le> byte b \<and> byte b \<le> 0x8F
      else utf8_cont b)"

fun utf8_step :: "string \<Rightarrow> bool \<times> nat" where
  "utf8_step [] = (True, 0)"
| "utf8_step (a # s) =
     (if utf8_width a = 1 then (True, 1)
      else if utf8_width a = 0 then (False, 1)
      else (case s of
              [] \<Rightarrow> (False, 1)
            | b # s2 \<Rightarrow>
                if \<not> utf8_second a b then (False, 1)
                else if utf8_width a = 2 then (True, 2)
                else (case s2 of
                        [] \<Rightarrow> (False, 2)
                      | c # s3 \<Rightarrow>
                          if \<not> utf8_cont c then (False, 2)
                          else if utf8_width a = 3 then (True, 3)
                          else (case s3 of
                                  [] \<Rightarrow> (False, 3)
                                | d # s4 \<Rightarrow> if \<not> utf8_cont d then (False, 3) else (True, 4)))))"

lemma utf8_step_pos: "s \<noteq> [] \<Longrightarrow> 0 < snd (utf8_step s)"
  by (cases s) (simp_all split: list.splits)

lemma utf8_step_le: "snd (utf8_step s) \<le> length s"
  by (cases s) (auto split: list.splits)

function from_utf8_ok :: "string \<Rightarrow> bool" where
  "from_utf8_ok s =
     (if s = [] then True
      else if fst (utf8_step s) then from_utf8_ok (drop (snd (utf8_step s)) s) else False)"
  by pat_completeness auto
termination
  by (relation "measure length") (auto simp: utf8_step_pos simp del: utf8_step.simps)

definition replacement_char :: string where
  "replacement_char = [CHR 0xEF, CHR 0xBF, CHR 0xBD]"

function from_utf8_lossy :: "string \<Rightarrow> string" where
  "from_utf8_lossy s =
     (if s = [] then []
      else (if fst (utf8_step s) then take (snd (utf8_step s)) s else replacement_char) @
           from_utf8_lossy (drop (snd (utf8_step s)) s))"
  by pat_completeness auto
termination
  by (relation "measure length") (auto simp: utf8_step_pos simp del: utf8_step.simps)

declare from_utf8_ok.simps [simp del] from_utf8_lossy.simps [simp del]

definition from_utf8 :: "string \<Rightarrow> string option" where
  "from_utf8 s = (if from_utf8_ok s then Some s else None)"

subsection \<open>Facts\<close>

lemma from_utf8_ok_Nil [simp]: "from_utf8_ok []"
  by (simp add: from_utf8_ok.simps)

lemma from_utf8_lossy_Nil [simp]: "from_utf8_lossy [] = []"
  by (simp add: from_utf8_lossy.simps)

text \<open>A well-formed first sequence stays one when bytes are appended.\<close>

lemma utf8_step_append:
  assumes "s \<noteq> []" and "fst (utf8_step s)"
  shows "utf8_step (s @ t) = utf8_step s"
  using assms by (cases s) (auto split: list.splits if_splits)

lemma from_utf8_ok_append: "from_utf8_ok s \<Longrightarrow> from_utf8_ok t \<Longrightarrow> from_utf8_ok (s @ t)"
proof (induction s rule: from_utf8_ok.induct)
  case (1 s)
  show ?case
  proof (cases "s = []")
    case False
    let ?n = "snd (utf8_step s)"
    from False 1(2) have v: "fst (utf8_step s)" and r: "from_utf8_ok (drop ?n s)"
      by (auto simp: from_utf8_ok.simps [of s] split: if_splits)
    from 1(1) [OF False v r 1(3)] have "from_utf8_ok (drop ?n s @ t)" .
    with False v utf8_step_le [of s] show ?thesis
      by (simp add: from_utf8_ok.simps [of "s @ t"] utf8_step_append)
  qed (simp add: 1)
qed

lemma utf8_step_ascii: "byte a < 0x80 \<Longrightarrow> utf8_step (a # s) = (True, 1)"
  by (simp add: utf8_width_def)

lemma from_utf8_ok_ascii_Cons: "byte a < 0x80 \<Longrightarrow> from_utf8_ok (a # s) = from_utf8_ok s"
  by (subst from_utf8_ok.simps) (simp add: utf8_step_ascii del: utf8_step.simps)

lemma from_utf8_ok_ascii: "(\<forall>c \<in> set s. byte c < 0x80) \<Longrightarrow> from_utf8_ok s"
  by (induction s) (auto simp: from_utf8_ok_ascii_Cons)

lemma from_utf8_ok_single:
  assumes "s \<noteq> []" and "fst (utf8_step s)"
  shows "from_utf8_ok (take (snd (utf8_step s)) s)"
proof -
  let ?n = "snd (utf8_step s)"
  have "utf8_step (take ?n s) = (True, ?n)" and "take ?n s \<noteq> []"
    using assms by (cases s; auto split: list.splits if_splits)+
  then show ?thesis
    using utf8_step_le [of s] by (subst from_utf8_ok.simps) simp
qed

lemma replacement_char_ok: "from_utf8_ok replacement_char"
  by (simp add: replacement_char_def from_utf8_ok.simps utf8_width_def utf8_second_def
      utf8_cont_def byte_def)

lemma from_utf8_lossy_ok: "from_utf8_ok (from_utf8_lossy s)"
proof (induction s rule: from_utf8_lossy.induct)
  case (1 s)
  then show ?case
    by (cases "s = []")
      (auto simp: from_utf8_lossy.simps [of s] intro: from_utf8_ok_append from_utf8_ok_single
        replacement_char_ok)
qed

lemma from_utf8_lossy_id: "from_utf8_ok s \<Longrightarrow> from_utf8_lossy s = s"
proof (induction s rule: from_utf8_ok.induct)
  case (1 s)
  then show ?case
    by (cases "s = []") (auto simp: from_utf8_lossy.simps [of s] from_utf8_ok.simps [of s] split: if_splits)
qed

end
