(* ===== verification/Request.thy ===== *)
theory Request
  imports Http_Lib Utf8
begin

text \<open>
  \<^verbatim>\<open>src/http/request.rs\<close>: the buffered request, its accessors, and the percent-decoding of
  query and form parameters.

  The byte loop of \<^verbatim>\<open>percent_decode\<close> is \<open>percent_decode_bytes\<close>, by recursion on the bytes not
  yet read: \<^verbatim>\<open>i + 2 < bytes.len()\<close> says that at least two bytes follow the current one.
\<close>

record 'h http_request =
  req_method :: string
  req_uri :: uri
  req_headers :: 'h
  req_body :: string
  req_path_params :: "string \<rightharpoonup> string"

record 'h request_parts =
  parts_method :: string
  parts_uri :: uri
  parts_headers :: 'h

definition from_parts :: "'h request_parts \<Rightarrow> string \<Rightarrow> 'h http_request" where
  "from_parts parts bytes =
     \<lparr>req_method = parts_method parts, req_uri = parts_uri parts,
      req_headers = parts_headers parts, req_body = bytes, req_path_params = Map.empty\<rparr>"

definition path :: "'h http_request \<Rightarrow> string" where
  "path req = uri_path (req_uri req)"

definition query :: "'h http_request \<Rightarrow> string option" where
  "query req = uri_query (req_uri req)"

definition hex_value :: "char \<Rightarrow> nat option" where
  "hex_value c =
     (let b = (of_char c :: nat) in
      if 48 \<le> b \<and> b \<le> 57 then Some (b - 48)
      else if 97 \<le> b \<and> b \<le> 102 then Some (b - 87)
      else if 65 \<le> b \<and> b \<le> 70 then Some (b - 55)
      else None)"

fun hex_pair :: "string \<Rightarrow> (char \<times> string) option" where
  "hex_pair (h # l # r) =
     (case (hex_value h, hex_value l) of
        (Some x, Some y) \<Rightarrow> Some (char_of (16 * x + y), r)
      | _ \<Rightarrow> None)"
| "hex_pair s = None"

lemma hex_pair_shorter: "hex_pair s = Some (c, r) \<Longrightarrow> length r < length s"
  by (cases s rule: hex_pair.cases) (auto split: option.splits)

function percent_decode_bytes :: "string \<Rightarrow> string" where
  "percent_decode_bytes [] = []"
| "percent_decode_bytes (c # s) =
     (if c = CHR ''%'' then
        (case hex_pair s of
           Some (b, r) \<Rightarrow> b # percent_decode_bytes r
         | None \<Rightarrow> c # percent_decode_bytes s)
      else c # percent_decode_bytes s)"
  by pat_completeness auto
termination
  by (relation "measure length") (auto dest: hex_pair_shorter)

definition percent_decode :: "string \<Rightarrow> string" where
  "percent_decode s =
     (let out = percent_decode_bytes (replace_char CHR ''+'' CHR '' '' s)
      in case from_utf8 out of Some t \<Rightarrow> t | None \<Rightarrow> from_utf8_lossy out)"

definition pair_lookup :: "string \<Rightarrow> string \<Rightarrow> string option" where
  "pair_lookup key pair =
     (let (k, v) = (case split_once CHR ''='' pair of Some (k, v) \<Rightarrow> (k, Some v) | None \<Rightarrow> (pair, None))
      in if percent_decode k = key then Some (percent_decode (unwrap_or v [])) else None)"

definition query_param :: "'h http_request \<Rightarrow> string \<Rightarrow> string option" where
  "query_param req key =
     (case uri_query (req_uri req) of
        None \<Rightarrow> None
      | Some q \<Rightarrow> find_map (pair_lookup key) (split_on CHR ''&'' q))"

definition form_param :: "'h http_request \<Rightarrow> string \<Rightarrow> string option" where
  "form_param req key =
     (case from_utf8 (req_body req) of
        None \<Rightarrow> None
      | Some b \<Rightarrow> find_map (pair_lookup key) (split_on CHR ''&'' b))"

definition path_param :: "'h http_request \<Rightarrow> string \<Rightarrow> string option" where
  "path_param req key = req_path_params req key"

definition header :: "'h http_lib \<Rightarrow> 'h http_request \<Rightarrow> string \<Rightarrow> string option" where
  "header L req name = Option.bind (hm_get L (req_headers req) name) (value_to_str L)"

subsection \<open>Reference encoder\<close>

text \<open>
  The specification of decoding: \<open>percent_encode\<close> is the encoding of RFC 3986 that leaves only
  the unreserved characters as they are, and \<open>encode_pairs\<close> the form encoding of a list of
  key/value pairs.
\<close>

definition unreserved :: "char \<Rightarrow> bool" where
  "unreserved c \<longleftrightarrow>
     (let b = (of_char c :: nat) in
      48 \<le> b \<and> b \<le> 57 \<or> 65 \<le> b \<and> b \<le> 90 \<or> 97 \<le> b \<and> b \<le> 122 \<or> b = 45 \<or> b = 46 \<or> b = 95 \<or> b = 126)"

definition hex_digit :: "nat \<Rightarrow> char" where
  "hex_digit d = (if d < 10 then char_of (48 + d) else char_of (55 + d))"

definition encode_byte :: "char \<Rightarrow> string" where
  "encode_byte c =
     (if unreserved c then [c]
      else [CHR ''%'', hex_digit ((of_char c :: nat) div 16), hex_digit ((of_char c :: nat) mod 16)])"

definition percent_encode :: "string \<Rightarrow> string" where
  "percent_encode s = concat (map encode_byte s)"

definition encode_pair :: "string \<times> string \<Rightarrow> string" where
  "encode_pair kv = percent_encode (fst kv) @ CHR ''='' # percent_encode (snd kv)"

definition encode_pairs :: "(string \<times> string) list \<Rightarrow> string" where
  "encode_pairs ps = join ''&'' (map encode_pair ps)"

subsection \<open>Percent-decoding\<close>

lemma hex_value_hex_digit: "d < 16 \<Longrightarrow> hex_value (hex_digit d) = Some d"
  by (simp add: hex_value_def hex_digit_def Let_def)

lemma of_char_div_16: "(of_char c :: nat) div 16 < 16"
  using nat_of_char_less_256 [of c] by linarith

lemma decode_encode_byte: "percent_decode_bytes (encode_byte c @ r) = c # percent_decode_bytes r"
proof (cases "unreserved c")
  case True
  then have "c \<noteq> CHR ''%''" by (auto simp: unreserved_def)
  with True show ?thesis by (simp add: encode_byte_def)
next
  case False
  have "16 * ((of_char c :: nat) div 16) + of_char c mod 16 = of_char c" by simp
  then have "char_of (16 * ((of_char c :: nat) div 16) + of_char c mod 16) = c"
    by (metis char_of_char)
  with False show ?thesis
    by (simp add: encode_byte_def hex_value_hex_digit of_char_div_16)
qed

lemma decode_encode_bytes: "percent_decode_bytes (percent_encode s) = s"
  by (induction s) (simp_all add: percent_encode_def decode_encode_byte)

lemma hex_digit_unreserved: "d < 16 \<Longrightarrow> unreserved (hex_digit d)"
  by (auto simp: unreserved_def hex_digit_def Let_def)

lemma set_percent_encode: "c \<in> set (percent_encode s) \<Longrightarrow> unreserved c \<or> c = CHR ''%''"
  by (auto simp: percent_encode_def encode_byte_def of_char_div_16 hex_digit_unreserved
      split: if_splits)

lemma encode_no_special [simp]:
  "CHR ''+'' \<notin> set (percent_encode s)"
  "CHR ''&'' \<notin> set (percent_encode s)"
  "CHR ''='' \<notin> set (percent_encode s)"
  by (auto dest!: set_percent_encode simp: unreserved_def)

lemma percent_decode_alt:
  "percent_decode s = from_utf8_lossy (percent_decode_bytes (replace_char CHR ''+'' CHR '' '' s))"
  by (simp add: percent_decode_def Let_def from_utf8_def from_utf8_lossy_id)

lemma percent_decode_utf8: "from_utf8_ok (percent_decode s)"
  by (simp add: percent_decode_alt from_utf8_lossy_ok)

lemma percent_decode_encode: "from_utf8_ok s \<Longrightarrow> percent_decode (percent_encode s) = s"
  by (simp add: percent_decode_alt replace_char_id decode_encode_bytes
      from_utf8_lossy_id)

lemma percent_decode_bytes_plain: "CHR ''%'' \<notin> set s \<Longrightarrow> percent_decode_bytes s = s"
  by (induction s) auto

lemma percent_decode_plain:
  "from_utf8_ok s \<Longrightarrow> CHR ''%'' \<notin> set s \<Longrightarrow> CHR ''+'' \<notin> set s \<Longrightarrow> percent_decode s = s"
  by (simp add: percent_decode_alt replace_char_id percent_decode_bytes_plain from_utf8_lossy_id)

subsection \<open>Looking up parameters\<close>

lemma pair_lookup_encode_pair:
  assumes "from_utf8_ok (fst kv)" and "from_utf8_ok (snd kv)"
  shows "pair_lookup key (encode_pair kv) = (if fst kv = key then Some (snd kv) else None)"
proof -
  have "split_once CHR ''='' (encode_pair kv) =
      Some (percent_encode (fst kv), percent_encode (snd kv))"
    by (simp add: split_once_Some_iff encode_pair_def)
  with assms show ?thesis
    by (simp add: pair_lookup_def percent_decode_encode)
qed

lemma find_map_pair_lookup:
  "\<forall>kv \<in> set ps. from_utf8_ok (fst kv) \<and> from_utf8_ok (snd kv) \<Longrightarrow>
     find_map (pair_lookup key) (map encode_pair ps) = map_of ps key"
  by (induction ps) (auto simp: pair_lookup_encode_pair)

lemma split_on_encode_pairs:
  "ps \<noteq> [] \<Longrightarrow> split_on CHR ''&'' (encode_pairs ps) = map encode_pair ps"
  unfolding encode_pairs_def
  by (rule split_on_join) (auto simp: encode_pair_def)

lemma encode_pairs_utf8: "from_utf8_ok (encode_pairs ps)"
proof -
  have "byte c < 0x80" if "c \<in> set (percent_encode x)" for c x
    using set_percent_encode [OF that] by (auto simp: unreserved_def byte_def Let_def)
  then have "\<forall>c \<in> set (encode_pair kv). byte c < 0x80" for kv
    by (auto simp: encode_pair_def byte_def)
  moreover have "set (join ''&'' xs) \<subseteq> insert CHR ''&'' (\<Union> (set ` set xs))" for xs
    by (induction "''&''" xs rule: join.induct) auto
  ultimately show ?thesis
    by (intro from_utf8_ok_ascii) (fastforce simp: encode_pairs_def byte_def)
qed

text \<open>
  Bytes that do not decode to UTF-8 are replaced: the fallback of \<^verbatim>\<open>percent_decode\<close> is lossy, it
  does not return the undecoded text.
\<close>

lemma percent_decode_lossy: "percent_decode ''%FF'' = replacement_char"
proof -
  have "percent_decode_bytes (replace_char CHR ''+'' CHR '' '' ''%FF'') = [CHR 0xFF]" by code_simp
  then show ?thesis
    by (simp add: percent_decode_alt from_utf8_lossy.simps utf8_width_def byte_def)
qed

subsection \<open>Properties\<close>

text \<open>
  C29: Parameters survive their encoding.  When the query string, or the form body, is the URL
  encoding of a non-empty list of UTF-8 key/value pairs, looking a key up returns the value of the first pair with
  that key, and nothing when there is none: for every key and value, special characters (\<open>&\<close>, \<open>=\<close>,
  \<open>+\<close>, \<open>%\<close>, blanks) included.
\<close>

theorem param_roundtrip:
  assumes "ps \<noteq> []" and "\<forall>kv \<in> set ps. from_utf8_ok (fst kv) \<and> from_utf8_ok (snd kv)"
  shows "query_param (req\<lparr>req_uri := u\<lparr>uri_query := Some (encode_pairs ps)\<rparr>\<rparr>) key = map_of ps key \<and>
    form_param (req\<lparr>req_body := encode_pairs ps\<rparr>) key = map_of ps key"
  using assms
  by (simp add: query_param_def form_param_def from_utf8_def encode_pairs_utf8 split_on_encode_pairs
      find_map_pair_lookup)

theorem param_roundtrip_witness:
  "query_param \<lparr>req_method = ''GET'',
      req_uri = \<lparr>uri_path = ''/'', uri_query = Some ''a%26=1%202&b=%3D'', uri_path_and_query = None\<rparr>,
      req_headers = (), req_body = [], req_path_params = Map.empty\<rparr> ''a&'' = Some ''1 2''"
proof -
  let ?u = "\<lparr>uri_path = ''/'', uri_query = None, uri_path_and_query = None\<rparr>"
  let ?req = "\<lparr>req_method = ''GET'', req_uri = ?u, req_headers = (), req_body = [], req_path_params = Map.empty\<rparr>"
  let ?ps = "[(''a&'', ''1 2''), (''b'', ''='')]"
  have "encode_pairs ?ps = ''a%26=1%202&b=%3D''" by code_simp
  moreover have "\<forall>kv \<in> set ?ps. from_utf8_ok (fst kv) \<and> from_utf8_ok (snd kv)"
    by (simp add: from_utf8_ok_ascii_Cons byte_def)
  ultimately show ?thesis
    using param_roundtrip [where ps = ?ps and req = ?req and u = ?u and key = "''a&''"] by simp
qed

end
