(* ===== verification/Response.thy ===== *)
theory Response
  imports Http_Lib
begin

text \<open>
  \<^verbatim>\<open>src/http/response.rs\<close>: the response builder.

  A response is its status, its header map and the bytes of its body.  \<open>build\<close> hands the
  headers to \<^verbatim>\<open>Response::builder\<close> in the order of the source: \<^verbatim>\<open>content-type\<close>,
  \<^verbatim>\<open>content-length\<close>, \<^verbatim>\<open>server\<close>, then the extra headers.  JSON values are serialised by
  \<^verbatim>\<open>serde_json\<close>, which is not part of the repository: \<open>json\<close> takes the outcome of
  \<^verbatim>\<open>serde_json::to_vec\<close>, \<^const>\<open>None\<close> for an error.
\<close>

record 'h http_response =
  resp_status :: nat
  resp_headers :: 'h
  resp_body :: string

record response_builder =
  rb_status :: nat
  rb_extra_headers :: "(string \<times> string) list"

definition SERVER_HEADER :: string where
  "SERVER_HEADER = ''rust-highperf-server/0.1''"

definition full_body :: "string \<Rightarrow> string" where
  "full_body bytes = bytes"

definition rb_new :: "nat \<Rightarrow> response_builder" where
  "rb_new s = \<lparr>rb_status = s, rb_extra_headers = []\<rparr>"

definition ok :: response_builder where
  "ok = rb_new 200"

definition bad_request :: response_builder where
  "bad_request = rb_new 400"

definition not_found :: response_builder where
  "not_found = rb_new 404"

definition method_not_allowed :: response_builder where
  "method_not_allowed = rb_new 405"

definition internal_error :: response_builder where
  "internal_error = rb_new 500"

definition rb_header :: "string \<Rightarrow> string \<Rightarrow> response_builder \<Rightarrow> response_builder" where
  "rb_header key val b = b\<lparr>rb_extra_headers := rb_extra_headers b @ [(key, val)]\<rparr>"

definition builder_headers :: "response_builder \<Rightarrow> string \<Rightarrow> nat \<Rightarrow> (string \<times> string) list" where
  "builder_headers b content_type content_length =
     [(''content-type'', content_type), (''content-length'', show_nat content_length),
      (''server'', SERVER_HEADER)] @ rb_extra_headers b"

definition response_new :: "'h http_lib \<Rightarrow> string \<Rightarrow> 'h http_response" where
  "response_new L b = \<lparr>resp_status = 200, resp_headers = hm_new L, resp_body = b\<rparr>"

definition build_failed :: "'h http_lib \<Rightarrow> 'h http_response" where
  "build_failed L =
     (case build_headers L [(''server'', SERVER_HEADER)] of
        Some h \<Rightarrow> \<lparr>resp_status = 500, resp_headers = h,
                   resp_body = full_body (''Internal Server Error'' @ newline)\<rparr>
      | None \<Rightarrow> response_new L (full_body []))"

definition build :: "'h http_lib \<Rightarrow> string \<Rightarrow> string \<Rightarrow> response_builder \<Rightarrow> 'h http_response" where
  "build L content_type bytes b =
     (case build_headers L (builder_headers b content_type (length bytes)) of
        Some h \<Rightarrow> \<lparr>resp_status = rb_status b, resp_headers = h, resp_body = full_body bytes\<rparr>
      | None \<Rightarrow> build_failed L)"

definition stream_body ::
    "'h http_lib \<Rightarrow> string \<Rightarrow> string \<Rightarrow> nat \<Rightarrow> response_builder \<Rightarrow> 'h http_response" where
  "stream_body L content_type bytes content_length b =
     (case build_headers L (builder_headers b content_type content_length) of
        Some h \<Rightarrow> \<lparr>resp_status = rb_status b, resp_headers = h, resp_body = bytes\<rparr>
      | None \<Rightarrow> build_failed L)"

definition text_plain :: string where
  "text_plain = ''text/plain; charset=utf-8''"

definition rb_text :: "'h http_lib \<Rightarrow> string \<Rightarrow> response_builder \<Rightarrow> 'h http_response" where
  "rb_text L body b = build L text_plain body b"

definition rb_json :: "'h http_lib \<Rightarrow> string option \<Rightarrow> response_builder \<Rightarrow> 'h http_response" where
  "rb_json L serialised b =
     (case serialised of
        Some vec \<Rightarrow> build L ''application/json'' vec b
      | None \<Rightarrow> rb_text L (''Internal Server Error'' @ newline) internal_error)"

definition bytes_body :: "'h http_lib \<Rightarrow> string \<Rightarrow> string \<Rightarrow> response_builder \<Rightarrow> 'h http_response" where
  "bytes_body L content_type body b = build L content_type body b"

definition rb_empty :: "'h http_lib \<Rightarrow> response_builder \<Rightarrow> 'h http_response" where
  "rb_empty L b = build L text_plain [] b"

subsection \<open>What a built response carries\<close>

lemmas builder_defs =
  ok_def bad_request_def not_found_def method_not_allowed_def internal_error_def rb_new_def
  rb_header_def

lemma header_value_ok_Cons [simp]:
  "header_value_ok []"
  "header_value_ok (c # cs) \<longleftrightarrow>
     (32 \<le> (of_char c :: nat) \<and> (of_char c :: nat) \<noteq> 127 \<or> (of_char c :: nat) = 9) \<and> header_value_ok cs"
  by (simp_all add: header_value_ok_def Let_def)

lemma header_value_ok_append [simp]:
  "header_value_ok (a @ b) \<longleftrightarrow> header_value_ok a \<and> header_value_ok b"
  by (simp add: header_value_ok_def)

lemma digit_value_byte:
  "digit_value c \<noteq> None \<Longrightarrow> 48 \<le> (of_char c :: nat) \<and> (of_char c :: nat) \<le> 57"
  by (auto simp: digit_value_def Let_def split: if_splits)

lemma show_nat_value_ok [simp]: "header_value_ok (show_nat n)"
proof -
  have "32 \<le> (of_char c :: nat) \<and> (of_char c :: nat) \<noteq> 127" if "c \<in> set (show_nat n)" for c
    using digit_value_byte [OF show_nat_digits [OF that]] by linarith
  then show ?thesis by (simp add: header_value_ok_def list_all_iff Let_def)
qed

lemma header_ok_literals [simp]:
  "header_ok (''server'', SERVER_HEADER)"
  "header_ok (''content-type'', text_plain)"
  "header_ok (''content-type'', ''application/json'')"
  "header_ok (''content-length'', show_nat n)"
  by (simp_all add: header_ok_def header_name_ok_def token_char_def Let_def SERVER_HEADER_def
      text_plain_def)

lemma header_ok_content_type: "header_ok (''content-type'', v) \<longleftrightarrow> header_value_ok v"
  by (simp add: header_ok_def header_name_ok_def token_char_def Let_def)

lemma builder_headers_ok:
  "list_all header_ok (builder_headers b ct n) \<longleftrightarrow>
     header_value_ok ct \<and> list_all header_ok (rb_extra_headers b)"
  by (auto simp: builder_headers_def header_ok_content_type)

lemma text_plain_ok [simp]: "header_value_ok text_plain" "header_value_ok ''application/json''"
  by (simp_all add: header_ok_content_type [symmetric])

lemma values_of_builder:
  "values_of k (builder_headers b ct n) =
     (if lowercase k = ''content-type'' then [ct]
      else if lowercase k = ''content-length'' then [show_nat n]
      else if lowercase k = ''server'' then [SERVER_HEADER] else [])
     @ values_of k (rb_extra_headers b)"
  by (simp add: values_of_def builder_headers_def lowercase_def ascii_lower_def)

context http_crate
begin

lemma build_ok_eq:
  assumes "header_value_ok ct" and "list_all header_ok (rb_extra_headers b)"
  shows "resp_status (build L ct bytes b) = rb_status b"
    and "resp_body (build L ct bytes b) = bytes"
    and "hm_get_all L (resp_headers (build L ct bytes b)) k =
           values_of k (builder_headers b ct (length bytes))"
proof -
  obtain h where h: "build_headers L (builder_headers b ct (length bytes)) = Some h"
    using assms build_headers_ok [of "builder_headers b ct (length bytes)"]
    by (auto simp: builder_headers_ok)
  then show "resp_status (build L ct bytes b) = rb_status b"
    and "resp_body (build L ct bytes b) = bytes"
    and "hm_get_all L (resp_headers (build L ct bytes b)) k =
           values_of k (builder_headers b ct (length bytes))"
    using build_headers_Some [OF h] by (simp_all add: build_def full_body_def)
qed

lemma build_failed_eq:
  "resp_status (build_failed L) = 500"
  "resp_body (build_failed L) = ''Internal Server Error'' @ newline"
  "hm_get_all L (resp_headers (build_failed L)) k = values_of k [(''server'', SERVER_HEADER)]"
proof -
  obtain h where h: "build_headers L [(''server'', SERVER_HEADER)] = Some h"
    using build_headers_ok [of "[(''server'', SERVER_HEADER)]"] by auto
  then show "resp_status (build_failed L) = 500"
    and "resp_body (build_failed L) = ''Internal Server Error'' @ newline"
    and "hm_get_all L (resp_headers (build_failed L)) k = values_of k [(''server'', SERVER_HEADER)]"
    using build_headers_Some [OF h] by (simp_all add: build_failed_def full_body_def)
qed

lemma build_bad_eq:
  assumes "\<not> (header_value_ok ct \<and> list_all header_ok (rb_extra_headers b))"
  shows "build L ct bytes b = build_failed L"
  using assms build_err by (simp add: build_def builder_headers_ok)

lemma build_server_header:
  "SERVER_HEADER \<in> set (hm_get_all L (resp_headers (build L ct bytes b)) ''server'')"
proof (cases "header_value_ok ct \<and> list_all header_ok (rb_extra_headers b)")
  case True
  then show ?thesis
    by (simp add: build_ok_eq values_of_builder lowercase_def ascii_lower_def)
next
  case False
  then show ?thesis
    by (simp add: build_bad_eq build_failed_eq values_of_def)
qed

lemma build_get:
  assumes "header_value_ok ct" and "list_all header_ok (rb_extra_headers b)"
  shows "hm_get L (resp_headers (build L ct bytes b)) ''content-type'' = Some ct"
    and "hm_get L (resp_headers (build L ct bytes b)) ''content-length'' = Some (show_nat (length bytes))"
    and "hm_get L (resp_headers (build L ct bytes b)) ''server'' = Some SERVER_HEADER"
  by (simp_all add: get_first build_ok_eq [OF assms] values_of_builder lowercase_def ascii_lower_def)

end

subsection \<open>Properties\<close>

text \<open>
  What the builder produces.  When the content type and the extra headers are valid the
  response has the status of the builder, the given body, and for every name exactly the values of the three standard headers
  (content type, a content length equal to the size of the body, server) followed by the extra headers in the order
  they were added: an extra header never replaces a standard one.  An invalid header turns the whole response into a \<open>500\<close> that carries
  the server header only.
\<close>

lemma build_response:
  assumes "http_crate L"
  shows "let resp = build L ct bytes b in
    if header_value_ok ct \<and> list_all header_ok (rb_extra_headers b)
    then resp_status resp = rb_status b \<and> resp_body resp = bytes \<and>
      (\<forall>k. hm_get_all L (resp_headers resp) k =
         values_of k [(''content-type'', ct), (''content-length'', show_nat (length bytes)), (''server'', SERVER_HEADER)]
         @ values_of k (rb_extra_headers b))
    else resp_status resp = 500 \<and> resp_body resp = ''Internal Server Error'' @ newline \<and>
      (\<forall>k. hm_get_all L (resp_headers resp) k = values_of k [(''server'', SERVER_HEADER)])"
  by (simp add: Let_def http_crate.build_ok_eq [OF assms] http_crate.build_bad_eq [OF assms]
      http_crate.build_failed_eq [OF assms] builder_headers_def values_of_def)

end
