(* ===== verification/Router.thy ===== *)
theory Router
  imports Request Response
begin

text \<open>
  \<^verbatim>\<open>src/http/router.rs\<close>: path patterns, matching and dispatch.

  A handler is a function of the request and of the state of the application (the \<^verbatim>\<open>async\<close>
  closure with everything it captures by \<^verbatim>\<open>Arc\<close>), and returns the new state and the response.
  \<open>seg_match\<close> is the specification of a match, as a relation between a pattern, the components
  of a path and the captured parameters; \<open>match_path\<close> is the loop of the source.
\<close>

datatype path_segment = Literal string | Param string | Wildcard string

type_synonym params = "string \<rightharpoonup> string"

type_synonym ('h, 's) handler = "'h http_request \<Rightarrow> 's \<Rightarrow> 's \<times> 'h http_response"

record ('h, 's) route_entry =
  re_method :: string
  re_segments :: "path_segment list"
  re_handler :: "('h, 's) handler"

record ('h, 's) router =
  routes :: "('h, 's) route_entry list"

definition router_new :: "('h, 's) router" where
  "router_new = \<lparr>routes = []\<rparr>"

definition parse_segment :: "string \<Rightarrow> path_segment" where
  "parse_segment seg =
     (case strip_prefix ''*'' seg of
        Some name \<Rightarrow> Wildcard name
      | None \<Rightarrow> (case strip_prefix '':'' seg of Some name \<Rightarrow> Param name | None \<Rightarrow> Literal seg))"

definition path_segments :: "string \<Rightarrow> string list" where
  "path_segments p = filter (\<lambda>s. s \<noteq> []) (split_on CHR ''/'' p)"

definition parse_pattern :: "string \<Rightarrow> path_segment list" where
  "parse_pattern pattern = map parse_segment (path_segments pattern)"

definition add_route ::
    "string \<Rightarrow> string \<Rightarrow> ('h, 's) handler \<Rightarrow> ('h, 's) router \<Rightarrow> ('h, 's) router" where
  "add_route meth pattern f r =
     r\<lparr>routes := routes r @
        [\<lparr>re_method = meth, re_segments = parse_pattern pattern, re_handler = f\<rparr>]\<rparr>"

definition router_get :: "string \<Rightarrow> ('h, 's) handler \<Rightarrow> ('h, 's) router \<Rightarrow> ('h, 's) router" where
  "router_get pattern f r = add_route ''GET'' pattern f r"

definition router_post :: "string \<Rightarrow> ('h, 's) handler \<Rightarrow> ('h, 's) router \<Rightarrow> ('h, 's) router" where
  "router_post pattern f r = add_route ''POST'' pattern f r"

definition router_put :: "string \<Rightarrow> ('h, 's) handler \<Rightarrow> ('h, 's) router \<Rightarrow> ('h, 's) router" where
  "router_put pattern f r = add_route ''PUT'' pattern f r"

definition router_delete :: "string \<Rightarrow> ('h, 's) handler \<Rightarrow> ('h, 's) router \<Rightarrow> ('h, 's) router" where
  "router_delete pattern f r = add_route ''DELETE'' pattern f r"

definition router_any :: "string \<Rightarrow> ('h, 's) handler \<Rightarrow> ('h, 's) router \<Rightarrow> ('h, 's) router" where
  "router_any pattern f r = add_route ''*'' pattern f r"

fun is_wildcard :: "path_segment \<Rightarrow> bool" where
  "is_wildcard (Wildcard n) = True"
| "is_wildcard _ = False"

definition has_wildcard :: "path_segment list \<Rightarrow> bool" where
  "has_wildcard segs \<longleftrightarrow> segs \<noteq> [] \<and> is_wildcard (last segs)"

fun match_loop :: "string list \<Rightarrow> nat \<Rightarrow> path_segment list \<Rightarrow> params \<Rightarrow> params option" where
  "match_loop ps i [] m = Some m"
| "match_loop ps i (Literal lit # segs) m =
     (if i < length ps \<and> ps ! i = lit then match_loop ps (Suc i) segs m else None)"
| "match_loop ps i (Param name # segs) m =
     (if i < length ps then match_loop ps (Suc i) segs (m(name \<mapsto> ps ! i)) else None)"
| "match_loop ps i (Wildcard name # segs) m =
     Some (if i < length ps then m(name \<mapsto> join ''/'' (drop i ps)) else m)"

definition match_path :: "('h, 's) route_entry \<Rightarrow> string \<Rightarrow> params option" where
  "match_path r p =
     (let ps = path_segments p; segs = re_segments r in
      if has_wildcard segs then
        (if length ps < length segs - 1 then None else match_loop ps 0 segs Map.empty)
      else if length ps \<noteq> length segs then None
      else match_loop ps 0 segs Map.empty)"

definition method_ok :: "('h, 's) route_entry \<Rightarrow> string \<Rightarrow> bool" where
  "method_ok r meth \<longleftrightarrow> re_method r = ''*'' \<or> re_method r = meth"

fun dispatch_loop ::
    "'h http_lib \<Rightarrow> 'h http_request \<Rightarrow> bool \<Rightarrow> ('h, 's) route_entry list \<Rightarrow> 's \<Rightarrow> 's \<times> 'h http_response" where
  "dispatch_loop L req any_path_matched [] s =
     (s, if any_path_matched then rb_empty L method_not_allowed
         else rb_text L (''404 Not Found'' @ newline) not_found)"
| "dispatch_loop L req any_path_matched (r # rs) s =
     (case match_path r (path req) of
        None \<Rightarrow> dispatch_loop L req any_path_matched rs s
      | Some ps \<Rightarrow>
          if method_ok r (req_method req) then re_handler r (req\<lparr>req_path_params := ps\<rparr>) s
          else dispatch_loop L req True rs s)"

definition dispatch ::
    "'h http_lib \<Rightarrow> ('h, 's) router \<Rightarrow> 'h http_request \<Rightarrow> 's \<Rightarrow> 's \<times> 'h http_response" where
  "dispatch L router req s = dispatch_loop L req False (routes router) s"

subsection \<open>Specification of matching\<close>

inductive seg_match :: "path_segment list \<Rightarrow> string list \<Rightarrow> params \<Rightarrow> bool" where
  seg_nil: "seg_match [] [] Map.empty"
| seg_lit: "seg_match segs ps m \<Longrightarrow> seg_match (Literal l # segs) (l # ps) m"
| seg_par: "seg_match segs ps m \<Longrightarrow> seg_match (Param n # segs) (x # ps) ([n \<mapsto> x] ++ m)"
| seg_wild: "seg_match [Wildcard n] ps (if ps = [] then Map.empty else [n \<mapsto> join ''/'' ps])"

inductive_simps seg_match_simps:
  "seg_match [] ps m"
  "seg_match (Literal l # segs) ps m"
  "seg_match (Param n # segs) ps m"
  "seg_match (Wildcard n # segs) ps m"

text \<open>A pattern is well formed when a wildcard occurs in the last place only.\<close>

fun wf_pattern :: "path_segment list \<Rightarrow> bool" where
  "wf_pattern [] = True"
| "wf_pattern (Wildcard n # segs) = (segs = [])"
| "wf_pattern (Literal l # segs) = wf_pattern segs"
| "wf_pattern (Param n # segs) = wf_pattern segs"

definition fits :: "path_segment list \<Rightarrow> nat \<Rightarrow> bool" where
  "fits segs n \<longleftrightarrow> (if has_wildcard segs then length segs - 1 \<le> n else n = length segs)"

lemma fits_simps [simp]:
  "fits [] n \<longleftrightarrow> n = 0"
  "fits [Wildcard w] n"
  "fits (Literal l # segs) (Suc n) = fits segs n"
  "fits (Param p # segs) (Suc n) = fits segs n"
  "\<not> fits (Literal l # segs) 0"
  "\<not> fits (Param p # segs) 0"
  by (cases segs; auto simp: fits_def has_wildcard_def)+

lemma seg_match_fits: "seg_match segs ps m \<Longrightarrow> fits segs (length ps)"
  by (induction rule: seg_match.induct) auto

text \<open>The loop, started at component \<open>i\<close>, matches the rest of the path.\<close>

lemma match_loop_iff:
  assumes "wf_pattern segs" and "fits segs (length (drop i ps))"
  shows "match_loop ps i segs m = Some m' \<longleftrightarrow> (\<exists>m2. seg_match segs (drop i ps) m2 \<and> m' = m ++ m2)"
  using assms
proof (induction ps i segs m arbitrary: m' rule: match_loop.induct)
  case (1 ps i m)
  then show ?case by (auto simp: seg_match_simps)
next
  case (2 ps i lit segs m)
  then show ?case
    by (cases "i < length ps")
      (auto simp: seg_match_simps Cons_nth_drop_Suc [symmetric] simp del: length_drop)
next
  case (3 ps i name segs m)
  show ?case
  proof (cases "i < length ps")
    case True
    then have d: "drop i ps = ps ! i # drop (Suc i) ps" by (simp add: Cons_nth_drop_Suc)
    have "match_loop ps (Suc i) segs (m(name \<mapsto> ps ! i)) = Some m' \<longleftrightarrow>
        (\<exists>m2. seg_match segs (drop (Suc i) ps) m2 \<and> m' = m(name \<mapsto> ps ! i) ++ m2)"
      by (rule 3(1) [OF True]) (use 3(2,3) d in \<open>simp_all del: length_drop\<close>)
    with True d show ?thesis by (auto simp: seg_match_simps)
  next
    case False
    with 3 show ?thesis by simp
  qed
next
  case (4 ps i name segs m)
  then show ?case by (auto simp: seg_match_simps)
qed

lemma match_path_fits:
  "match_path r p =
     (if fits (re_segments r) (length (path_segments p))
      then match_loop (path_segments p) 0 (re_segments r) Map.empty else None)"
  by (auto simp: match_path_def Let_def fits_def)

lemma dispatch_loop_find:
  "dispatch_loop L req any_matched rs s =
     (case find (\<lambda>r. match_path r (path req) \<noteq> None \<and> method_ok r (req_method req)) rs of
        Some r \<Rightarrow> re_handler r (req\<lparr>req_path_params := the (match_path r (path req))\<rparr>) s
      | None \<Rightarrow>
          (s, if any_matched \<or> list_ex (\<lambda>r. match_path r (path req) \<noteq> None) rs
              then rb_empty L method_not_allowed
              else rb_text L (''404 Not Found'' @ newline) not_found))"
  by (induction L req any_matched rs s rule: dispatch_loop.induct) (auto split: option.splits)

lemma dispatch_cases:
  assumes "dispatch L R req s = (s', resp)"
  obtains "s' = s"
  | r ps where "r \<in> set (routes R)" "re_handler r (req\<lparr>req_path_params := ps\<rparr>) s = (s', resp)"
  using assms
  by (auto simp: dispatch_def dispatch_loop_find find_Some_iff split: option.splits) (metis nth_mem)

subsection \<open>Properties\<close>

text \<open>
  C18: \<^verbatim>\<open>RouteEntry::match_path\<close> implements the specification of a match.  For every pattern
  whose wildcard, if any, is its last segment, the loop of the source returns exactly the
  parameters that \<open>seg_match\<close> relates to the non-empty components of the path, and \<^const>\<open>None\<close>
  when there is no match.
\<close>

theorem match_path_correct:
  assumes "wf_pattern (re_segments r)"
  shows "match_path r p = Some m \<longleftrightarrow> seg_match (re_segments r) (path_segments p) m"
  using match_loop_iff [OF assms, of 0 "path_segments p" Map.empty m]
    seg_match_fits [of "re_segments r" "path_segments p" m]
  by (auto simp: match_path_fits)

theorem match_path_correct_witness:
  "match_path \<lparr>re_method = ''GET'', re_segments = parse_pattern ''/users/:id/*rest'',
       re_handler = (\<lambda>req (s :: unit). (s, response_new alist_http []))\<rparr> ''/users/42/a/b''
     = Some [''id'' \<mapsto> ''42'', ''rest'' \<mapsto> ''a/b'']"
proof -
  let ?r = "\<lparr>re_method = ''GET'', re_segments = parse_pattern ''/users/:id/*rest'',
       re_handler = (\<lambda>req (s :: unit). (s, response_new alist_http []))\<rparr>"
  have segs: "parse_pattern ''/users/:id/*rest'' = [Literal ''users'', Param ''id'', Wildcard ''rest'']"
    by (simp add: parse_pattern_def path_segments_def parse_segment_def)
  have ps: "path_segments ''/users/42/a/b'' = [''users'', ''42'', ''a'', ''b'']"
    by (simp add: path_segments_def)
  have w: "seg_match [Wildcard ''rest''] [''a'', ''b''] [''rest'' \<mapsto> ''a/b'']"
    using seg_wild [of "''rest''" "[''a'', ''b'']"] by simp
  have "seg_match [Literal ''users'', Param ''id'', Wildcard ''rest''] [''users'', ''42'', ''a'', ''b'']
      ([''id'' \<mapsto> ''42''] ++ [''rest'' \<mapsto> ''a/b''])"
    by (rule seg_lit, rule seg_par, rule w)
  then show ?thesis
    using match_path_correct [of ?r "''/users/42/a/b''"] by (auto simp: segs ps)
qed

text \<open>
  C19: \<^verbatim>\<open>Router::dispatch\<close> calls the handler of the first route, in registration order, whose
  pattern matches the path and whose method matches the request, with the parameters that
  route captured.  If there is none the state is left alone and the answer is \<^verbatim>\<open>405\<close> when some
  pattern matched the path, \<^verbatim>\<open>404\<close> otherwise.
\<close>

theorem dispatch_correct:
  "dispatch L R req s =
     (case find (\<lambda>r. match_path r (path req) \<noteq> None \<and> method_ok r (req_method req)) (routes R) of
        Some r \<Rightarrow> re_handler r (req\<lparr>req_path_params := the (match_path r (path req))\<rparr>) s
      | None \<Rightarrow>
          (s, if list_ex (\<lambda>r. match_path r (path req) \<noteq> None) (routes R)
              then rb_empty L method_not_allowed
              else rb_text L (''404 Not Found'' @ newline) not_found))"
  by (simp add: dispatch_def dispatch_loop_find)

end
