(* ===== verification/Float64.thy ===== *)
theory Float64
  imports Complex_Main
begin

text \<open>
  Rust's \<^verbatim>\<open>f64\<close> arithmetic on the values the rate limiter computes with.

  Every operation of IEEE 754 binary64 returns the exact result rounded to the nearest
  representable number, ties to the one with an even significand.  \<open>f64_round\<close> is that
  rounding on non-negative reals: a number with binary exponent \<open>e\<close> is rounded to a multiple of
  \<open>2 ^ (e - 52)\<close>, and below the smallest normal number \<open>2 ^ -1022\<close> to a multiple of \<open>2 ^ -1074\<close>.
  Every operand in the sources is non-negative and far below the overflow threshold, so
  negative numbers, infinities and NaN do not occur and are not represented.

  The locale \<open>rounding\<close> collects what the clients use of it: rounding is monotone, exact on the
  numbers of the format, and has a relative error of at most \<open>2 ^ -53\<close> on normal numbers.
\<close>

definition round_half_even :: "real \<Rightarrow> int" where
  "round_half_even r =
     (let f = \<lfloor>r\<rfloor>; d = r - of_int f in
      if d < 1 / 2 then f else if 1 / 2 < d then f + 1 else if even f then f else f + 1)"

definition f64_exponent :: "real \<Rightarrow> int" where
  "f64_exponent x = max \<lfloor>log 2 x\<rfloor> (-1022)"

definition ulp :: "int \<Rightarrow> real" where
  "ulp e = 2 powi (e - 52)"

definition f64_round :: "real \<Rightarrow> real" where
  "f64_round x =
     (if x = 0 then 0
      else of_int (round_half_even (x / ulp (f64_exponent x))) * ulp (f64_exponent x))"

definition f64_add :: "real \<Rightarrow> real \<Rightarrow> real" where
  "f64_add x y = f64_round (x + y)"

definition f64_sub :: "real \<Rightarrow> real \<Rightarrow> real" where
  "f64_sub x y = f64_round (x - y)"

definition f64_mul :: "real \<Rightarrow> real \<Rightarrow> real" where
  "f64_mul x y = f64_round (x * y)"

definition f64_div :: "real \<Rightarrow> real \<Rightarrow> real" where
  "f64_div x y = f64_round (x / y)"

definition f64_of_nat :: "nat \<Rightarrow> real" where
  "f64_of_nat n = f64_round (real n)"

definition f64_repr :: "real \<Rightarrow> bool" where
  "f64_repr x \<longleftrightarrow> f64_round x = x"

locale rounding =
  fixes rnd :: "real \<Rightarrow> real"
  assumes rnd_mono: "0 \<le> x \<Longrightarrow> x \<le> y \<Longrightarrow> rnd x \<le> rnd y"
    and rnd_nat: "n \<le> 2 ^ 53 \<Longrightarrow> rnd (real n) = real n"
    and rnd_idem: "0 \<le> x \<Longrightarrow> rnd (rnd x) = rnd x"
    and rnd_pred: "rnd x = x \<Longrightarrow> 1 \<le> x \<Longrightarrow> x < 2 ^ 53 \<Longrightarrow> rnd (x - 1) = x - 1"
    and rnd_error: "2 powi (- 1022) \<le> x \<Longrightarrow> \<bar>rnd x - x\<bar> \<le> x * 2 powi (- 53)"
begin

lemma rnd_zero: "rnd 0 = 0"
  using rnd_nat [of 0] by simp

lemma rnd_nonneg: "0 \<le> x \<Longrightarrow> 0 \<le> rnd x"
  using rnd_mono [of 0 x] by (simp add: rnd_zero)

lemma rnd_ge_nat: "n \<le> 2 ^ 53 \<Longrightarrow> real n \<le> x \<Longrightarrow> real n \<le> rnd x"
  using rnd_mono [of "real n" x] by (simp add: rnd_nat)

lemma rnd_le_nat: "n \<le> 2 ^ 53 \<Longrightarrow> 0 \<le> x \<Longrightarrow> x \<le> real n \<Longrightarrow> rnd x \<le> real n"
  using rnd_mono [of x "real n"] by (simp add: rnd_nat)

lemma rnd_relative:
  assumes "x = 0 \<or> 1 / 2 ^ k \<le> x" and "k \<le> 1000"
  shows "rnd x = 0 \<or> 1 / 2 ^ Suc k \<le> rnd x" and "rnd x \<le> x * (1 + 1 / 2 ^ 53)"
proof -
  have "x / 2 \<le> rnd x" "rnd x \<le> x + x / 2 ^ 53" if x: "1 / 2 ^ k \<le> x"
  proof -
    have "(2::real) powi (- 1022) \<le> 2 powi (- int k)"
      using assms(2) by (intro power_int_increasing) simp_all
    also have "\<dots> = 1 / 2 ^ k"
      by (simp add: power_int_minus divide_simps)
    finally have "\<bar>rnd x - x\<bar> \<le> x * 2 powi (- 53)"
      by (rule rnd_error [OF order_trans [OF _ x]])
    moreover have "x * 2 powi (- 53) = x / 2 ^ 53" by (simp add: power_int_def power_one_over)
    ultimately have "rnd x - x \<le> x / 2 ^ 53" and "x - rnd x \<le> x / 2 ^ 53"
      by (simp_all only: abs_le_iff minus_diff_eq)
    moreover have "0 \<le> x" using x by (rule order_trans [rotated]) simp
    then have "x / 2 ^ 53 \<le> x / 2" by simp
    ultimately show "x / 2 \<le> rnd x" and "rnd x \<le> x + x / 2 ^ 53" by simp_all
  qed
  then show "rnd x = 0 \<or> 1 / 2 ^ Suc k \<le> rnd x" and "rnd x \<le> x * (1 + 1 / 2 ^ 53)"
    using assms(1) by (auto simp: rnd_zero algebra_simps)
qed

end

subsection \<open>Rounding to an integer\<close>

lemma round_half_even_of_int [simp]: "round_half_even (of_int i) = i"
  by (simp add: round_half_even_def)

lemma round_half_even_error: "\<bar>of_int (round_half_even r) - r\<bar> \<le> 1 / 2"
  unfolding round_half_even_def Let_def
  using floor_correct [of r] by (auto simp: abs_le_iff)

lemma round_half_even_cases: "round_half_even r = \<lfloor>r\<rfloor> \<or> round_half_even r = \<lfloor>r\<rfloor> + 1"
  by (auto simp: round_half_even_def Let_def)

lemma round_half_even_mono:
  assumes "r \<le> s"
  shows "round_half_even r \<le> round_half_even s"
proof (cases "\<lfloor>r\<rfloor> = \<lfloor>s\<rfloor>")
  case True
  with assms show ?thesis by (auto simp: round_half_even_def Let_def)
next
  case False
  then have "\<lfloor>r\<rfloor> + 1 \<le> \<lfloor>s\<rfloor>" using floor_mono [OF assms] by linarith
  with round_half_even_cases [of r] round_half_even_cases [of s] show ?thesis by linarith
qed

subsection \<open>The exponent and the unit in the last place\<close>

lemma ulp_pos [simp]: "0 < ulp e"
  by (simp add: ulp_def)

lemma ulp_nonzero [simp]: "ulp e \<noteq> 0"
  using ulp_pos [of e] by linarith

lemma ulp_shift:
  assumes "e \<le> e'"
  shows "ulp e' = ulp e * of_int (2 ^ nat (e' - e))"
proof -
  have "(2::real) powi (e' - 52) = 2 powi ((e - 52) + (e' - e))" by simp
  also have "\<dots> = 2 powi (e - 52) * 2 powi (e' - e)" by (rule power_int_add) simp
  also have "2 powi (e' - e) = (2::real) ^ nat (e' - e)" using assms by (simp add: power_int_def)
  finally show ?thesis by (simp add: ulp_def)
qed

lemma powi_mono: "(a::int) \<le> b \<Longrightarrow> (2::real) powi a \<le> 2 powi b"
  by (simp add: power_int_increasing)

lemma floor_log_bounds:
  assumes "0 < x"
  shows "2 powi \<lfloor>log 2 x\<rfloor> \<le> x" and "x < 2 powi (\<lfloor>log 2 x\<rfloor> + 1)"
proof -
  have pw: "(2::real) powi k = 2 powr of_int k" for k
    by (simp add: powr_real_of_int')
  have "2 powr of_int \<lfloor>log 2 x\<rfloor> \<le> x"
    using assms by (intro le_log_iff [THEN iffD1]) simp_all
  moreover have "x < 2 powr of_int (\<lfloor>log 2 x\<rfloor> + 1)"
    using assms by (intro log_less_iff [THEN iffD1]) linarith+
  ultimately show "2 powi \<lfloor>log 2 x\<rfloor> \<le> x" and "x < 2 powi (\<lfloor>log 2 x\<rfloor> + 1)"
    unfolding pw by simp_all
qed

lemma exponent_upper: "0 < x \<Longrightarrow> x < 2 powi (f64_exponent x + 1)"
  using floor_log_bounds(2) [of x] powi_mono [of "\<lfloor>log 2 x\<rfloor> + 1" "f64_exponent x + 1"]
  by (simp add: f64_exponent_def)

lemma exponent_lower: "0 < x \<Longrightarrow> - 1022 < f64_exponent x \<Longrightarrow> 2 powi f64_exponent x \<le> x"
  using floor_log_bounds(1) [of x] by (auto simp: f64_exponent_def max_def split: if_splits)

lemma exponent_mono: "0 < x \<Longrightarrow> x \<le> y \<Longrightarrow> f64_exponent x \<le> f64_exponent y"
  unfolding f64_exponent_def by (intro max.mono floor_mono order_refl) (simp add: log_le_cancel_iff)

lemma powi_ulp: "(2::real) powi (e + 1) = of_int (2 ^ 53) * ulp e" "(2::real) powi e = of_int (2 ^ 52) * ulp e"
  using ulp_shift [of e "e + 53"] ulp_shift [of e "e + 52"] by (simp_all add: ulp_def add.commute)


subsection \<open>Rounding to binary64\<close>

lemma f64_round_pos:
  "0 < x \<Longrightarrow> f64_round x = of_int (round_half_even (x / ulp (f64_exponent x))) * ulp (f64_exponent x)"
  by (simp add: f64_round_def)

lemma f64_round_exact:
  assumes "0 < x" and "x = of_int m * ulp (f64_exponent x)"
  shows "f64_round x = x"
proof -
  have "x / ulp (f64_exponent x) = of_int m"
    using assms(2) ulp_pos [of "f64_exponent x"] by (metis less_irrefl nonzero_divide_eq_eq)
  with assms show ?thesis by (simp add: f64_round_pos)
qed

lemma f64_round_upper:
  assumes "0 < x"
  shows "f64_round x \<le> 2 powi (f64_exponent x + 1)"
proof -
  let ?u = "ulp (f64_exponent x)"
  have "x / ?u \<le> of_int (2 ^ 53)"
    using exponent_upper [OF assms] by (simp add: powi_ulp(1) divide_le_eq)
  then have "round_half_even (x / ?u) \<le> 2 ^ 53"
    using round_half_even_mono by (metis round_half_even_of_int)
  then have "of_int (round_half_even (x / ?u)) \<le> (2 ^ 53 :: real)"
    by (metis of_int_le_iff of_int_numeral of_int_power)
  then show ?thesis
    using assms by (simp add: f64_round_pos powi_ulp(1) mult_right_mono less_imp_le)
qed

lemma f64_round_lower:
  assumes "0 < x" and "- 1022 < f64_exponent x"
  shows "2 powi f64_exponent x \<le> f64_round x"
proof -
  let ?u = "ulp (f64_exponent x)"
  have "of_int (2 ^ 52) \<le> x / ?u"
    using exponent_lower [OF assms] by (simp add: powi_ulp(2) le_divide_eq)
  then have "2 ^ 52 \<le> round_half_even (x / ?u)"
    using round_half_even_mono by (metis round_half_even_of_int)
  then have "(2 ^ 52 :: real) \<le> of_int (round_half_even (x / ?u))"
    by (metis of_int_le_iff of_int_numeral of_int_power)
  then show ?thesis
    using assms by (simp add: f64_round_pos powi_ulp(2) mult_right_mono less_imp_le)
qed

lemma f64_round_mono:
  assumes "0 \<le> x" and "x \<le> y"
  shows "f64_round x \<le> f64_round y"
proof (cases "x = 0")
  case True
  have "0 \<le> round_half_even (y / ulp (f64_exponent y))"
    using round_half_even_mono [of 0 "y / ulp (f64_exponent y)"] round_half_even_of_int [of 0] True assms
    by (simp add: less_imp_le)
  with True show ?thesis by (simp add: f64_round_def less_imp_le)
next
  case False
  with assms have pos: "0 < x" "0 < y" by auto
  show ?thesis
  proof (cases "f64_exponent x = f64_exponent y")
    case True
    have "round_half_even (x / ulp (f64_exponent y)) \<le> round_half_even (y / ulp (f64_exponent y))"
      using assms(2) by (intro round_half_even_mono) (simp add: divide_right_mono less_imp_le)
    with True pos show ?thesis
      by (simp add: f64_round_pos mult_right_mono less_imp_le)
  next
    case False
    with exponent_mono [OF pos(1) assms(2)] have lt: "f64_exponent x + 1 \<le> f64_exponent y" by simp
    then have "- 1022 < f64_exponent y" by (simp add: f64_exponent_def)
    from f64_round_upper [OF pos(1)] powi_mono [OF lt] f64_round_lower [OF pos(2) this]
    show ?thesis by linarith
  qed
qed

lemma f64_round_multiple:
  assumes "0 < x" and "x = of_int m * ulp e" and "f64_exponent x \<le> e"
  shows "f64_round x = x"
proof (rule f64_round_exact [OF assms(1)])
  note assms(2)
  also have "of_int m * ulp e = of_int (m * 2 ^ nat (e - f64_exponent x)) * ulp (f64_exponent x)"
    by (subst ulp_shift [OF assms(3)]) simp
  finally show "x = of_int (m * 2 ^ nat (e - f64_exponent x)) * ulp (f64_exponent x)" .
qed

lemma f64_exponent_le: "0 < x \<Longrightarrow> x < 2 powi (e + 1) \<Longrightarrow> - 1022 \<le> e \<Longrightarrow> f64_exponent x \<le> e"
  using exponent_lower [of x] powi_mono [of "e + 1" "f64_exponent x"]
  by (cases "f64_exponent x \<le> e") auto

lemma f64_round_nat:
  assumes "n \<le> 2 ^ 53"
  shows "f64_round (real n) = real n"
proof (cases "n = 0")
  case False
  show ?thesis
  proof (cases "n = 2 ^ 53")
    case True
    have "f64_exponent (real n) \<le> 53" using True by (intro f64_exponent_le) simp_all
    with True show ?thesis
      by (intro f64_round_multiple [where e = 53 and m = "2 ^ 52"]) (simp_all add: ulp_def)
  next
    case False
    with assms have "real n < 2 ^ 53" by simp
    then have "f64_exponent (real n) \<le> 52"
      using \<open>n \<noteq> 0\<close> by (intro f64_exponent_le) simp_all
    with \<open>n \<noteq> 0\<close> show ?thesis
      by (intro f64_round_multiple [where e = 52 and m = "int n"]) (simp_all add: ulp_def)
  qed
qed (simp add: f64_round_def)

lemma f64_round_idem:
  assumes "0 \<le> x"
  shows "f64_round (f64_round x) = f64_round x"
proof (cases "x = 0 \<or> f64_round x = 0")
  case True
  then show ?thesis by (auto simp: f64_round_def)
next
  case False
  let ?e = "f64_exponent x"
  have "0 \<le> f64_round x"
    using f64_round_mono [of 0 x] assms by (simp add: f64_round_def [of 0])
  with False assms have pos: "0 < x" "0 < f64_round x" by auto
  show ?thesis
  proof (cases "f64_round x = 2 powi (?e + 1)")
    case True
    then have "f64_exponent (f64_round x) \<le> ?e + 1"
      using pos by (intro f64_exponent_le) (simp_all add: f64_exponent_def power_int_strict_increasing)
    with True pos show ?thesis
      by (intro f64_round_multiple [where e = "?e + 1" and m = "2 ^ 52"])
        (simp_all add: powi_ulp(2) [of "?e + 1"])
  next
    case False
    with f64_round_upper [OF pos(1)] have "f64_exponent (f64_round x) \<le> ?e"
      using pos by (intro f64_exponent_le) (simp_all add: f64_exponent_def)
    with pos show ?thesis
      by (intro f64_round_multiple [where e = ?e, OF _ f64_round_pos])
  qed
qed

lemma f64_round_pred:
  assumes "f64_round x = x" and "1 \<le> x" and "x < 2 ^ 53"
  shows "f64_round (x - 1) = x - 1"
proof (cases "x = 1")
  case False
  let ?e = "f64_exponent x" and ?m = "round_half_even (x / ulp (f64_exponent x))"
  have "?e \<le> 52" using assms by (intro f64_exponent_le) simp_all
  have "0 \<le> ?e" using exponent_mono [of 1 x] assms by (simp add: f64_exponent_def)
  have one: "1 = ulp ?e * of_int (2 ^ nat (52 - ?e))"
    using ulp_shift [OF \<open>?e \<le> 52\<close>] by (simp add: ulp_def)
  have "x = of_int ?m * ulp ?e" using assms f64_round_pos [of x] by simp
  then have "x - 1 = of_int ?m * ulp ?e - ulp ?e * of_int (2 ^ nat (52 - ?e))"
    using one by presburger
  also have "\<dots> = of_int (?m - 2 ^ nat (52 - ?e)) * ulp ?e"
    by (simp add: algebra_simps)
  finally have mult: "x - 1 = of_int (?m - 2 ^ nat (52 - ?e)) * ulp ?e" .
  show ?thesis
    using False assms(2) by (intro f64_round_multiple [OF _ mult] exponent_mono) simp_all
qed (simp add: f64_round_def)

lemma powi_53: "(2::real) powi (- 53) = 1 / 2 ^ 53"
  by (simp add: power_int_def power_one_over)

lemma f64_round_error:
  assumes "2 powi (- 1022) \<le> x"
  shows "\<bar>f64_round x - x\<bar> \<le> x * 2 powi (- 53)"
proof -
  let ?e = "f64_exponent x"
  let ?r = "of_int (round_half_even (x / ulp ?e)) :: real"
  have "(0::real) < 2 powi (- 1022)" by simp
  with assms have pos: "0 < x" by linarith
  have low: "2 powi ?e \<le> x"
  proof (cases "- 1022 < ?e")
    case True
    with exponent_lower [OF pos] show ?thesis by simp
  next
    case False
    then have "?e = - 1022" by (simp add: f64_exponent_def)
    with assms show ?thesis by simp
  qed
  have "f64_round x - x = (?r - x / ulp ?e) * ulp ?e"
    using pos ulp_pos [of ?e] by (simp add: f64_round_pos left_diff_distrib)
  then have "\<bar>f64_round x - x\<bar> = \<bar>?r - x / ulp ?e\<bar> * ulp ?e"
    by (simp add: abs_mult abs_of_pos)
  also have "\<dots> \<le> 1 / 2 * ulp ?e"
    by (intro mult_right_mono round_half_even_error) (simp add: less_imp_le)
  also have "\<dots> = 2 powi ?e * 2 powi (- 53)"
    by (simp add: powi_ulp(2) powi_53)
  also have "\<dots> \<le> x * 2 powi (- 53)"
    by (intro mult_right_mono low) simp
  finally show ?thesis .
qed

interpretation f64: rounding f64_round
proof
  fix x y :: real
  show "f64_round x \<le> f64_round y" if "0 \<le> x" "x \<le> y"
    using that by (rule f64_round_mono)
next
  fix n :: nat
  show "f64_round (real n) = real n" if "n \<le> 2 ^ 53"
    using that by (rule f64_round_nat)
next
  fix x :: real
  show "f64_round (f64_round x) = f64_round x" if "0 \<le> x"
    using that by (rule f64_round_idem)
  show "f64_round (x - 1) = x - 1" if "f64_round x = x" "1 \<le> x" "x < 2 ^ 53"
    using that by (rule f64_round_pred)
  show "\<bar>f64_round x - x\<bar> \<le> x * 2 powi (- 53)" if "2 powi (- 1022) \<le> x"
    using that by (rule f64_round_error)
qed

end
