(* ===== verification/Rate_Limiter.thy ===== *)
theory Rate_Limiter
  imports Float64 Response
begin

text \<open>
  \<^verbatim>\<open>src/middleware/rate_limiter.rs\<close>: the token bucket, the shared limiter with its eviction of
  stale buckets, and the Tower service that answers \<^verbatim>\<open>429\<close>.

  \<^verbatim>\<open>Instant\<close> is a number of nanoseconds since the origin of the monotonic clock; every call of
  \<^verbatim>\<open>Instant::now()\<close> in the sources is an argument of the definition that makes it.
  \<^verbatim>\<open>duration_since\<close> saturates at zero, as subtraction on \<^typ>\<open>nat\<close> does, and \<^verbatim>\<open>checked_sub\<close> is
  \<^const>\<open>None\<close> before the origin.  Tokens are binary64 numbers (theory \<open>Float64\<close>), the rate is a
  \<^verbatim>\<open>u32\<close> and the call counter a wrapping \<^verbatim>\<open>u64\<close>.  The bucket map is keyed by the client's
  address, whose type is a parameter.

  \<^verbatim>\<open>DashMap\<close> locks the entry of an address while a bucket is used, and the clock is read inside
  the lock, so the operations on the limiter are a sequence of atomic events: \<open>Check\<close> for a call
  of \<^verbatim>\<open>check\<close> and \<open>Sweep\<close> for an \<^verbatim>\<open>evict_stale\<close> of the background task.
\<close>

type_synonym instant = nat

definition nanos_per_sec :: nat where
  "nanos_per_sec = 1000000000"

definition EVICT_EVERY_N_CHECKS :: nat where
  "EVICT_EVERY_N_CHECKS = 10000"

definition STALE_BUCKET_TTL :: nat where
  "STALE_BUCKET_TTL = 300 * nanos_per_sec"

definition as_secs_f64 :: "nat \<Rightarrow> real" where
  "as_secs_f64 d =
     f64_add (f64_of_nat (d div nanos_per_sec))
       (f64_div (f64_of_nat (d mod nanos_per_sec)) (f64_of_nat nanos_per_sec))"

record token_bucket =
  tb_tokens :: real
  tb_capacity :: real
  tb_last_refill :: instant
  tb_rate :: real

definition bucket_new :: "32 word \<Rightarrow> instant \<Rightarrow> token_bucket" where
  "bucket_new rate_rps now =
     (let cap = f64_of_nat (unat rate_rps) in
      \<lparr>tb_tokens = cap, tb_capacity = cap, tb_last_refill = now, tb_rate = cap\<rparr>)"

definition refilled :: "instant \<Rightarrow> token_bucket \<Rightarrow> real" where
  "refilled now b =
     min (f64_add (tb_tokens b) (f64_mul (as_secs_f64 (now - tb_last_refill b)) (tb_rate b)))
       (tb_capacity b)"

definition try_consume :: "instant \<Rightarrow> token_bucket \<Rightarrow> token_bucket \<times> bool" where
  "try_consume now b =
     (let tokens = refilled now b;
          b' = b\<lparr>tb_last_refill := now, tb_tokens := tokens\<rparr> in
      if 1 \<le> tokens then (b'\<lparr>tb_tokens := f64_sub tokens 1\<rparr>, True) else (b', False))"

record 'ip rate_limiter =
  rl_buckets :: "'ip \<rightharpoonup> token_bucket"
  rl_rate_rps :: "32 word"
  rl_check_count :: "64 word"

definition limiter_new :: "32 word \<Rightarrow> 'ip rate_limiter" where
  "limiter_new rate_rps = \<lparr>rl_buckets = Map.empty, rl_rate_rps = rate_rps, rl_check_count = 0\<rparr>"

definition checked_sub :: "instant \<Rightarrow> nat \<Rightarrow> instant option" where
  "checked_sub t d = (if d \<le> t then Some (t - d) else None)"

definition retain :: "('v \<Rightarrow> bool) \<Rightarrow> ('k \<rightharpoonup> 'v) \<Rightarrow> ('k \<rightharpoonup> 'v)" where
  "retain P m = (\<lambda>k. case m k of None \<Rightarrow> None | Some v \<Rightarrow> if P v then Some v else None)"

definition evict_stale :: "instant \<Rightarrow> 'ip rate_limiter \<Rightarrow> 'ip rate_limiter" where
  "evict_stale now rl =
     (case checked_sub now STALE_BUCKET_TTL of
        None \<Rightarrow> rl
      | Some cutoff \<Rightarrow>
          rl\<lparr>rl_buckets := retain (\<lambda>b. cutoff \<le> tb_last_refill b) (rl_buckets rl)\<rparr>)"

definition bucket_count :: "'ip rate_limiter \<Rightarrow> nat" where
  "bucket_count rl = card (dom (rl_buckets rl))"

definition sweep_due :: "64 word \<Rightarrow> bool" where
  "sweep_due n \<longleftrightarrow> 0 < n \<and> EVICT_EVERY_N_CHECKS dvd unat n"

definition count_check :: "instant \<Rightarrow> 'ip rate_limiter \<Rightarrow> 'ip rate_limiter" where
  "count_check evict_now rl =
     (let n = rl_check_count rl; rl' = rl\<lparr>rl_check_count := n + 1\<rparr> in
      if sweep_due n then evict_stale evict_now rl' else rl')"

definition limiter_check ::
    "instant \<Rightarrow> instant \<Rightarrow> instant \<Rightarrow> 'ip \<Rightarrow> 'ip rate_limiter \<Rightarrow> 'ip rate_limiter \<times> bool" where
  "limiter_check evict_now new_now now ip rl =
     (let rl' = count_check evict_now rl;
          b = (case rl_buckets rl' ip of
                 Some b \<Rightarrow> b | None \<Rightarrow> bucket_new (rl_rate_rps rl') new_now);
          (b', allowed) = try_consume now b in
      (rl'\<lparr>rl_buckets := (rl_buckets rl')(ip \<mapsto> b')\<rparr>, allowed))"

datatype 'ip limiter_event =
  Check instant instant instant 'ip
| Sweep instant

fun limiter_step :: "'ip rate_limiter \<Rightarrow> 'ip limiter_event \<Rightarrow> 'ip rate_limiter \<times> bool option" where
  "limiter_step rl (Check e n t ip) =
     (let (rl', allowed) = limiter_check e n t ip rl in (rl', Some allowed))"
| "limiter_step rl (Sweep t) = (evict_stale t rl, None)"

fun limiter_run :: "'ip rate_limiter \<Rightarrow> 'ip limiter_event list \<Rightarrow> bool option list" where
  "limiter_run rl [] = []"
| "limiter_run rl (e # es) = (let (rl', d) = limiter_step rl e in d # limiter_run rl' es)"

definition too_many_requests :: "'h http_lib \<Rightarrow> 'h http_response" where
  "too_many_requests L =
     rb_text L (''429 Too Many Requests'' @ newline) (rb_header ''retry-after'' ''1'' (rb_new 429))"

definition rate_limiter_call ::
    "'h http_lib \<Rightarrow> instant \<Rightarrow> instant \<Rightarrow> instant \<Rightarrow> 'ip \<Rightarrow> ('s \<Rightarrow> 's \<times> 'h http_response) \<Rightarrow>
     'ip rate_limiter \<Rightarrow> 's \<Rightarrow> 'ip rate_limiter \<times> 's \<times> 'h http_response" where
  "rate_limiter_call L e n t ip inner rl s =
     (let (rl', allowed) = limiter_check e n t ip rl in
      if \<not> allowed then (rl', s, too_many_requests L) else (rl', inner s))"

subsection \<open>Specification: a limiter that never evicts\<close>

text \<open>
  The contract of the limiter is a bucket per address that is created full on the first
  request and kept for ever.  \<open>spec_run\<close> is that limiter.
\<close>

definition spec_check ::
    "32 word \<Rightarrow> instant \<Rightarrow> instant \<Rightarrow> 'ip \<Rightarrow> ('ip \<rightharpoonup> token_bucket) \<Rightarrow> ('ip \<rightharpoonup> token_bucket) \<times> bool" where
  "spec_check r new_now now ip m =
     (let (b', allowed) =
        try_consume now (case m ip of Some b \<Rightarrow> b | None \<Rightarrow> bucket_new r new_now)
      in (m(ip \<mapsto> b'), allowed))"

fun spec_run :: "32 word \<Rightarrow> ('ip \<rightharpoonup> token_bucket) \<Rightarrow> 'ip limiter_event list \<Rightarrow> bool option list" where
  "spec_run r m [] = []"
| "spec_run r m (Check e n t ip # es) =
     (let (m', allowed) = spec_check r n t ip m in Some allowed # spec_run r m' es)"
| "spec_run r m (Sweep t # es) = None # spec_run r m es"

text \<open>
  Seen from one client, the limiter is a private bucket: \<open>bucket_run\<close> replays the clock readings
  of that client's checks (\<open>checks_of\<close>) against it, and \<open>decisions_of\<close> picks the client's answers
  out of a run.
\<close>

fun bucket_run :: "32 word \<Rightarrow> token_bucket option \<Rightarrow> (instant \<times> instant) list \<Rightarrow> bool list" where
  "bucket_run r ob [] = []"
| "bucket_run r ob ((n, t) # ts) =
     (let (b', allowed) = try_consume t (case ob of Some b \<Rightarrow> b | None \<Rightarrow> bucket_new r n)
      in allowed # bucket_run r (Some b') ts)"

fun checks_of :: "'ip \<Rightarrow> 'ip limiter_event list \<Rightarrow> (instant \<times> instant) list" where
  "checks_of ip [] = []"
| "checks_of ip (Check e n t ip' # es) = (if ip' = ip then [(n, t)] else []) @ checks_of ip es"
| "checks_of ip (Sweep t # es) = checks_of ip es"

fun decisions_of :: "'ip \<Rightarrow> 'ip limiter_event list \<Rightarrow> bool option list \<Rightarrow> bool list" where
  "decisions_of ip (Check e n t ip' # es) (Some d # ds) =
     (if ip' = ip then [d] else []) @ decisions_of ip es ds"
| "decisions_of ip (Sweep t # es) (None # ds) = decisions_of ip es ds"
| "decisions_of ip _ _ = []"

definition granted :: "bool list \<Rightarrow> nat" where
  "granted ds = length (filter id ds)"

definition limiter_exec :: "'ip rate_limiter \<Rightarrow> 'ip limiter_event list \<Rightarrow> 'ip rate_limiter" where
  "limiter_exec rl es = foldl (\<lambda>s e. fst (limiter_step s e)) rl es"

text \<open>
  The clock is monotonic: the readings of successive checks do not decrease, the readings of
  one check are in the order of the source, and a sweep's reading is not later than that of
  any check after it.
\<close>

fun well_timed :: "instant \<Rightarrow> 'ip limiter_event list \<Rightarrow> bool" where
  "well_timed t0 [] = True"
| "well_timed t0 (Check e n t ip # es) = (e \<le> n \<and> t0 \<le> n \<and> n \<le> t \<and> well_timed t es)"
| "well_timed t0 (Sweep t # es) = well_timed (max t0 t) es"

definition bucket_ok :: "32 word \<Rightarrow> token_bucket \<Rightarrow> bool" where
  "bucket_ok r b \<longleftrightarrow>
     tb_capacity b = real (unat r) \<and> tb_rate b = real (unat r) \<and>
     0 \<le> tb_tokens b \<and> tb_tokens b \<le> tb_capacity b \<and> f64_repr (tb_tokens b)"

definition limiter_ok :: "'ip rate_limiter \<Rightarrow> bool" where
  "limiter_ok rl \<longleftrightarrow> (\<forall>ip b. rl_buckets rl ip = Some b \<longrightarrow> bucket_ok (rl_rate_rps rl) b)"

subsection \<open>The arithmetic of one refill\<close>

declare of_nat_unat [simp del]

lemma u32_le: "unat (r :: 32 word) \<le> 2 ^ 53"
proof -
  have "unat r < 2 ^ 32" using unsigned_less [of r] by simp
  then show ?thesis by simp
qed

lemma u32_less: "real (unat (r :: 32 word)) < 2 ^ 53"
proof -
  have "unat r < 2 ^ 32" using unsigned_less [of r] by simp
  then have "unat r < 2 ^ 53" by simp
  then show ?thesis by (metis of_nat_less_iff of_nat_numeral of_nat_power)
qed

lemmas f64_round_u32 [simp] = f64.rnd_nat [OF u32_le]
lemmas f64_round_ge_u32 = f64.rnd_ge_nat [OF u32_le]

lemma f64_of_u32 [simp]: "f64_of_nat (unat (r :: 32 word)) = real (unat r)"
  by (simp add: f64_of_nat_def)

lemma f64_of_nanos [simp]: "n \<le> nanos_per_sec \<Longrightarrow> f64_of_nat n = real n"
  by (simp add: f64_of_nat_def f64.rnd_nat nanos_per_sec_def)

lemma as_secs_f64_nonneg: "0 \<le> as_secs_f64 d"
  by (simp add: as_secs_f64_def f64_add_def f64_div_def f64_of_nat_def f64.rnd_nonneg)

lemma as_secs_f64_ge:
  assumes "s * nanos_per_sec \<le> d" and "s \<le> 2 ^ 53"
  shows "real s \<le> as_secs_f64 d"
proof -
  have "s \<le> d div nanos_per_sec"
    using assms(1) by (simp add: less_eq_div_iff_mult_less_eq nanos_per_sec_def)
  then have "real s \<le> f64_of_nat (d div nanos_per_sec)"
    unfolding f64_of_nat_def by (intro f64.rnd_ge_nat assms(2)) simp
  moreover have "0 \<le> f64_div (f64_of_nat (d mod nanos_per_sec)) (f64_of_nat nanos_per_sec)"
    by (simp add: f64_div_def f64_of_nat_def f64.rnd_nonneg)
  ultimately show ?thesis
    unfolding as_secs_f64_def f64_add_def by (intro f64.rnd_ge_nat assms(2)) simp
qed

lemma refilled_bounds:
  assumes "bucket_ok r b"
  shows "0 \<le> refilled now b" and "refilled now b \<le> real (unat r)" and "f64_repr (refilled now b)"
proof -
  let ?x = "tb_tokens b + f64_mul (as_secs_f64 (now - tb_last_refill b)) (tb_rate b)"
  have x: "0 \<le> ?x"
    using assms as_secs_f64_nonneg [of "now - tb_last_refill b"]
    by (auto simp: bucket_ok_def f64_mul_def intro!: add_nonneg_nonneg f64.rnd_nonneg)
  then have "f64_repr (f64_round ?x)" and "f64_repr (real (unat r))"
    by (simp_all add: f64_repr_def f64.rnd_idem)
  then show "f64_repr (refilled now b)"
    using assms by (simp add: refilled_def f64_add_def bucket_ok_def min_def)
  show "0 \<le> refilled now b" and "refilled now b \<le> real (unat r)"
    using x assms by (simp_all add: refilled_def f64_add_def bucket_ok_def f64.rnd_nonneg)
qed

lemma try_consume_eq:
  assumes "bucket_ok r b"
  shows "try_consume now b =
    (b\<lparr>tb_last_refill := now, tb_tokens := refilled now b - of_bool (1 \<le> refilled now b)\<rparr>,
     1 \<le> refilled now b)"
proof -
  have "f64_sub (refilled now b) 1 = refilled now b - 1" if "1 \<le> refilled now b"
    using refilled_bounds [OF assms, of now] that u32_less [of r]
    by (simp add: f64_sub_def f64_repr_def f64.rnd_pred)
  then show ?thesis by (simp add: try_consume_def Let_def)
qed

lemma try_consume_ok:
  assumes "bucket_ok r b"
  shows "bucket_ok r (fst (try_consume now b))"
proof -
  let ?x = "refilled now b"
  have "f64_repr (?x - 1)" if "1 \<le> ?x"
    using refilled_bounds [OF assms, of now] that u32_less [of r]
    by (simp add: f64_repr_def f64.rnd_pred)
  then show ?thesis
    using refilled_bounds [OF assms, of now] assms by (simp add: try_consume_eq [OF assms] bucket_ok_def)
qed

lemma bucket_new_ok [simp]: "bucket_ok r (bucket_new r now)"
  by (simp add: bucket_ok_def bucket_new_def Let_def f64_repr_def)

lemma refilled_fullI:
  assumes "bucket_ok r b" and "real (unat r) \<le> tb_tokens b + f64_mul (as_secs_f64 (now - tb_last_refill b)) (tb_rate b)"
  shows "refilled now b = real (unat r)"
proof -
  have "real (unat r) \<le> f64_add (tb_tokens b) (f64_mul (as_secs_f64 (now - tb_last_refill b)) (tb_rate b))"
    using assms(2) by (simp add: f64_add_def f64_round_ge_u32)
  then show ?thesis using assms(1) by (simp add: refilled_def bucket_ok_def)
qed

lemma refilled_second:
  assumes "bucket_ok r b" and "tb_last_refill b + nanos_per_sec \<le> now"
  shows "refilled now b = real (unat r)"
proof (rule refilled_fullI [OF assms(1)])
  have "1 \<le> as_secs_f64 (now - tb_last_refill b)"
    using as_secs_f64_ge [of 1 "now - tb_last_refill b"] assms(2) by simp
  then have "real (unat r) \<le> f64_mul (as_secs_f64 (now - tb_last_refill b)) (real (unat r))"
    unfolding f64_mul_def by (intro f64_round_ge_u32) (simp add: mult_le_cancel_right1)
  then show "real (unat r) \<le> tb_tokens b + f64_mul (as_secs_f64 (now - tb_last_refill b)) (tb_rate b)"
    using assms(1) by (simp add: bucket_ok_def)
qed

lemma refilled_same_instant:
  assumes "bucket_ok r b"
  shows "refilled (tb_last_refill b) b = tb_tokens b"
  using assms
  by (simp add: refilled_def as_secs_f64_def f64_mul_def f64_add_def f64_of_nat_def f64_div_def
      f64.rnd_zero bucket_ok_def f64_repr_def)

lemma refilled_new [simp]: "refilled now (bucket_new r n) = real (unat r)"
  by (rule refilled_fullI [OF bucket_new_ok])
    (simp add: bucket_new_def Let_def f64_mul_def f64.rnd_nonneg as_secs_f64_nonneg)

lemma try_consume_stale:
  assumes "bucket_ok r b" and "tb_last_refill b + nanos_per_sec \<le> now"
  shows "try_consume now b = try_consume now (bucket_new r n)"
proof -
  have "b\<lparr>tb_last_refill := now, tb_tokens := x\<rparr> =
      (bucket_new r n)\<lparr>tb_last_refill := now, tb_tokens := x\<rparr>" for x
    using assms(1) by (cases b) (simp add: bucket_new_def Let_def bucket_ok_def)
  then show ?thesis
    using assms by (simp add: try_consume_eq [OF assms(1)] try_consume_eq [OF bucket_new_ok] refilled_second)
qed

subsection \<open>Eviction cannot be observed\<close>

definition evict_rel :: "32 word \<Rightarrow> instant \<Rightarrow> ('ip \<rightharpoonup> token_bucket) \<Rightarrow> ('ip \<rightharpoonup> token_bucket) \<Rightarrow> bool" where
  "evict_rel r t0 bs m \<longleftrightarrow>
     (\<forall>ip b. m ip = Some b \<longrightarrow> bucket_ok r b) \<and>
     (\<forall>ip. bs ip = m ip \<or>
        bs ip = None \<and> (\<exists>b. m ip = Some b \<and> tb_last_refill b + STALE_BUCKET_TTL \<le> t0))"

lemma evict_rel_later: "evict_rel r t bs m \<Longrightarrow> t \<le> t' \<Longrightarrow> evict_rel r t' bs m"
  unfolding evict_rel_def by (meson order_trans)

lemma evict_stale_simps [simp]:
  "rl_rate_rps (evict_stale t rl) = rl_rate_rps rl"
  "rl_check_count (evict_stale t rl) = rl_check_count rl"
  by (simp_all add: evict_stale_def split: option.split)

lemma evict_stale_buckets:
  "rl_buckets (evict_stale t rl) ip =
     (case rl_buckets rl ip of
        None \<Rightarrow> None
      | Some b \<Rightarrow> if tb_last_refill b + STALE_BUCKET_TTL < t then None else Some b)"
  by (auto simp: evict_stale_def retain_def checked_sub_def split: option.split)

lemma evict_rel_sweep:
  assumes "evict_rel r t0 (rl_buckets rl) m"
  shows "evict_rel r (max t0 t) (rl_buckets (evict_stale t rl)) m"
  unfolding evict_rel_def
proof (intro conjI allI impI)
  fix ip
  have "rl_buckets rl ip = m ip \<or>
      rl_buckets rl ip = None \<and> (\<exists>b. m ip = Some b \<and> tb_last_refill b + STALE_BUCKET_TTL \<le> t0)"
    using assms by (simp add: evict_rel_def)
  then show "rl_buckets (evict_stale t rl) ip = m ip \<or>
      rl_buckets (evict_stale t rl) ip = None \<and>
      (\<exists>b. m ip = Some b \<and> tb_last_refill b + STALE_BUCKET_TTL \<le> max t0 t)"
    by (cases "m ip") (auto simp: evict_stale_buckets le_max_iff_disj split: if_splits)
qed (use assms in \<open>auto simp: evict_rel_def\<close>)

lemma count_check_rate [simp]: "rl_rate_rps (count_check t rl) = rl_rate_rps rl"
  by (simp add: count_check_def Let_def)

lemma evict_rel_check:
  assumes rel: "evict_rel (rl_rate_rps rl) t0 (rl_buckets rl) m"
    and time: "e \<le> n" "t0 \<le> n" "n \<le> t"
    and check: "limiter_check e n t ip rl = (rl', d)"
    and spec: "spec_check (rl_rate_rps rl) n t ip m = (m', d')"
  shows "d = d'" and "rl_rate_rps rl' = rl_rate_rps rl"
    and "evict_rel (rl_rate_rps rl) t (rl_buckets rl') m'"
proof -
  define r where "r = rl_rate_rps rl"
  define rl2 where "rl2 = count_check e rl"
  have r2: "rl_rate_rps rl2 = r" by (simp add: rl2_def r_def)
  have "evict_rel r (max t0 e) (rl_buckets rl2) m"
    using rel evict_rel_sweep [of r t0 "rl\<lparr>rl_check_count := rl_check_count rl + 1\<rparr>" m e]
    by (auto simp: rl2_def count_check_def r_def Let_def intro: evict_rel_later)
  then have rel2: "evict_rel r t (rl_buckets rl2) m"
    using time by (auto intro: evict_rel_later)
  define b where "b = (case rl_buckets rl2 ip of Some b \<Rightarrow> b | None \<Rightarrow> bucket_new r n)"
  define c where "c = (case m ip of Some b \<Rightarrow> b | None \<Rightarrow> bucket_new r n)"
  have c_ok: "bucket_ok r c"
    using rel2 by (auto simp: c_def evict_rel_def split: option.split)
  have same: "try_consume t b = try_consume t c"
  proof (cases "rl_buckets rl2 ip = m ip")
    case False
    then obtain b' where "rl_buckets rl2 ip = None" and m: "m ip = Some b'"
      and "tb_last_refill b' + STALE_BUCKET_TTL \<le> t"
      using rel2 unfolding evict_rel_def by blast
    then show ?thesis
      using try_consume_stale [of r c t n] c_ok by (simp add: b_def c_def STALE_BUCKET_TTL_def)
  qed (simp add: b_def c_def)
  have chk: "rl' = rl2\<lparr>rl_buckets := (rl_buckets rl2)(ip \<mapsto> fst (try_consume t b))\<rparr>"
      "d = snd (try_consume t b)"
    using check r2 by (auto simp: limiter_check_def Let_def rl2_def [symmetric] b_def split_beta)
  have sp: "m' = m(ip \<mapsto> fst (try_consume t c))" "d' = snd (try_consume t c)"
    using spec by (auto simp: spec_check_def r_def [symmetric] c_def split_beta)
  show "d = d'" and "rl_rate_rps rl' = rl_rate_rps rl"
    using chk sp same r2 by (simp_all add: r_def)
  show "evict_rel (rl_rate_rps rl) t (rl_buckets rl') m'"
    using rel2 try_consume_ok [OF c_ok, of t] unfolding chk sp same
    by (auto simp: evict_rel_def r_def)
qed

lemma limiter_run_refines_gen:
  "evict_rel (rl_rate_rps rl) t0 (rl_buckets rl) m \<Longrightarrow> well_timed t0 es \<Longrightarrow>
   limiter_run rl es = spec_run (rl_rate_rps rl) m es"
proof (induction es arbitrary: rl t0 m)
  case (Cons ev es)
  show ?case
  proof (cases ev)
    case (Check e n t ip)
    obtain rl' d m' d' where *: "limiter_check e n t ip rl = (rl', d)"
        "spec_check (rl_rate_rps rl) n t ip m = (m', d')"
      by (metis surj_pair)
    have "e \<le> n" "t0 \<le> n" "n \<le> t" "well_timed t es" using Cons.prems(2) Check by simp_all
    then show ?thesis
      using evict_rel_check [OF Cons.prems(1) _ _ _ *] Cons.IH [of rl' t m'] Check * by simp
  next
    case (Sweep t)
    then show ?thesis
      using Cons.prems Cons.IH [of "evict_stale t rl" "max t0 t" m] evict_rel_sweep [of _ t0 rl m t]
      by simp
  qed
qed simp

lemma limiter_ok_rel:
  "limiter_ok rl \<Longrightarrow> evict_rel (rl_rate_rps rl) t0 (rl_buckets rl) (rl_buckets rl)"
  by (auto simp: limiter_ok_def evict_rel_def)

lemma limiter_ok_evict: "limiter_ok rl \<Longrightarrow> limiter_ok (evict_stale t rl)"
  by (auto simp: limiter_ok_def evict_stale_buckets split: option.splits if_splits)

lemma limiter_ok_check:
  assumes "limiter_ok rl"
  shows "limiter_ok (fst (limiter_check e n t ip rl))"
proof -
  let ?rl = "count_check e rl"
  have "limiter_ok (rl\<lparr>rl_check_count := rl_check_count rl + 1\<rparr>)"
    using assms by (simp add: limiter_ok_def)
  then have ok: "limiter_ok ?rl" by (simp add: count_check_def Let_def limiter_ok_evict)
  then have "bucket_ok (rl_rate_rps rl)
      (case rl_buckets ?rl ip of Some b \<Rightarrow> b | None \<Rightarrow> bucket_new (rl_rate_rps ?rl) n)"
    by (auto simp: limiter_ok_def split: option.split)
  from try_consume_ok [OF this, of t] ok show ?thesis
    by (auto simp: limiter_check_def limiter_ok_def split_beta Let_def split: if_splits)
qed

subsection \<open>How much a window can admit\<close>

definition slack :: real where
  "slack = 1 + 1 / 2 ^ 50"

lemma as_secs_f64_upper:
  shows "as_secs_f64 d = 0 \<or> 1 / 2 ^ 32 \<le> as_secs_f64 d"
    and "as_secs_f64 d \<le> real d / 10 ^ 9 * (1 + 1 / 2 ^ 53) ^ 2"
proof -
  let ?u = "1 + 1 / 2 ^ 53 :: real"
  define s k where "s = d div nanos_per_sec" and "k = d mod nanos_per_sec"
  define x y where "x = f64_round (real s)" and "y = f64_round (real k / 10 ^ 9)"
  have "real s = 0 \<or> 1 / 2 ^ 0 \<le> real s" by auto
  from f64.rnd_relative [OF this] have x: "x = 0 \<or> 1 / 2 ^ 1 \<le> x" "x \<le> real s * ?u"
    by (simp_all only: x_def One_nat_def le0)
  have "real k / 10 ^ 9 = 0 \<or> 1 / 2 ^ 30 \<le> real k / 10 ^ 9" by (cases "k = 0") simp_all
  from f64.rnd_relative [OF this] have y: "y = 0 \<or> 1 / 2 ^ 31 \<le> y" "y \<le> real k / 10 ^ 9 * ?u"
    by (simp_all add: y_def)
  have nn: "0 \<le> x" "0 \<le> y" by (simp_all add: x_def y_def f64.rnd_nonneg)
  then have sum: "x + y = 0 \<or> 1 / 2 ^ 31 \<le> x + y" using x(1) y(1) by auto
  have "f64_round 1000000000 = 1000000000" using f64.rnd_nat [of 1000000000] by simp
  then have E: "as_secs_f64 d = f64_round (x + y)"
    by (simp add: as_secs_f64_def f64_add_def f64_div_def x_def y_def s_def k_def f64_of_nat_def
        nanos_per_sec_def f64.rnd_nat)
  show "as_secs_f64 d = 0 \<or> 1 / 2 ^ 32 \<le> as_secs_f64 d"
    using f64.rnd_relative(1) [OF sum] by (simp add: E)
  have "d = s * nanos_per_sec + k" by (simp add: s_def k_def)
  then have "real s * ?u + real k / 10 ^ 9 * ?u = real d / 10 ^ 9 * ?u"
    by (simp add: nanos_per_sec_def field_simps)
  then have "x + y \<le> real d / 10 ^ 9 * ?u" using x(2) y(2) by linarith
  then have "(x + y) * ?u \<le> real d / 10 ^ 9 * ?u * ?u" by (rule mult_right_mono) simp
  then show "as_secs_f64 d \<le> real d / 10 ^ 9 * ?u ^ 2"
    using f64.rnd_relative(2) [OF sum] by (simp add: E power2_eq_square mult.assoc)
qed

lemma refilled_upper:
  assumes ok: "bucket_ok r b" and "tb_last_refill b \<le> now"
  shows "refilled now b \<le>
    tb_tokens b + real (unat r) * real (now - tb_last_refill b) / 10 ^ 9 * slack + real (unat r) / 2 ^ 53"
proof -
  let ?u = "1 + 1 / 2 ^ 53 :: real" and ?R = "real (unat r)" and ?d = "now - tb_last_refill b"
  define E x where "E = as_secs_f64 ?d" and "x = f64_round (E * ?R)"
  have E: "E = 0 \<or> 1 / 2 ^ 32 \<le> E" "E \<le> real ?d / 10 ^ 9 * ?u ^ 2" "0 \<le> E"
    using as_secs_f64_upper [of ?d] as_secs_f64_nonneg [of ?d] by (simp_all add: E_def)
  have "E * ?R = 0 \<or> 1 / 2 ^ 32 \<le> E * ?R"
    using E(1) mult_mono [of "1 / 2 ^ 32" E 1 ?R] E(3) by (cases "unat r = 0") auto
  from f64.rnd_relative [OF this] have x: "x = 0 \<or> 1 / 2 ^ 33 \<le> x" "x \<le> E * ?R * ?u"
    by (simp_all add: x_def)
  have "E * ?R * ?u \<le> (real ?d / 10 ^ 9 * ?u ^ 2) * ?R * ?u"
    using E(2) by (intro mult_right_mono) simp_all
  also have "\<dots> = ?R * real ?d / 10 ^ 9 * ?u ^ 3" by (simp add: power2_eq_square power3_eq_cube)
  also have "\<dots> \<le> ?R * real ?d / 10 ^ 9 * slack"
    by (intro mult_left_mono) (simp_all add: slack_def power3_eq_cube)
  finally have x_le: "x \<le> ?R * real ?d / 10 ^ 9 * slack" using x(2) by linarith
  define y where "y = tb_tokens b + x"
  have "min (f64_round y) ?R \<le> y + ?R / 2 ^ 53"
  proof (cases "x = 0 \<or> ?R \<le> y")
    case True
    then show ?thesis using ok by (auto simp: y_def bucket_ok_def f64_repr_def min_def)
  next
    case False
    then have "1 / 2 ^ 33 \<le> y" using x(1) ok by (simp add: y_def bucket_ok_def)
    then have "f64_round y \<le> y * ?u" by (intro f64.rnd_relative(2) [of y 33]) simp_all
    then show ?thesis using False by (simp add: algebra_simps)
  qed
  moreover have "refilled now b = min (f64_round y) ?R"
    using ok by (simp add: refilled_def y_def x_def E_def f64_add_def f64_mul_def bucket_ok_def)
  ultimately show ?thesis using x_le by (simp add: y_def)
qed

lemma bucket_run_bound_from:
  assumes "bucket_ok r b" and "sorted (tb_last_refill b # map snd ts)"
    and "\<forall>x \<in> set ts. snd x \<le> B" and "tb_last_refill b \<le> B"
  shows "real (granted (bucket_run r (Some b) ts)) \<le>
    tb_tokens b + real (unat r) * real (B - tb_last_refill b) / 10 ^ 9 * slack
    + real (length ts) * real (unat r) / 2 ^ 53"
  using assms
proof (induction ts arbitrary: b)
  case Nil
  then show ?case by (simp add: granted_def bucket_ok_def slack_def)
next
  case (Cons x ts)
  obtain n t where x: "x = (n, t)" by (cases x)
  define b' d where "b' = fst (try_consume t b)" and "d = snd (try_consume t b)"
  let ?R = "real (unat r)" and ?l = "tb_last_refill b"
  have eq: "try_consume t b = (b', d)" by (simp add: b'_def d_def)
  have b': "tb_last_refill b' = t" "tb_tokens b' + of_bool d = refilled t b"
    by (simp_all add: b'_def d_def try_consume_eq [OF Cons.prems(1)])
  have "bucket_ok r b'" using try_consume_ok [OF Cons.prems(1), of t] by (simp add: b'_def)
  then have "real (granted (bucket_run r (Some b') ts)) \<le>
      tb_tokens b' + ?R * real (B - t) / 10 ^ 9 * slack + real (length ts) * ?R / 2 ^ 53"
    using Cons.IH [of b'] Cons.prems b' x by simp
  moreover have "refilled t b \<le> tb_tokens b + ?R * real (t - ?l) / 10 ^ 9 * slack + ?R / 2 ^ 53"
    using Cons.prems x by (intro refilled_upper) simp_all
  moreover have "real (B - ?l) = real (B - t) + real (t - ?l)"
    using Cons.prems x by simp
  moreover have "granted (bucket_run r (Some b) (x # ts)) = of_bool d + granted (bucket_run r (Some b') ts)"
    by (simp add: x eq granted_def)
  ultimately show ?case using b'(2) by (simp add: field_simps)
qed

lemma bucket_run_bound:
  assumes ok: "\<forall>b. ob = Some b \<longrightarrow> bucket_ok r b" and "sorted (map snd ts)"
    and "\<forall>x \<in> set ts. A \<le> snd x \<and> snd x \<le> B"
  shows "real (granted (bucket_run r ob ts)) \<le>
    real (unat r) + real (unat r) * real (B - A) / 10 ^ 9 * slack
    + real (length ts) * real (unat r) / 2 ^ 53"
proof (cases ts)
  case Nil
  then show ?thesis by (simp add: granted_def slack_def)
next
  case (Cons x ts')
  obtain n t where x: "x = (n, t)" by (cases x)
  define b where "b = (case ob of Some b \<Rightarrow> b | None \<Rightarrow> bucket_new r n)"
  have b_ok: "bucket_ok r b" using ok by (auto simp: b_def split: option.split)
  define b' d where "b' = fst (try_consume t b)" and "d = snd (try_consume t b)"
  let ?R = "real (unat r)"
  have eq: "try_consume t b = (b', d)" by (simp add: b'_def d_def)
  have b': "tb_last_refill b' = t" "tb_tokens b' + of_bool d = refilled t b"
    by (simp_all add: b'_def d_def try_consume_eq [OF b_ok])
  have "bucket_ok r b'" using try_consume_ok [OF b_ok, of t] by (simp add: b'_def)
  then have "real (granted (bucket_run r (Some b') ts')) \<le>
      tb_tokens b' + ?R * real (B - t) / 10 ^ 9 * slack + real (length ts') * ?R / 2 ^ 53"
    using bucket_run_bound_from [of r b' ts' B] assms b' x Cons by simp
  moreover have "?R * real (B - t) / 10 ^ 9 * slack \<le> ?R * real (B - A) / 10 ^ 9 * slack"
    using assms(3) x Cons by (intro mult_right_mono divide_right_mono mult_left_mono) (auto simp: slack_def)
  moreover have "granted (bucket_run r ob ts) = of_bool d + granted (bucket_run r (Some b') ts')"
    using eq by (simp add: x Cons granted_def b_def)
  moreover have "real (length ts') * ?R / 2 ^ 53 \<le> real (length ts) * ?R / 2 ^ 53"
    by (intro divide_right_mono mult_right_mono) (simp_all add: Cons)
  ultimately show ?thesis using b'(2) refilled_bounds(2) [OF b_ok, of t] by simp
qed

lemma spec_run_private:
  "decisions_of ip es (spec_run r m es) = bucket_run r (m ip) (checks_of ip es)"
proof (induction es arbitrary: m)
  case (Cons ev es)
  then show ?case by (cases ev) (auto simp: spec_check_def split_beta Let_def)
qed simp

lemma limiter_run_private_gen:
  assumes "limiter_ok rl" and "well_timed t0 es"
  shows "decisions_of ip es (limiter_run rl es) =
    bucket_run (rl_rate_rps rl) (rl_buckets rl ip) (checks_of ip es)"
  using limiter_run_refines_gen [OF limiter_ok_rel [OF assms(1)] assms(2)] spec_run_private by simp

lemma well_timed_sorted: "well_timed t0 es \<Longrightarrow> sorted (t0 # map snd (checks_of ip es))"
proof (induction t0 es rule: well_timed.induct)
  case (2 t0 e n t ip' es)
  then show ?case by (auto intro: order_trans)
qed (auto simp del: sorted_wrt.simps simp: sorted_simps)

lemma limiter_new_ok [simp]: "limiter_ok (limiter_new r)"
  by (simp add: limiter_ok_def limiter_new_def)

lemma replicate_numeral: "replicate (numeral k) x = x # replicate (pred_numeral k) x"
  by (simp add: numeral_eq_Suc)

lemma bucket_run_instant:
  assumes "bucket_ok r (case ob of Some b \<Rightarrow> b | None \<Rightarrow> bucket_new r n)"
    and "refilled t (case ob of Some b \<Rightarrow> b | None \<Rightarrow> bucket_new r n) = real j"
  shows "bucket_run r ob (replicate k (n, t)) = replicate (min k j) True @ replicate (k - j) False"
  using assms
proof (induction k arbitrary: ob j)
  case (Suc k)
  let ?b = "case ob of Some b \<Rightarrow> b | None \<Rightarrow> bucket_new r n"
  let ?b' = "?b\<lparr>tb_last_refill := t, tb_tokens := real j - of_bool (1 \<le> real j)\<rparr>"
  have eq: "try_consume t ?b = (?b', 1 \<le> real j)"
    using Suc.prems try_consume_eq [of r ?b t] by simp
  then have ok: "bucket_ok r ?b'"
    using try_consume_ok [of r ?b t] Suc.prems by simp
  have "refilled t ?b' = real (j - 1)"
    using refilled_same_instant [OF ok] by (cases j) simp_all
  then have "bucket_run r (Some ?b') (replicate k (n, t)) =
      replicate (min k (j - 1)) True @ replicate (k - (j - 1)) False"
    using Suc.IH [of "Some ?b'" "j - 1"] ok by simp
  then show ?case by (cases j) (simp_all add: eq replicate_append_same)
qed simp

lemma limiter_exec_ok:
  "limiter_ok rl \<Longrightarrow> limiter_ok (limiter_exec rl es) \<and> rl_rate_rps (limiter_exec rl es) = rl_rate_rps rl"
proof (induction es arbitrary: rl)
  case (Cons ev es)
  have "limiter_ok (fst (limiter_step rl ev)) \<and> rl_rate_rps (fst (limiter_step rl ev)) = rl_rate_rps rl"
    using Cons.prems limiter_ok_check limiter_ok_evict
    by (cases ev) (force simp: split_beta limiter_check_def Let_def)+
  then show ?case using Cons.IH by (simp add: limiter_exec_def)
qed (simp add: limiter_exec_def)

lemma limiter_exec_last_refill:
  assumes "rl_buckets (limiter_exec (limiter_new r) es) ip = Some b"
  shows "\<exists>e n. Check e n (tb_last_refill b) ip \<in> set es"
  using assms
proof (induction es arbitrary: b rule: rev_induct)
  case Nil
  then show ?case by (simp add: limiter_exec_def limiter_new_def)
next
  case (snoc ev es)
  let ?rl = "limiter_exec (limiter_new r) es"
  have cc: "rl_buckets (count_check e ?rl) ip' = Some b' \<Longrightarrow> rl_buckets ?rl ip' = Some b'" for e ip' b'
    by (auto simp: count_check_def Let_def evict_stale_buckets split: option.splits if_splits)
  have last: "tb_last_refill (fst (try_consume t c)) = t" for t c
    by (simp add: try_consume_def Let_def)
  show ?case
    using snoc cc
    by (cases ev)
      (fastforce simp: limiter_exec_def limiter_check_def Let_def split_beta last evict_stale_buckets
        split: if_splits option.splits)+
qed

subsection \<open>Properties\<close>

text \<open>
  C10: Sharing and eviction are unobservable.  Whatever other clients do, and whenever the
  counter-driven or the background sweep runs, the answers a client gets from the shared
  limiter are those of a private token bucket that is created full on its first request and
  never evicted.
\<close>

theorem limiter_run_private:
  assumes "limiter_ok rl" and "well_timed t0 es"
  shows "decisions_of ip es (limiter_run rl es) =
    bucket_run (rl_rate_rps rl) (rl_buckets rl ip) (checks_of ip es)"
  using assms by (rule limiter_run_private_gen)

theorem limiter_run_private_witness:
  "well_timed 7 [Check 7 8 9 (4 :: nat), Sweep 400000000000, Check 400000000000 400000000000 400000000001 4] \<and>
   decisions_of 4 [Check 7 8 9 (4 :: nat), Sweep 400000000000, Check 400000000000 400000000000 400000000001 4]
     (limiter_run (limiter_new 5)
       [Check 7 8 9 (4 :: nat), Sweep 400000000000, Check 400000000000 400000000000 400000000001 4]) =
   bucket_run 5 None [(8, 9), (400000000000, 400000000001)]"
  using limiter_run_private [of "limiter_new 5 :: nat rate_limiter" 7
      "[Check 7 8 9 4, Sweep 400000000000, Check 400000000000 400000000000 400000000001 4]" 4]
  by (simp add: limiter_new_def limiter_ok_def
      del: limiter_run.simps decisions_of.simps bucket_run.simps)

text \<open>
  C17: The rate limit.  In any window of the run whose checks of a client happen between the
  instants \<open>A\<close> and \<open>B\<close>, the client is granted at most its capacity plus the rate times the
  length of the window.  The two error terms are the exact price of computing in binary64:
  a factor \<open>1 + 2\<^sup>-\<^sup>5\<^sup>0\<close> on the refill and \<open>2\<^sup>-\<^sup>5\<^sup>3\<close> of the capacity per check.
\<close>

theorem limiter_window_bound:
  assumes "limiter_ok rl" and "well_timed t0 es"
    and "\<forall>x \<in> set (checks_of ip es). A \<le> snd x \<and> snd x \<le> B"
  shows "real (granted (decisions_of ip es (limiter_run rl es))) \<le>
    real (unat (rl_rate_rps rl)) + real (unat (rl_rate_rps rl)) * real (B - A) / 10 ^ 9 * slack
    + real (length (checks_of ip es)) * real (unat (rl_rate_rps rl)) / 2 ^ 53"
  using bucket_run_bound [of "rl_buckets rl ip" "rl_rate_rps rl" "checks_of ip es" A B]
    well_timed_sorted [OF assms(2), of ip] assms(1,3)
  by (simp only: limiter_run_private_gen [OF assms(1,2)]) (simp add: limiter_ok_def)

theorem limiter_window_bound_witness:
  "real (granted (decisions_of 4 [Check 0 0 10 4, Check 5 10 20 (4 :: nat)]
     (limiter_run (limiter_new 2) [Check 0 0 10 (4 :: nat), Check 5 10 20 4])))
   \<le> 2 + 2 * 10 / 10 ^ 9 * slack + 2 * 2 / 2 ^ 53"
  using limiter_window_bound [of "limiter_new 2 :: nat rate_limiter" 0
      "[Check 0 0 10 4, Check 5 10 20 4]" 4 10 20]
  by (simp add: limiter_new_def limiter_ok_def del: limiter_run.simps decisions_of.simps)

text \<open>
  The burst.  A client the limiter does not know yet that sends \<open>k\<close> requests at one instant
  gets exactly the first \<open>rate_rps\<close> of them through and is refused the rest, whatever other
  clients do in between.
\<close>

lemma limiter_burst_exact:
  assumes "limiter_ok rl" and "well_timed t0 es" and "rl_buckets rl ip = None"
    and "checks_of ip es = replicate k (n, t)"
  shows "decisions_of ip es (limiter_run rl es) =
    replicate (min k (unat (rl_rate_rps rl))) True @ replicate (k - unat (rl_rate_rps rl)) False"
  using limiter_run_private_gen [OF assms(1,2), of ip]
    bucket_run_instant [of "rl_rate_rps rl" n None t "unat (rl_rate_rps rl)" k] assms(3,4)
  by simp

text \<open>
  The advice of the \<open>retry-after: 1\<close> header is sound.  When at least one second has passed
  since the limiter last touched the client's bucket, the next request is forwarded to the
  inner service; the limiter never answers it.
\<close>

lemma retry_after_sound:
  assumes "limiter_ok rl" and "0 < rl_rate_rps rl"
    and "\<forall>b. rl_buckets rl ip = Some b \<longrightarrow> tb_last_refill b + nanos_per_sec \<le> t"
  shows "snd (rate_limiter_call L e n t ip inner rl s) = inner s"
proof -
  let ?rl = "count_check e rl"
  let ?b = "case rl_buckets ?rl ip of Some b \<Rightarrow> b | None \<Rightarrow> bucket_new (rl_rate_rps ?rl) n"
  have "?b = bucket_new (rl_rate_rps rl) n \<or> rl_buckets rl ip = Some ?b"
    by (auto simp: count_check_def Let_def evict_stale_buckets split: option.splits if_splits)
  then have b: "bucket_ok (rl_rate_rps rl) ?b" "refilled t ?b = real (unat (rl_rate_rps rl))"
    using assms refilled_second [of "rl_rate_rps rl" ?b t] by (auto simp: limiter_ok_def)
  moreover have "1 \<le> unat (rl_rate_rps rl)"
    using assms(2) by (simp add: Suc_le_eq unat_gt_0 word_neq_0_conv)
  ultimately have "snd (try_consume t ?b)" by (simp add: try_consume_eq)
  then show ?thesis
    by (simp add: rate_limiter_call_def limiter_check_def Let_def split_beta)
qed

text \<open>
  Memory is bounded by recent clients.  After a sweep at \<open>now\<close>, in a process up for at least
  the TTL of five minutes, the limiter tracks at most as many addresses as sent a request
  within the last five minutes.
\<close>

lemma limiter_memory_bound:
  assumes "STALE_BUCKET_TTL \<le> now"
  shows "bucket_count (evict_stale now (limiter_exec (limiter_new r) es)) \<le>
    card {ip. \<exists>e n t. Check e n t ip \<in> set es \<and> now \<le> t + STALE_BUCKET_TTL}"
  (is "_ \<le> card ?S")
proof -
  have "{ip. \<exists>e n t. Check e n t ip \<in> set es} \<subseteq>
      (\<lambda>ev. case ev of Check e n t ip \<Rightarrow> ip) ` set es" by force
  then have "finite {ip. \<exists>e n t. Check e n t ip \<in> set es}" by (rule finite_subset) simp
  then have "finite ?S" by (rule finite_subset [rotated]) blast
  moreover have "dom (rl_buckets (evict_stale now (limiter_exec (limiter_new r) es))) \<subseteq> ?S"
    using limiter_exec_last_refill [of r es]
    by (fastforce simp: evict_stale_buckets split: option.splits if_splits)
  ultimately show ?thesis unfolding bucket_count_def by (rule card_mono)
qed

text \<open>
  In every state the limiter can reach, each bucket's capacity and rate are the configured
  \<open>rate_rps\<close> and its tokens are a binary64 number between zero and the capacity.
\<close>

lemma limiter_invariant:
  "limiter_ok (limiter_exec (limiter_new r) es) \<and> rl_rate_rps (limiter_exec (limiter_new r) es) = r"
  using limiter_exec_ok [OF limiter_new_ok, of r es] by (simp add: limiter_new_def)

end
