(* ===== verification/Concurrency.thy ===== *)
theory Concurrency
  imports Response
begin

text \<open>
  \<^verbatim>\<open>src/middleware/concurrency.rs\<close>: the server-wide cap on requests in progress.

  The semaphore is \<^verbatim>\<open>tokio::sync::Semaphore\<close>, a parameter of the model (\<open>semaphore_lib\<close>, laws in
  the locale \<open>tokio_semaphore\<close>).  A permit is taken when a request arrives and given back when the
  response future is dropped, which other requests may precede or follow: \<open>conc_step\<close> is the
  transition relation of that interleaving, and \<open>concurrency_call\<close> the service on a request that
  runs alone from start to end.
\<close>

record 'sem semaphore_lib =
  sem_new :: "nat \<Rightarrow> 'sem"
  sem_try_acquire :: "'sem \<Rightarrow> 'sem option"
  sem_release :: "'sem \<Rightarrow> 'sem"
  sem_available :: "'sem \<Rightarrow> nat"

definition MAX_PERMITS :: nat where
  "MAX_PERMITS = 2 ^ 61 - 1"

locale tokio_semaphore =
  fixes S :: "'sem semaphore_lib"
  assumes available_new: "n \<le> MAX_PERMITS \<Longrightarrow> sem_available S (sem_new S n) = n"
    and acquire_None: "sem_try_acquire S p = None \<longleftrightarrow> sem_available S p = 0"
    and acquire_Some: "sem_try_acquire S p = Some q \<Longrightarrow> sem_available S p = Suc (sem_available S q)"
    and available_release: "sem_available S p < MAX_PERMITS \<Longrightarrow>
      sem_available S (sem_release S p) = Suc (sem_available S p)"

definition service_unavailable :: "'h http_lib \<Rightarrow> 'h http_response" where
  "service_unavailable L =
     rb_text L (''503 Service Unavailable'' @ newline) (rb_header ''retry-after'' ''1'' (rb_new 503))"

datatype ('sem, 'h) admission = Admitted 'sem | Rejected "'h http_response"

definition concurrency_admit ::
    "'sem semaphore_lib \<Rightarrow> 'h http_lib \<Rightarrow> 'sem \<Rightarrow> ('sem, 'h) admission" where
  "concurrency_admit S L sem =
     (case sem_try_acquire S sem of
        Some sem' \<Rightarrow> Admitted sem'
      | None \<Rightarrow> Rejected (service_unavailable L))"

definition concurrency_call ::
    "'sem semaphore_lib \<Rightarrow> 'h http_lib \<Rightarrow> ('s \<Rightarrow> 's \<times> 'h http_response) \<Rightarrow> 'sem \<Rightarrow> 's \<Rightarrow>
     'sem \<times> 's \<times> 'h http_response" where
  "concurrency_call S L inner sem s =
     (case concurrency_admit S L sem of
        Admitted sem' \<Rightarrow> let (s', resp) = inner s in (sem_release S sem', s', resp)
      | Rejected resp \<Rightarrow> (sem, s, resp))"

record ('sem, 'r) conc_state =
  cs_sem :: 'sem
  cs_running :: "'r set"

datatype 'r conc_event = Arrive 'r bool | Finish 'r

inductive conc_step ::
    "'sem semaphore_lib \<Rightarrow> 'h http_lib \<Rightarrow> ('sem, 'r) conc_state \<Rightarrow> 'r conc_event \<Rightarrow> ('sem, 'r) conc_state \<Rightarrow> bool"
  for S :: "'sem semaphore_lib" and L :: "'h http_lib" where
  admit: "concurrency_admit S L (cs_sem c) = Admitted sem' \<Longrightarrow> r \<notin> cs_running c \<Longrightarrow>
    conc_step S L c (Arrive r True) (c\<lparr>cs_sem := sem', cs_running := insert r (cs_running c)\<rparr>)"
| reject: "concurrency_admit S L (cs_sem c) = Rejected resp \<Longrightarrow> r \<notin> cs_running c \<Longrightarrow>
    conc_step S L c (Arrive r False) c"
| finish: "r \<in> cs_running c \<Longrightarrow>
    conc_step S L c (Finish r)
      (c\<lparr>cs_sem := sem_release S (cs_sem c), cs_running := cs_running c - {r}\<rparr>)"

inductive_cases conc_step_arriveE: "conc_step S L c (Arrive r b) c'"

inductive conc_reachable ::
    "'sem semaphore_lib \<Rightarrow> 'h http_lib \<Rightarrow> nat \<Rightarrow> ('sem, 'r) conc_state \<Rightarrow> bool"
  for S :: "'sem semaphore_lib" and L :: "'h http_lib" and n :: nat where
  start: "conc_reachable S L n \<lparr>cs_sem = sem_new S n, cs_running = {}\<rparr>"
| step: "conc_reachable S L n c \<Longrightarrow> conc_step S L c e c' \<Longrightarrow> conc_reachable S L n c'"

context tokio_semaphore
begin

lemma admit_iff:
  "concurrency_admit S L p = Rejected r \<longleftrightarrow> sem_available S p = 0 \<and> r = service_unavailable L"
  "concurrency_admit S L p = Admitted q \<Longrightarrow> sem_available S p = Suc (sem_available S q)"
  using acquire_None [of p] acquire_Some [of p]
  by (auto simp: concurrency_admit_def split: option.splits)

lemma reachable_permits:
  assumes "conc_reachable S L n c" and "n \<le> MAX_PERMITS"
  shows "finite (cs_running c) \<and> sem_available S (cs_sem c) + card (cs_running c) = n"
  using assms
proof (induction rule: conc_reachable.induct)
  case (step c e c')
  from step.hyps(2) step.IH [OF step.prems] step.prems show ?case
  proof (cases rule: conc_step.cases)
    case (finish r)
    then have "0 < card (cs_running c)"
      using step.IH [OF step.prems] card_gt_0_iff by blast
    then show ?thesis
      using finish step.IH [OF step.prems] step.prems
      by (simp add: available_release card_Diff_singleton)
  qed (auto dest: admit_iff(2))
qed (simp add: available_new)

end

subsection \<open>A counting semaphore\<close>

text \<open>
  An instance of the interface: the number of permits left, which never exceeds the maximum.
\<close>

definition counting_semaphore :: "nat semaphore_lib" where
  "counting_semaphore =
     \<lparr>sem_new = (\<lambda>n. n),
      sem_try_acquire = (\<lambda>p. case p of 0 \<Rightarrow> None | Suc q \<Rightarrow> Some q),
      sem_release = Suc, sem_available = (\<lambda>p. p)\<rparr>"

interpretation counting: tokio_semaphore counting_semaphore
  by unfold_locales (simp_all add: counting_semaphore_def split: nat.splits)

subsection \<open>Properties\<close>

text \<open>
  C26: The cap is exact.  In every state the interleaved requests can reach from \<open>n\<close> permits, at
  most \<open>n\<close> requests are in progress, the free permits are exactly the rest, and an arriving request is
  refused if and only if \<open>n\<close> requests are in progress.
\<close>

theorem concurrency_cap:
  assumes "tokio_semaphore S" and "n \<le> MAX_PERMITS" and "conc_reachable S L n c"
  shows "card (cs_running c) \<le> n \<and> sem_available S (cs_sem c) = n - card (cs_running c) \<and>
    (\<forall>r b c'. conc_step S L c (Arrive r b) c' \<longrightarrow> b = (card (cs_running c) < n))"
proof -
  have inv: "sem_available S (cs_sem c) + card (cs_running c) = n"
    using tokio_semaphore.reachable_permits [OF assms(1,3,2)] by simp
  have "b = (card (cs_running c) < n)" if "conc_step S L c (Arrive r b) c'" for r b c'
    using that inv
    by (elim conc_step_arriveE)
      (auto simp: tokio_semaphore.admit_iff(1) [OF assms(1)] dest: tokio_semaphore.admit_iff(2) [OF assms(1)])
  then show ?thesis using inv by auto
qed

theorem concurrency_cap_witness:
  "conc_reachable counting_semaphore alist_http 1 \<lparr>cs_sem = 0, cs_running = {7 :: nat}\<rparr> \<and>
   \<not> (\<exists>c'. conc_step counting_semaphore alist_http \<lparr>cs_sem = 0, cs_running = {7}\<rparr> (Arrive (8 :: nat) True) c')"
proof -
  have "conc_step counting_semaphore alist_http \<lparr>cs_sem = 1, cs_running = {}\<rparr> (Arrive (7 :: nat) True)
      \<lparr>cs_sem = 0, cs_running = {7}\<rparr>"
    using conc_step.admit [of counting_semaphore alist_http "\<lparr>cs_sem = 1, cs_running = {}\<rparr>" 0 "7 :: nat"]
    by (simp add: concurrency_admit_def counting_semaphore_def)
  then have reach: "conc_reachable counting_semaphore alist_http 1 \<lparr>cs_sem = 0, cs_running = {7 :: nat}\<rparr>"
    using conc_reachable.step [OF conc_reachable.start [of counting_semaphore alist_http 1]]
    by (simp add: counting_semaphore_def)
  from concurrency_cap [OF counting.tokio_semaphore_axioms _ this] reach
  show ?thesis by (fastforce simp: MAX_PERMITS_def)
qed

end
