(* ===== verification/Logging.thy ===== *)
theory Logging
  imports Request Response
begin

text \<open>
  \<^verbatim>\<open>src/middleware/logging.rs\<close>: the outermost layer, which gives every request an
  \<^verbatim>\<open>x-request-id\<close> and writes one structured log line per request.

  A \<^verbatim>\<open>Request<ReqBody>\<close> is its head and a body of any type.  The fresh UUID and the measured
  latency are arguments.  The log line is part of the result.
\<close>

record 'peer log_line =
  log_peer :: 'peer
  log_method :: string
  log_path :: string
  log_status :: nat
  log_latency_ms :: nat
  log_request_id :: string

definition request_id :: "'h http_lib \<Rightarrow> string \<Rightarrow> 'h request_parts \<Rightarrow> string" where
  "request_id L uuid parts =
     unwrap_or (Option.bind (hm_get L (parts_headers parts) ''x-request-id'') (value_to_str L)) uuid"

definition set_request_id :: "'h http_lib \<Rightarrow> string \<Rightarrow> 'h \<Rightarrow> 'h" where
  "set_request_id L rid h =
     (case value_from_str L rid of
        Some val \<Rightarrow> hm_insert L h ''x-request-id'' val
      | None \<Rightarrow> h)"

definition logging_call ::
    "'h http_lib \<Rightarrow> 'peer \<Rightarrow> string \<Rightarrow> nat \<Rightarrow>
     ('h request_parts \<times> 'b \<Rightarrow> 's \<Rightarrow> 's \<times> 'h http_response) \<Rightarrow>
     'h request_parts \<times> 'b \<Rightarrow> 's \<Rightarrow> 's \<times> 'h http_response \<times> 'peer log_line" where
  "logging_call L peer uuid elapsed_ms inner req s =
     (let (parts, body) = req;
          rid = request_id L uuid parts;
          parts' = parts\<lparr>parts_headers := set_request_id L rid (parts_headers parts)\<rparr>;
          (s', resp) = inner (parts', body) s in
      (s', resp\<lparr>resp_headers := set_request_id L rid (resp_headers resp)\<rparr>,
       \<lparr>log_peer = peer, log_method = parts_method parts, log_path = uri_path (parts_uri parts),
        log_status = resp_status resp, log_latency_ms = elapsed_ms, log_request_id = rid\<rparr>))"

lemma visible_header_ok: "visible_ascii v \<Longrightarrow> header_ok (''x-request-id'', v)"
  by (auto simp: header_ok_def header_name_ok_def token_char_def visible_ascii_def header_value_ok_def
      Let_def list_all_iff)

context http_crate
begin

lemma request_id_visible: "visible_ascii uuid \<Longrightarrow> visible_ascii (request_id L uuid parts)"
  by (auto simp: request_id_def to_str unwrap_or_def split: option.splits bind_splits)

lemma set_request_id_get_all:
  assumes "visible_ascii rid"
  shows "hm_get_all L (set_request_id L rid h) k =
    (if lowercase k = ''x-request-id'' then [rid] else hm_get_all L h k)"
  using assms visible_header_ok [OF assms]
  by (auto simp: set_request_id_def from_str get_all_insert lowercase_def ascii_lower_def)

end

text \<open>
  Request correlation.  With a client id that can be read as text, that id, and otherwise the
  fresh UUID, is the only \<open>x-request-id\<close> the inner service sees, the only one in the response, and
  the one in the log line.  The layer changes nothing else: the inner service gets every other header, the
  method, the URI and the body as they came, and the client gets the status, the body and
  every other header as the inner service made them.
\<close>

lemma logging_correlates:
  assumes "http_crate L" and "visible_ascii uuid"
    and "logging_call L peer uuid ms inner (parts, body) s = (s', resp, line)"
  shows "\<exists>parts' resp0. inner (parts', body) s = (s', resp0) \<and>
    parts_method parts' = parts_method parts \<and> parts_uri parts' = parts_uri parts \<and>
    resp_status resp = resp_status resp0 \<and> resp_body resp = resp_body resp0 \<and>
    log_status line = resp_status resp0 \<and> log_request_id line = request_id L uuid parts \<and>
    (\<forall>k. hm_get_all L (parts_headers parts') k =
       (if lowercase k = ''x-request-id'' then [request_id L uuid parts]
        else hm_get_all L (parts_headers parts) k)) \<and>
    (\<forall>k. hm_get_all L (resp_headers resp) k =
       (if lowercase k = ''x-request-id'' then [request_id L uuid parts]
        else hm_get_all L (resp_headers resp0) k))"
proof -
  let ?rid = "request_id L uuid parts"
  let ?parts = "parts\<lparr>parts_headers := set_request_id L ?rid (parts_headers parts)\<rparr>"
  note set = http_crate.set_request_id_get_all [OF assms(1)
      http_crate.request_id_visible [OF assms(1,2), of parts]]
  obtain resp0 where "inner (?parts, body) s = (s', resp0)"
    using assms(3) by (cases "inner (?parts, body) s") (auto simp: logging_call_def Let_def)
  with assms(3) show ?thesis
    by (intro exI [of _ ?parts] exI [of _ resp0]) (auto simp: logging_call_def Let_def set)
qed

end
