(* ===== verification/Auth.thy ===== *)
theory Auth
  imports Prelude
begin

text \<open>
  \<^verbatim>\<open>src/middleware/auth.rs\<close>: JWT creation and verification, and the Bearer header.

  The \<^verbatim>\<open>jsonwebtoken\<close> crate is a parameter (\<open>jwt_lib\<close>).  Its decoder reads the system clock,
  which is an argument here.  The locale \<open>jwt_crate\<close> states what its documentation promises of
  \<^verbatim>\<open>Validation::new(Algorithm::HS256)\<close>: a token signed with a secret decodes to its claims
  under the same secret, and is rejected once the clock is more than the default leeway of 60 seconds past its
  \<^verbatim>\<open>exp\<close> claim.
\<close>

definition TOKEN_TTL_SECS :: nat where
  "TOKEN_TTL_SECS = 3600"

record claims =
  claim_sub :: string
  claim_exp :: nat

record ('ek, 'dk) jwt_lib =
  encoding_key :: "string \<Rightarrow> 'ek"
  decoding_key :: "string \<Rightarrow> 'dk"
  jwt_encode :: "claims \<Rightarrow> 'ek \<Rightarrow> string + string"
  jwt_decode :: "nat \<Rightarrow> string \<Rightarrow> 'dk \<Rightarrow> string + claims"

record ('ek, 'dk) jwt_secret =
  encoding :: 'ek
  decoding :: 'dk

datatype auth_error = Jwt string

definition jwt_secret_new :: "('ek, 'dk) jwt_lib \<Rightarrow> string \<Rightarrow> ('ek, 'dk) jwt_secret" where
  "jwt_secret_new J secret = \<lparr>encoding = encoding_key J secret, decoding = decoding_key J secret\<rparr>"

definition create_token ::
    "('ek, 'dk) jwt_lib \<Rightarrow> nat \<Rightarrow> ('ek, 'dk) jwt_secret \<Rightarrow> string \<Rightarrow> auth_error + string" where
  "create_token J now k username =
     (case jwt_encode J \<lparr>claim_sub = username, claim_exp = now + TOKEN_TTL_SECS\<rparr> (encoding k) of
        Inl e \<Rightarrow> Inl (Jwt e)
      | Inr token \<Rightarrow> Inr token)"

definition verify_token ::
    "('ek, 'dk) jwt_lib \<Rightarrow> nat \<Rightarrow> ('ek, 'dk) jwt_secret \<Rightarrow> string \<Rightarrow> string + claims" where
  "verify_token J now k token = jwt_decode J now token (decoding k)"

definition extract_bearer :: "string option \<Rightarrow> string option" where
  "extract_bearer auth_header = Option.bind auth_header (strip_prefix ''Bearer '')"

definition leeway :: nat where
  "leeway = 60"

locale jwt_crate =
  fixes J :: "('ek, 'dk) jwt_lib"
  assumes decode_encode: "jwt_encode J c (encoding_key J s) = Inr token \<Longrightarrow> now \<le> claim_exp c + leeway \<Longrightarrow>
      jwt_decode J now token (decoding_key J s) = Inr c"
    and decode_expired: "jwt_decode J now token k = Inr c \<Longrightarrow> now \<le> claim_exp c + leeway"
    and decode_claims: "jwt_encode J c (encoding_key J s) = Inr token \<Longrightarrow>
      jwt_decode J now token (decoding_key J s) = Inr c' \<Longrightarrow> c' = c"
begin

lemma created_token_accepted_iff:
  assumes "create_token J t0 (jwt_secret_new J s) u = Inr token"
  shows "verify_token J now (jwt_secret_new J s) token = Inr c \<longleftrightarrow>
    c = \<lparr>claim_sub = u, claim_exp = t0 + TOKEN_TTL_SECS\<rparr> \<and> now \<le> t0 + TOKEN_TTL_SECS + leeway"
proof -
  have enc: "jwt_encode J \<lparr>claim_sub = u, claim_exp = t0 + TOKEN_TTL_SECS\<rparr> (encoding_key J s) = Inr token"
    using assms by (auto simp: create_token_def jwt_secret_new_def split: sum.splits)
  show ?thesis
    using decode_encode [OF enc, of now] decode_claims [OF enc, of now] decode_expired [of now token]
    by (fastforce simp: verify_token_def jwt_secret_new_def)
qed

end

subsection \<open>A signature scheme\<close>

text \<open>
  An instance of the interface, on which the witnesses evaluate: the token is the expiry, the
  secret and the subject in clear.
\<close>

definition clear_encode :: "claims \<Rightarrow> string \<Rightarrow> string + string" where
  "clear_encode c secret =
     (if claim_exp c < 2 ^ 64 then Inr (show_nat (claim_exp c) @ CHR ''.'' # secret @ ''.'' @ claim_sub c)
      else Inl ''exp'')"

definition clear_decode :: "nat \<Rightarrow> string \<Rightarrow> string \<Rightarrow> string + claims" where
  "clear_decode now token secret =
     (case split_once CHR ''.'' token of
        None \<Rightarrow> Inl ''InvalidToken''
      | Some (e, rest) \<Rightarrow>
          (case (parse_unsigned 64 e, strip_prefix (secret @ ''.'') rest) of
             (Some x, Some u) \<Rightarrow>
               if x + leeway < now then Inl ''ExpiredSignature'' else Inr \<lparr>claim_sub = u, claim_exp = x\<rparr>
           | _ \<Rightarrow> Inl ''InvalidSignature''))"

definition clear_jwt :: "(string, string) jwt_lib" where
  "clear_jwt = \<lparr>encoding_key = id, decoding_key = id, jwt_encode = clear_encode, jwt_decode = clear_decode\<rparr>"

lemma clear_decode_encode:
  assumes "clear_encode c s = Inr token"
  shows "clear_decode now token s = (if claim_exp c + leeway < now then Inl ''ExpiredSignature'' else Inr c)"
proof -
  have token: "token = show_nat (claim_exp c) @ CHR ''.'' # secret @ ''.'' @ claim_sub c" and bound: "claim_exp c < 2 ^ 64"
    if "secret = s" for secret
    using assms that by (auto simp: clear_encode_def split: if_splits)
  have "CHR ''.'' \<notin> set (show_nat (claim_exp c))"
    using show_nat_digits [of "CHR ''.''" "claim_exp c"] by (auto simp: digit_value_def)
  then have "split_once CHR ''.'' token = Some (show_nat (claim_exp c), s @ ''.'' @ claim_sub c)"
    by (simp add: token [OF refl] split_once_Some_iff)
  moreover have strip: "strip_prefix (s @ ''.'') (s @ CHR ''.'' # claim_sub c) = Some (claim_sub c)"
    by simp
  ultimately show ?thesis
    using bound by (simp add: clear_decode_def parse_unsigned_show_nat strip del: strip_prefix_Some_iff)
qed

interpretation clear: jwt_crate clear_jwt
proof
  fix c s token now c' k
  show "jwt_decode clear_jwt now token (decoding_key clear_jwt s) = Inr c"
    if "jwt_encode clear_jwt c (encoding_key clear_jwt s) = Inr token" "now \<le> claim_exp c + leeway"
    using that clear_decode_encode [of c s token now] by (simp add: clear_jwt_def)
  show "now \<le> claim_exp c + leeway" if "jwt_decode clear_jwt now token k = Inr c"
    using that by (auto simp: clear_jwt_def clear_decode_def split: option.splits if_splits)
  show "c' = c" if "jwt_encode clear_jwt c (encoding_key clear_jwt s) = Inr token"
    "jwt_decode clear_jwt now token (decoding_key clear_jwt s) = Inr c'"
    using that clear_decode_encode [of c s token now] by (simp add: clear_jwt_def split: if_splits)
qed



end
