(* ===== verification/Sql.thy ===== *)
theory Sql
  imports Prelude "HOL-Library.Char_ord" "HOL-Library.List_Lexorder" "HOL-Library.Product_Lexorder"
begin

text \<open>
  The interface to the database.  \<^verbatim>\<open>sqlx\<close> and the SQLite or PostgreSQL server behind it are not
  part of the repository, so they are a parameter: \<open>sql_engine\<close> has the operation that
  executes a statement (its text and its bound values) on a database, and the tables a
  database holds.

  \<open>sql_stmt\<close> lists the statements of \<^verbatim>\<open>src/db/pool.rs\<close>, \<^verbatim>\<open>src/db/models.rs\<close> and
  \<^verbatim>\<open>src/session/mod.rs\<close>, \<open>sql_text\<close> and \<open>sql_binds\<close> are what the sources hand to sqlx for each,
  and \<open>sql_apply\<close> is what each means on the three tables: \<^const>\<open>None\<close> when the statement must fail
  (a missing table, a duplicate primary key).  The argument \<open>clock\<close> is the value of
  \<^verbatim>\<open>CURRENT_TIMESTAMP\<close>.  The locale \<open>database\<close> says that the engine follows it; a statement that
  reports an error may or may not have been applied.
\<close>

datatype sqlx_error = Protocol string | Sqlx string

datatype sql_value = Text string | BigInt int

datatype sql_reply = Affected nat | Rows "string list list"

datatype sql_stmt =
  CreateItemsTable
| CreateUsersTable
| CreateSessionsTable
| SelectItems
| SelectItem string
| InsertItem string string string
| DeleteItem string
| SelectUsername string
| InsertUser string string
| SelectPasswordHash string
| InsertSession string string string int
| SelectSession string int
| DeleteSession string
| UpdateSession int string

record item_row =
  row_id :: string
  row_name :: string
  row_description :: string
  row_created_at :: nat

record user_row =
  row_username :: string
  row_password_hash :: string

record session_row =
  row_token :: string
  row_session_user :: string
  row_csrf_token :: string
  row_expires_at :: int

record tables =
  tab_items :: "item_row list option"
  tab_users :: "user_row list option"
  tab_sessions :: "session_row list option"

definition lines_text :: "string list \<Rightarrow> string" where
  "lines_text ls = join newline ls"

fun sql_text :: "sql_stmt \<Rightarrow> string" where
  "sql_text CreateItemsTable = lines_text
    [''CREATE TABLE IF NOT EXISTS items ('',
     ''            id          TEXT PRIMARY KEY,'',
     ''            name        TEXT NOT NULL,'',
     ''            description TEXT NOT NULL,'',
     ''            created_at  TIMESTAMP NOT NULL DEFAULT CURRENT_TIMESTAMP'',
     ''        )'']"
| "sql_text CreateUsersTable = lines_text
    [''CREATE TABLE IF NOT EXISTS users ('',
     ''            username      TEXT PRIMARY KEY,'',
     ''            password_hash TEXT NOT NULL,'',
     ''            created_at    TIMESTAMP NOT NULL DEFAULT CURRENT_TIMESTAMP'',
     ''        )'']"
| "sql_text CreateSessionsTable = lines_text
    [''CREATE TABLE IF NOT EXISTS sessions ('',
     ''            token      TEXT PRIMARY KEY,'',
     ''            username   TEXT NOT NULL,'',
     ''            csrf_token TEXT NOT NULL,'',
     ''            expires_at BIGINT NOT NULL'',
     ''        )'']"
| "sql_text SelectItems = ''SELECT id, name, description FROM items ORDER BY created_at ASC, id ASC''"
| "sql_text (SelectItem _) = ''SELECT id, name, description FROM items WHERE id = $1''"
| "sql_text (InsertItem _ _ _) = ''INSERT INTO items (id, name, description) VALUES ($1, $2, $3)''"
| "sql_text (DeleteItem _) = ''DELETE FROM items WHERE id = $1''"
| "sql_text (SelectUsername _) = ''SELECT username FROM users WHERE username = $1''"
| "sql_text (InsertUser _ _) = ''INSERT INTO users (username, password_hash) VALUES ($1, $2)''"
| "sql_text (SelectPasswordHash _) = ''SELECT password_hash FROM users WHERE username = $1''"
| "sql_text (InsertSession _ _ _ _) =
     ''INSERT INTO sessions (token, username, csrf_token, expires_at) VALUES ($1, $2, $3, $4)''"
| "sql_text (SelectSession _ _) =
     ''SELECT username, csrf_token FROM sessions WHERE token = $1 AND expires_at > $2''"
| "sql_text (DeleteSession _) = ''DELETE FROM sessions WHERE token = $1''"
| "sql_text (UpdateSession _ _) = ''UPDATE sessions SET expires_at = $1 WHERE token = $2''"

fun sql_binds :: "sql_stmt \<Rightarrow> sql_value list" where
  "sql_binds (SelectItem i) = [Text i]"
| "sql_binds (InsertItem i n d) = [Text i, Text n, Text d]"
| "sql_binds (DeleteItem i) = [Text i]"
| "sql_binds (SelectUsername u) = [Text u]"
| "sql_binds (InsertUser u h) = [Text u, Text h]"
| "sql_binds (SelectPasswordHash u) = [Text u]"
| "sql_binds (InsertSession t u c e) = [Text t, Text u, Text c, BigInt e]"
| "sql_binds (SelectSession t n) = [Text t, BigInt n]"
| "sql_binds (DeleteSession t) = [Text t]"
| "sql_binds (UpdateSession e t) = [BigInt e, Text t]"
| "sql_binds _ = []"

definition on_table :: "'r list option \<Rightarrow> ('r list \<Rightarrow> 'a option) \<Rightarrow> 'a option" where
  "on_table tab f = (case tab of None \<Rightarrow> None | Some rows \<Rightarrow> f rows)"

fun sql_apply :: "nat \<Rightarrow> sql_stmt \<Rightarrow> tables \<Rightarrow> (tables \<times> sql_reply) option" where
  "sql_apply clock CreateItemsTable t =
     Some (t\<lparr>tab_items := Some (unwrap_or (tab_items t) [])\<rparr>, Affected 0)"
| "sql_apply clock CreateUsersTable t =
     Some (t\<lparr>tab_users := Some (unwrap_or (tab_users t) [])\<rparr>, Affected 0)"
| "sql_apply clock CreateSessionsTable t =
     Some (t\<lparr>tab_sessions := Some (unwrap_or (tab_sessions t) [])\<rparr>, Affected 0)"
| "sql_apply clock SelectItems t = on_table (tab_items t) (\<lambda>rows.
     Some (t, Rows (map (\<lambda>r. [row_id r, row_name r, row_description r])
       (sort_key (\<lambda>r. (row_created_at r, row_id r)) rows))))"
| "sql_apply clock (SelectItem i) t = on_table (tab_items t) (\<lambda>rows.
     Some (t, Rows (map (\<lambda>r. [row_id r, row_name r, row_description r])
       (filter (\<lambda>r. row_id r = i) rows))))"
| "sql_apply clock (InsertItem i n d) t = on_table (tab_items t) (\<lambda>rows.
     if i \<in> set (map row_id rows) then None
     else Some (t\<lparr>tab_items := Some (rows @
       [\<lparr>row_id = i, row_name = n, row_description = d, row_created_at = clock\<rparr>])\<rparr>, Affected 1))"
| "sql_apply clock (DeleteItem i) t = on_table (tab_items t) (\<lambda>rows.
     Some (t\<lparr>tab_items := Some (filter (\<lambda>r. row_id r \<noteq> i) rows)\<rparr>,
       Affected (length (filter (\<lambda>r. row_id r = i) rows))))"
| "sql_apply clock (SelectUsername u) t = on_table (tab_users t) (\<lambda>rows.
     Some (t, Rows (map (\<lambda>r. [row_username r]) (filter (\<lambda>r. row_username r = u) rows))))"
| "sql_apply clock (InsertUser u h) t = on_table (tab_users t) (\<lambda>rows.
     if u \<in> set (map row_username rows) then None
     else Some (t\<lparr>tab_users := Some (rows @ [\<lparr>row_username = u, row_password_hash = h\<rparr>])\<rparr>, Affected 1))"
| "sql_apply clock (SelectPasswordHash u) t = on_table (tab_users t) (\<lambda>rows.
     Some (t, Rows (map (\<lambda>r. [row_password_hash r]) (filter (\<lambda>r. row_username r = u) rows))))"
| "sql_apply clock (InsertSession tok u c e) t = on_table (tab_sessions t) (\<lambda>rows.
     if tok \<in> set (map row_token rows) then None
     else Some (t\<lparr>tab_sessions := Some (rows @
       [\<lparr>row_token = tok, row_session_user = u, row_csrf_token = c, row_expires_at = e\<rparr>])\<rparr>, Affected 1))"
| "sql_apply clock (SelectSession tok n) t = on_table (tab_sessions t) (\<lambda>rows.
     Some (t, Rows (map (\<lambda>r. [row_session_user r, row_csrf_token r])
       (filter (\<lambda>r. row_token r = tok \<and> n < row_expires_at r) rows))))"
| "sql_apply clock (DeleteSession tok) t = on_table (tab_sessions t) (\<lambda>rows.
     Some (t\<lparr>tab_sessions := Some (filter (\<lambda>r. row_token r \<noteq> tok) rows)\<rparr>,
       Affected (length (filter (\<lambda>r. row_token r = tok) rows))))"
| "sql_apply clock (UpdateSession e tok) t = on_table (tab_sessions t) (\<lambda>rows.
     Some (t\<lparr>tab_sessions := Some (map (\<lambda>r. if row_token r = tok then r\<lparr>row_expires_at := e\<rparr> else r) rows)\<rparr>,
       Affected (length (filter (\<lambda>r. row_token r = tok) rows))))"

record 'db sql_engine =
  sql_exec :: "'db \<Rightarrow> string \<Rightarrow> sql_value list \<Rightarrow> 'db \<times> (sqlx_error + sql_reply)"
  sql_tables :: "'db \<Rightarrow> tables"

definition sql_run :: "'db sql_engine \<Rightarrow> sql_stmt \<Rightarrow> 'db \<Rightarrow> 'db \<times> (sqlx_error + sql_reply)" where
  "sql_run E st db = sql_exec E db (sql_text st) (sql_binds st)"

text \<open>The keys of the three tables are primary keys.\<close>

definition tables_ok :: "tables \<Rightarrow> bool" where
  "tables_ok t \<longleftrightarrow>
     distinct (map row_id (unwrap_or (tab_items t) [])) \<and>
     distinct (map row_username (unwrap_or (tab_users t) [])) \<and>
     distinct (map row_token (unwrap_or (tab_sessions t) []))"

locale database =
  fixes E :: "'db sql_engine"
  assumes run_ok: "sql_run E st db = (db', Inr reply) \<Longrightarrow>
      \<exists>clock. sql_apply clock st (sql_tables E db) = Some (sql_tables E db', reply)"
    and run_error: "sql_run E st db = (db', Inl e) \<Longrightarrow>
      sql_tables E db' = sql_tables E db \<or>
      (\<exists>clock reply. sql_apply clock st (sql_tables E db) = Some (sql_tables E db', reply))"
begin

lemma run_cases:
  assumes "sql_run E st db = (db', res)"
  obtains "sql_tables E db' = sql_tables E db" | clock reply where
    "sql_apply clock st (sql_tables E db) = Some (sql_tables E db', reply)"
  using assms run_ok run_error by (cases res) blast+

end

lemma on_table_eq_Some: "on_table tab f = Some y \<longleftrightarrow> (\<exists>rows. tab = Some rows \<and> f rows = Some y)"
  by (auto simp: on_table_def split: option.splits)

lemma distinct_map_filter': "distinct (map f xs) \<Longrightarrow> distinct (map f (filter P xs))"
  by (simp add: distinct_map_filter)

lemma map_update_token:
  "map row_token (map (\<lambda>r. if row_token r = tok then r\<lparr>row_expires_at := e\<rparr> else r) rows) = map row_token rows"
  by (induction rows) auto

lemma sql_apply_tables_ok:
  "sql_apply clock st t = Some (t', reply) \<Longrightarrow> tables_ok t \<Longrightarrow> tables_ok t'"
  by (cases st)
    (auto simp: tables_ok_def on_table_eq_Some distinct_map_filter' map_update_token
      simp del: map_map split: if_splits)

text \<open>Which statement touches which table.\<close>

lemma sql_apply_frame:
  assumes "sql_apply clock st t = Some (t', reply)"
  shows "st \<notin> {CreateItemsTable} \<and> (\<forall>i n d. st \<noteq> InsertItem i n d) \<and> (\<forall>i. st \<noteq> DeleteItem i) \<Longrightarrow>
      tab_items t' = tab_items t"
    and "st \<noteq> CreateUsersTable \<and> (\<forall>u h. st \<noteq> InsertUser u h) \<Longrightarrow> tab_users t' = tab_users t"
    and "st \<noteq> CreateSessionsTable \<and> (\<forall>a b c d. st \<noteq> InsertSession a b c d) \<and>
      (\<forall>a. st \<noteq> DeleteSession a) \<and> (\<forall>a b. st \<noteq> UpdateSession a b) \<Longrightarrow> tab_sessions t' = tab_sessions t"
  using assms by (cases st; auto simp: on_table_eq_Some split: if_splits)+

subsection \<open>An engine in memory\<close>

text \<open>
  An instance of the interface: the tables and a clock that advances with every statement.  It
  recognises a statement by its text and its values, as the real engine does.
\<close>

fun stmt_candidates :: "sql_value list \<Rightarrow> sql_stmt list" where
  "stmt_candidates [] = [CreateItemsTable, CreateUsersTable, CreateSessionsTable, SelectItems]"
| "stmt_candidates [Text a] =
     [SelectItem a, DeleteItem a, SelectUsername a, SelectPasswordHash a, DeleteSession a]"
| "stmt_candidates [Text a, Text b] = [InsertUser a b]"
| "stmt_candidates [Text a, BigInt b] = [SelectSession a b]"
| "stmt_candidates [BigInt a, Text b] = [UpdateSession a b]"
| "stmt_candidates [Text a, Text b, Text c] = [InsertItem a b c]"
| "stmt_candidates [Text a, Text b, Text c, BigInt d] = [InsertSession a b c d]"
| "stmt_candidates _ = []"

definition stmt_of :: "string \<Rightarrow> sql_value list \<Rightarrow> sql_stmt option" where
  "stmt_of text binds = List.find (\<lambda>st. sql_text st = text) (stmt_candidates binds)"

definition mem_exec ::
    "tables \<times> nat \<Rightarrow> string \<Rightarrow> sql_value list \<Rightarrow> (tables \<times> nat) \<times> (sqlx_error + sql_reply)" where
  "mem_exec db text binds =
     (case stmt_of text binds of
        None \<Rightarrow> (db, Inl (Sqlx ''syntax error''))
      | Some st \<Rightarrow>
          (case sql_apply (snd db) st (fst db) of
             None \<Rightarrow> (db, Inl (Sqlx ''constraint''))
           | Some (t, reply) \<Rightarrow> ((t, Suc (snd db)), Inr reply)))"

definition mem_engine :: "(tables \<times> nat) sql_engine" where
  "mem_engine = \<lparr>sql_exec = mem_exec, sql_tables = fst\<rparr>"

lemma stmt_of_text: "stmt_of (sql_text st) (sql_binds st) = Some st"
  by (cases st) (simp_all add: stmt_of_def lines_text_def)

lemma mem_run:
  "sql_run mem_engine st db =
     (case sql_apply (snd db) st (fst db) of
        None \<Rightarrow> (db, Inl (Sqlx ''constraint''))
      | Some (t, reply) \<Rightarrow> ((t, Suc (snd db)), Inr reply))"
  by (simp add: sql_run_def mem_engine_def mem_exec_def stmt_of_text)

lemma mem_tables [simp]: "sql_tables mem_engine db = fst db"
  by (simp add: mem_engine_def)

interpretation mem: database mem_engine
  by unfold_locales (auto simp: mem_run split: option.splits prod.splits)

end
