(* ===== verification/Database.thy ===== *)
theory Database
  imports Sql
begin

text \<open>
  \<^verbatim>\<open>src/db/pool.rs\<close> and \<^verbatim>\<open>src/db/models.rs\<close>: opening the pool with its migrations, and the
  operations on items and users.

  Every operation takes the database and returns it with its result, so that the statements
  run in the order of the source; \<open>try_then\<close> is the \<^verbatim>\<open>?\<close> operator.  The connection builders of
  sqlx (\<open>pool_lib\<close>) and the argon2 crate (\<open>argon2_lib\<close>) are parameters, as are the fresh UUIDs
  and salts.
\<close>

type_synonym ('db, 'e, 'a) db_result = "'db \<times> ('e + 'a)"

definition try_then ::
    "('db, 'e, 'a) db_result \<Rightarrow> ('a \<Rightarrow> 'db \<Rightarrow> ('db, 'e, 'b) db_result) \<Rightarrow> ('db, 'e, 'b) db_result" where
  "try_then r k = (case r of (db, Inl e) \<Rightarrow> (db, Inl e) | (db, Inr x) \<Rightarrow> k x db)"

definition map_err :: "('e \<Rightarrow> 'f) \<Rightarrow> ('db, 'e, 'a) db_result \<Rightarrow> ('db, 'f, 'a) db_result" where
  "map_err f r = (case r of (db, Inl e) \<Rightarrow> (db, Inl (f e)) | (db, Inr x) \<Rightarrow> (db, Inr x))"

fun rows_affected :: "sql_reply \<Rightarrow> nat" where
  "rows_affected (Affected n) = n"
| "rows_affected (Rows _) = 0"

fun reply_rows :: "sql_reply \<Rightarrow> string list list" where
  "reply_rows (Rows rs) = rs"
| "reply_rows (Affected _) = []"

definition execute :: "'db sql_engine \<Rightarrow> sql_stmt \<Rightarrow> 'db \<Rightarrow> ('db, sqlx_error, nat) db_result" where
  "execute E st db = try_then (sql_run E st db) (\<lambda>reply db. (db, Inr (rows_affected reply)))"

fun from_rows :: "(string list \<Rightarrow> sqlx_error + 'a) \<Rightarrow> string list list \<Rightarrow> sqlx_error + 'a list" where
  "from_rows f [] = Inr []"
| "from_rows f (r # rs) =
     (case f r of
        Inl e \<Rightarrow> Inl e
      | Inr x \<Rightarrow> (case from_rows f rs of Inl e \<Rightarrow> Inl e | Inr xs \<Rightarrow> Inr (x # xs)))"

definition fetch_all ::
    "'db sql_engine \<Rightarrow> (string list \<Rightarrow> sqlx_error + 'a) \<Rightarrow> sql_stmt \<Rightarrow> 'db \<Rightarrow> ('db, sqlx_error, 'a list) db_result" where
  "fetch_all E f st db = try_then (sql_run E st db) (\<lambda>reply db. (db, from_rows f (reply_rows reply)))"

definition fetch_optional ::
    "'db sql_engine \<Rightarrow> (string list \<Rightarrow> sqlx_error + 'a) \<Rightarrow> sql_stmt \<Rightarrow> 'db \<Rightarrow> ('db, sqlx_error, 'a option) db_result" where
  "fetch_optional E f st db = try_then (sql_run E st db) (\<lambda>reply db.
     (db, case reply_rows reply of
            [] \<Rightarrow> Inr None
          | r # rs \<Rightarrow> (case f r of Inl e \<Rightarrow> Inl e | Inr x \<Rightarrow> Inr (Some x))))"

subsection \<open>Opening the pool\<close>

datatype db_error = DbSqlx sqlx_error | BackendMismatch

record ('opts, 'db) pool_lib =
  sqlite_options_from_str :: "string \<Rightarrow> sqlx_error + 'opts"
  sqlite_create_if_missing :: "'opts \<Rightarrow> 'opts"
  sqlite_connect_with :: "32 word \<Rightarrow> 'opts \<Rightarrow> sqlx_error + 'db"
  pg_connect :: "32 word \<Rightarrow> string \<Rightarrow> sqlx_error + 'db"

definition effective_pool_size :: "string \<Rightarrow> 32 word \<Rightarrow> 32 word" where
  "effective_pool_size db_url pool_size = (if db_url = ''sqlite::memory:'' then 1 else pool_size)"

definition open_pool :: "('opts, 'db) pool_lib \<Rightarrow> bool \<Rightarrow> string \<Rightarrow> 32 word \<Rightarrow> sqlx_error + 'db" where
  "open_pool P postgres db_url pool_size =
     (if postgres then pg_connect P pool_size db_url
      else (case sqlite_options_from_str P db_url of
              Inl e \<Rightarrow> Inl e
            | Inr opts \<Rightarrow>
                sqlite_connect_with P (effective_pool_size db_url pool_size)
                  (sqlite_create_if_missing P opts)))"

definition run_migrations :: "'db sql_engine \<Rightarrow> 'db \<Rightarrow> ('db, db_error, unit) db_result" where
  "run_migrations E db =
     try_then (map_err DbSqlx (execute E CreateItemsTable db)) (\<lambda>_ db.
     try_then (map_err DbSqlx (execute E CreateUsersTable db)) (\<lambda>_ db.
     try_then (map_err DbSqlx (execute E CreateSessionsTable db)) (\<lambda>_ db.
     (db, Inr ()))))"

definition is_postgres :: "string \<Rightarrow> bool" where
  "is_postgres db_url \<longleftrightarrow> starts_with ''postgres://'' db_url \<or> starts_with ''postgresql://'' db_url"

definition init_pool ::
    "('opts, 'db) pool_lib \<Rightarrow> 'db sql_engine \<Rightarrow> bool \<Rightarrow> string \<Rightarrow> 32 word \<Rightarrow> db_error + 'db" where
  "init_pool P E postgres db_url pool_size =
     (if is_postgres db_url \<noteq> postgres then Inl BackendMismatch
      else (case open_pool P postgres db_url pool_size of
              Inl e \<Rightarrow> Inl (DbSqlx e)
            | Inr pool \<Rightarrow>
                (case run_migrations E pool of
                   (db, Inl e) \<Rightarrow> Inl e
                 | (db, Inr _) \<Rightarrow> Inr db)))"

subsection \<open>Items\<close>

record item =
  item_id :: string
  item_name :: string
  item_description :: string

record create_item_payload =
  ci_name :: string
  ci_description :: string

fun item_from_row :: "string list \<Rightarrow> sqlx_error + item" where
  "item_from_row [i, n, d] = Inr \<lparr>item_id = i, item_name = n, item_description = d\<rparr>"
| "item_from_row _ = Inl (Sqlx ''ColumnNotFound'')"

fun text_from_row :: "string list \<Rightarrow> sqlx_error + string" where
  "text_from_row [a] = Inr a"
| "text_from_row _ = Inl (Sqlx ''ColumnNotFound'')"

definition list_items :: "'db sql_engine \<Rightarrow> 'db \<Rightarrow> ('db, sqlx_error, item list) db_result" where
  "list_items E db = fetch_all E item_from_row SelectItems db"

definition get_item :: "'db sql_engine \<Rightarrow> string \<Rightarrow> 'db \<Rightarrow> ('db, sqlx_error, item option) db_result" where
  "get_item E i db = fetch_optional E item_from_row (SelectItem i) db"

definition create_item ::
    "'db sql_engine \<Rightarrow> string \<Rightarrow> string \<Rightarrow> string \<Rightarrow> 'db \<Rightarrow> ('db, sqlx_error, item) db_result" where
  "create_item E uuid name description db =
     try_then (execute E (InsertItem uuid name description) db) (\<lambda>_ db.
     (db, Inr \<lparr>item_id = uuid, item_name = name, item_description = description\<rparr>))"

definition delete_item :: "'db sql_engine \<Rightarrow> string \<Rightarrow> 'db \<Rightarrow> ('db, sqlx_error, bool) db_result" where
  "delete_item E i db = try_then (execute E (DeleteItem i) db) (\<lambda>n db. (db, Inr (0 < n)))"

subsection \<open>Users\<close>

record 'ph argon2_lib =
  argon2_hash_password :: "string \<Rightarrow> string \<Rightarrow> string + string"
  argon2_parse_hash :: "string \<Rightarrow> string + 'ph"
  argon2_verify_password :: "string \<Rightarrow> 'ph \<Rightarrow> bool"

definition create_user_with_hash_if_missing ::
    "'db sql_engine \<Rightarrow> 'ph argon2_lib \<Rightarrow> string \<Rightarrow> string \<Rightarrow> 'db \<Rightarrow> ('db, sqlx_error, unit) db_result" where
  "create_user_with_hash_if_missing E A username password_hash db =
     (case argon2_parse_hash A password_hash of
        Inl e \<Rightarrow> (db, Inl (Protocol (''invalid Argon2 password hash: '' @ e)))
      | Inr _ \<Rightarrow>
          try_then (fetch_optional E text_from_row (SelectUsername username) db) (\<lambda>found db.
          if found \<noteq> None then (db, Inr ())
          else try_then (execute E (InsertUser username password_hash) db) (\<lambda>_ db. (db, Inr ()))))"

definition create_user_if_missing ::
    "'db sql_engine \<Rightarrow> 'ph argon2_lib \<Rightarrow> string \<Rightarrow> string \<Rightarrow> string \<Rightarrow> 'db \<Rightarrow> ('db, sqlx_error, unit) db_result" where
  "create_user_if_missing E A salt username bootstrap_password db =
     (case argon2_hash_password A bootstrap_password salt of
        Inl e \<Rightarrow> (db, Inl (Protocol e))
      | Inr hash \<Rightarrow> create_user_with_hash_if_missing E A username hash db)"

definition verify_user ::
    "'db sql_engine \<Rightarrow> 'ph argon2_lib \<Rightarrow> string \<Rightarrow> string \<Rightarrow> 'db \<Rightarrow> ('db, sqlx_error, bool) db_result" where
  "verify_user E A username password db =
     try_then (fetch_optional E text_from_row (SelectPasswordHash username) db) (\<lambda>stored db.
     case stored of
       None \<Rightarrow> (db, Inr False)
     | Some hash \<Rightarrow>
         (case argon2_parse_hash A hash of
            Inl _ \<Rightarrow> (db, Inr False)
          | Inr parsed \<Rightarrow> (db, Inr (argon2_verify_password A password parsed))))"

subsection \<open>The contents of the tables\<close>

definition items_of :: "tables \<Rightarrow> (string \<rightharpoonup> string \<times> string)" where
  "items_of t =
     map_of (map (\<lambda>r. (row_id r, (row_name r, row_description r))) (unwrap_or (tab_items t) []))"

definition users_of :: "tables \<Rightarrow> (string \<rightharpoonup> string)" where
  "users_of t = map_of (map (\<lambda>r. (row_username r, row_password_hash r)) (unwrap_or (tab_users t) []))"

lemma try_then_Inr:
  "try_then r k = (db', Inr y) \<longleftrightarrow> (\<exists>db x. r = (db, Inr x) \<and> k x db = (db', Inr y))"
  by (auto simp: try_then_def split: prod.splits sum.splits)

lemma try_then_simps [simp]:
  "try_then (db, Inl e) k = (db, Inl e)"
  "try_then (db, Inr x) k = k x db"
  by (simp_all add: try_then_def)

lemma try_then_return: "try_then r (\<lambda>x db. (db, g x)) = (db', res) \<Longrightarrow> fst r = db'"
  by (cases r; cases "snd r") auto

lemma map_err_Inr: "map_err f r = (db', Inr y) \<longleftrightarrow> r = (db', Inr y)"
  by (auto simp: map_err_def split: prod.splits sum.splits)

lemma map_of_filter_key:
  "map_of (map (\<lambda>r. (k r, v r)) (filter (\<lambda>r. k r \<noteq> x) rows)) = (map_of (map (\<lambda>r. (k r, v r)) rows))(x := None)"
  by (induction rows) auto

lemma filter_key:
  assumes "distinct (map k rows)"
  shows "filter (\<lambda>r. k r = x) rows =
    (case map_of (map (\<lambda>r. (k r, r)) rows) x of None \<Rightarrow> [] | Some r \<Rightarrow> [r])"
  using assms
proof (induction rows)
  case (Cons r rows)
  then have "k r = x \<Longrightarrow> map_of (map (\<lambda>r. (k r, r)) rows) x = None"
    by (auto simp: map_of_eq_None_iff)
  with Cons show ?case by auto
qed simp

lemma map_of_map_snd: "map_of (map (\<lambda>r. (k r, f r)) rows) x = map_option f (map_of (map (\<lambda>r. (k r, r)) rows) x)"
  by (induction rows) auto

lemma map_of_snoc:
  assumes "k r \<notin> set (map k rows)"
  shows "map_of (map (\<lambda>r. (k r, v r)) (rows @ [r])) = (map_of (map (\<lambda>r. (k r, v r)) rows))(k r \<mapsto> v r)"
  using assms by (induction rows) (auto simp: fun_upd_twist)

lemma map_of_key_None: "map_of (map (\<lambda>r. (k r, v r)) rows) x = None \<longleftrightarrow> x \<notin> set (map k rows)"
  by (induction rows) auto

lemma items_of_insert:
  assumes "sql_apply clock (InsertItem i n d) t = Some (t', reply)"
  shows "items_of t i = None \<and> items_of t' = (items_of t)(i \<mapsto> (n, d))"
  using assms
  by (auto simp: items_of_def on_table_eq_Some map_of_snoc map_of_key_None simp del: map_append split: if_splits)

lemma items_of_delete:
  assumes "sql_apply clock (DeleteItem i) t = Some (t', reply)"
  shows "items_of t' = (items_of t)(i := None) \<and> (0 < rows_affected reply \<longleftrightarrow> items_of t i \<noteq> None)"
proof -
  obtain rows where rows: "tab_items t = Some rows"
    "tab_items t' = Some (filter (\<lambda>r. row_id r \<noteq> i) rows)"
    "reply = Affected (length (filter (\<lambda>r. row_id r = i) rows))"
    using assms by (auto simp: on_table_eq_Some)
  moreover have "filter (\<lambda>r. row_id r = i) rows \<noteq> [] \<longleftrightarrow> i \<in> row_id ` set rows"
    by (force simp: filter_empty_conv)
  ultimately show ?thesis
    by (simp add: items_of_def map_of_filter_key map_of_eq_None_iff image_image)
qed

lemma items_of_select:
  assumes "sql_apply clock (SelectItem i) t = Some (t', reply)" and "tables_ok t"
  shows "t' = t \<and> reply_rows reply = (case items_of t i of None \<Rightarrow> [] | Some (n, d) \<Rightarrow> [[i, n, d]])"
proof -
  obtain rows where rows: "tab_items t = Some rows" "t' = t"
    "reply = Rows (map (\<lambda>r. [row_id r, row_name r, row_description r]) (filter (\<lambda>r. row_id r = i) rows))"
    using assms(1) by (auto simp: on_table_eq_Some)
  have "distinct (map row_id rows)" using assms(2) rows by (simp add: tables_ok_def)
  moreover have "row_id r = i" if "map_of (map (\<lambda>r. (row_id r, r)) rows) i = Some r" for r
    using map_of_SomeD [OF that] by auto
  moreover have "items_of t i =
      map_option (\<lambda>r. (row_name r, row_description r)) (map_of (map (\<lambda>r. (row_id r, r)) rows) i)"
    by (simp add: items_of_def rows(1) map_of_map_snd [of row_id "\<lambda>r. (row_name r, row_description r)"])
  ultimately show ?thesis
    using rows(2,3) by (cases "map_of (map (\<lambda>r. (row_id r, r)) rows) i") (simp_all add: filter_key)
qed

lemma users_of_select:
  assumes "sql_apply clock (SelectPasswordHash u) t = Some (t', reply)" and "tables_ok t"
  shows "t' = t \<and> reply_rows reply = (case users_of t u of None \<Rightarrow> [] | Some h \<Rightarrow> [[h]])"
proof -
  obtain rows where rows: "tab_users t = Some rows" "t' = t"
    "reply = Rows (map (\<lambda>r. [row_password_hash r]) (filter (\<lambda>r. row_username r = u) rows))"
    using assms(1) by (auto simp: on_table_eq_Some)
  have "distinct (map row_username rows)" using assms(2) rows by (simp add: tables_ok_def)
  moreover have "users_of t u =
      map_option row_password_hash (map_of (map (\<lambda>r. (row_username r, r)) rows) u)"
    by (simp add: users_of_def rows(1) map_of_map_snd [of row_username row_password_hash])
  ultimately show ?thesis
    using rows(2,3) by (cases "map_of (map (\<lambda>r. (row_username r, r)) rows) u") (simp_all add: filter_key)
qed

lemma users_of_username:
  assumes "sql_apply clock (SelectUsername u) t = Some (t', reply)"
  shows "t' = t \<and> (reply_rows reply = [] \<longleftrightarrow> users_of t u = None) \<and> (\<forall>r \<in> set (reply_rows reply). r = [u])"
  using assms
  by (force simp: on_table_eq_Some users_of_def map_of_eq_None_iff filter_empty_conv)

lemma users_of_insert:
  assumes "sql_apply clock (InsertUser u h) t = Some (t', reply)"
  shows "users_of t u = None \<and> users_of t' = (users_of t)(u \<mapsto> h)"
  using assms
  by (auto simp: users_of_def on_table_eq_Some map_of_snoc map_of_key_None simp del: map_append split: if_splits)

definition item_of_row :: "item_row \<Rightarrow> item" where
  "item_of_row r = \<lparr>item_id = row_id r, item_name = row_name r, item_description = row_description r\<rparr>"

lemma from_item_rows:
  "from_rows item_from_row (map (\<lambda>r. [row_id r, row_name r, row_description r]) rows) = Inr (map item_of_row rows)"
  by (induction rows) (simp_all add: item_of_row_def)

declare sql_apply.simps [simp del]

text \<open>Whatever an operation returns, its statement was applied or it was not.\<close>

definition maybe_applied :: "'db sql_engine \<Rightarrow> sql_stmt \<Rightarrow> 'db \<Rightarrow> 'db \<Rightarrow> bool" where
  "maybe_applied E st db db' \<longleftrightarrow> sql_tables E db' = sql_tables E db \<or>
     (\<exists>clock reply. sql_apply clock st (sql_tables E db) = Some (sql_tables E db', reply))"

context database
begin

lemma execute_Inr:
  assumes "execute E st db = (db', Inr n)"
  obtains clock reply where
    "sql_apply clock st (sql_tables E db) = Some (sql_tables E db', reply)" "n = rows_affected reply"
  using assms run_ok by (fastforce simp: execute_def try_then_Inr)

lemma fetch_optional_Inr:
  assumes "fetch_optional E f st db = (db', Inr x)"
  obtains clock reply where
    "sql_apply clock st (sql_tables E db) = Some (sql_tables E db', reply)"
    "case reply_rows reply of [] \<Rightarrow> x = None | r # rs \<Rightarrow> (\<exists>y. f r = Inr y \<and> x = Some y)"
  using assms run_ok
  by (fastforce simp: fetch_optional_def try_then_Inr split: list.splits sum.splits)

lemma fetch_all_Inr:
  assumes "fetch_all E f st db = (db', Inr xs)"
  obtains clock reply where
    "sql_apply clock st (sql_tables E db) = Some (sql_tables E db', reply)"
    "from_rows f (reply_rows reply) = Inr xs"
  using assms run_ok by (fastforce simp: fetch_all_def try_then_Inr)

lemma effect:
  "execute E st db = (db', res) \<Longrightarrow> maybe_applied E st db db'"
  "fetch_optional E f st db = (db', res') \<Longrightarrow> maybe_applied E st db db'"
  "fetch_all E f st db = (db', res'') \<Longrightarrow> maybe_applied E st db db'"
  unfolding execute_def fetch_optional_def fetch_all_def maybe_applied_def
  by (drule try_then_return; cases "sql_run E st db"; auto elim!: run_cases)+

lemma maybe_applied_ok: "maybe_applied E st db db' \<Longrightarrow> tables_ok (sql_tables E db) \<Longrightarrow> tables_ok (sql_tables E db')"
  by (auto simp: maybe_applied_def dest: sql_apply_tables_ok)

lemma maybe_applied_select:
  "maybe_applied E SelectItems db db' \<Longrightarrow> sql_tables E db' = sql_tables E db"
  "maybe_applied E (SelectItem i) db db' \<Longrightarrow> sql_tables E db' = sql_tables E db"
  "maybe_applied E (SelectUsername u) db db' \<Longrightarrow> sql_tables E db' = sql_tables E db"
  "maybe_applied E (SelectPasswordHash u) db db' \<Longrightarrow> sql_tables E db' = sql_tables E db"
  "maybe_applied E (SelectSession tok n) db db' \<Longrightarrow> sql_tables E db' = sql_tables E db"
  by (auto simp: maybe_applied_def on_table_eq_Some sql_apply.simps)

lemma list_items_pure: "list_items E db = (db', res) \<Longrightarrow> sql_tables E db' = sql_tables E db"
  unfolding list_items_def by (rule maybe_applied_select(1) [OF effect(3)])

lemma get_item_pure: "get_item E i db = (db', res) \<Longrightarrow> sql_tables E db' = sql_tables E db"
  unfolding get_item_def by (rule maybe_applied_select(2) [OF effect(2)])

lemma verify_user_pure:
  assumes "verify_user E A u p db = (db', res)"
  shows "sql_tables E db' = sql_tables E db"
proof -
  obtain db1 r where f: "fetch_optional E text_from_row (SelectPasswordHash u) db = (db1, r)"
    by (cases "fetch_optional E text_from_row (SelectPasswordHash u) db")
  with assms have "db' = db1"
    by (cases r) (auto simp: verify_user_def split: option.splits sum.splits)
  then show ?thesis using maybe_applied_select(4) [OF effect(2) [OF f]] by simp
qed

lemma create_item_Inr:
  assumes "create_item E u n d db = (db', Inr it)"
  shows "it = \<lparr>item_id = u, item_name = n, item_description = d\<rparr>"
    and "items_of (sql_tables E db) u = None"
    and "items_of (sql_tables E db') = (items_of (sql_tables E db))(u \<mapsto> (n, d))"
  using assms
  by (auto simp: create_item_def try_then_Inr elim!: execute_Inr dest: items_of_insert)

lemma delete_item_Inr:
  assumes "delete_item E i db = (db', Inr b)"
  shows "items_of (sql_tables E db') = (items_of (sql_tables E db))(i := None)"
    and "b \<longleftrightarrow> items_of (sql_tables E db) i \<noteq> None"
  using assms
  by (auto simp: delete_item_def try_then_Inr elim!: execute_Inr dest!: items_of_delete)

lemma create_item_any:
  assumes "create_item E u n d db = (db', res)"
  shows "items_of (sql_tables E db') \<in>
    {items_of (sql_tables E db), (items_of (sql_tables E db))(u \<mapsto> (n, d))}"
proof -
  have "execute E (InsertItem u n d) db = (db', snd (execute E (InsertItem u n d) db))"
    using try_then_return [OF assms [unfolded create_item_def]] by (simp add: prod_eq_iff)
  from effect(1) [OF this] show ?thesis by (auto simp: maybe_applied_def dest: items_of_insert)
qed

lemma delete_item_any:
  assumes "delete_item E i db = (db', res)"
  shows "items_of (sql_tables E db') \<in>
    {items_of (sql_tables E db), (items_of (sql_tables E db))(i := None)}"
proof -
  have "execute E (DeleteItem i) db = (db', snd (execute E (DeleteItem i) db))"
    using try_then_return [OF assms [unfolded delete_item_def]] by (simp add: prod_eq_iff)
  from effect(1) [OF this] show ?thesis by (auto simp: maybe_applied_def dest: items_of_delete)
qed

lemma get_item_Inr:
  assumes "get_item E i db = (db', Inr x)" and "tables_ok (sql_tables E db)"
  shows "x = map_option (\<lambda>(n, d). \<lparr>item_id = i, item_name = n, item_description = d\<rparr>)
    (items_of (sql_tables E db) i)"
  using assms(1) unfolding get_item_def
  by (rule fetch_optional_Inr)
    (use items_of_select [OF _ assms(2)] in \<open>fastforce split: option.splits\<close>)

lemma list_items_Inr:
  assumes "list_items E db = (db', Inr xs)"
  obtains rows where "tab_items (sql_tables E db) = Some rows"
    "xs = map item_of_row (sort_key (\<lambda>r. (row_created_at r, row_id r)) rows)"
  using assms unfolding list_items_def
  by (elim fetch_all_Inr) (auto simp: sql_apply.simps on_table_eq_Some from_item_rows)

lemma create_user_with_hash_Inr:
  assumes "create_user_with_hash_if_missing E A u h db = (db', Inr ())"
  shows "(\<exists>ph. argon2_parse_hash A h = Inr ph) \<and>
    users_of (sql_tables E db') =
      (if users_of (sql_tables E db) u = None then (users_of (sql_tables E db))(u \<mapsto> h)
       else users_of (sql_tables E db))"
proof -
  obtain ph where ph: "argon2_parse_hash A h = Inr ph"
    using assms by (cases "argon2_parse_hash A h") (simp_all add: create_user_with_hash_if_missing_def)
  with assms obtain db1 found where f: "fetch_optional E text_from_row (SelectUsername u) db = (db1, Inr found)"
    and rest: "(if found \<noteq> None then (db1, Inr ())
      else try_then (execute E (InsertUser u h) db1) (\<lambda>_ db. (db, Inr ()))) = (db', Inr ())"
    by (auto simp: create_user_with_hash_if_missing_def try_then_Inr)
  from f have found: "found = None \<longleftrightarrow> users_of (sql_tables E db) u = None"
    and same: "sql_tables E db1 = sql_tables E db"
    by (elim fetch_optional_Inr; auto dest!: users_of_username split: list.splits)+
  show ?thesis
    using rest found same ph
    by (auto simp: try_then_Inr split: if_splits elim!: execute_Inr dest!: users_of_insert)
qed

lemma create_user_with_hash_ok:
  assumes "create_user_with_hash_if_missing E A u h db = (db', Inr ())" and "tables_ok (sql_tables E db)"
  shows "tables_ok (sql_tables E db')"
  using assms
  by (auto simp: create_user_with_hash_if_missing_def try_then_Inr split: sum.splits if_splits
      dest!: effect maybe_applied_ok)

lemma verify_user_Inr:
  assumes "verify_user E A u p db = (db', Inr b)" and "tables_ok (sql_tables E db)"
  shows "b \<longleftrightarrow> (\<exists>h ph. users_of (sql_tables E db) u = Some h \<and> argon2_parse_hash A h = Inr ph \<and>
    argon2_verify_password A p ph)"
proof -
  obtain db1 stored where f: "fetch_optional E text_from_row (SelectPasswordHash u) db = (db1, Inr stored)"
    using assms(1) by (auto simp: verify_user_def try_then_Inr)
  then have "stored = users_of (sql_tables E db) u"
    by (elim fetch_optional_Inr) (use users_of_select [OF _ assms(2)] in \<open>fastforce split: option.splits\<close>)
  then show ?thesis
    using assms(1) f by (auto simp: verify_user_def split: option.splits sum.splits)
qed

lemma run_migrations_Inr:
  assumes "run_migrations E db = (db', Inr ())"
  shows "sql_tables E db' =
    (sql_tables E db)\<lparr>tab_items := Some (unwrap_or (tab_items (sql_tables E db)) []),
      tab_users := Some (unwrap_or (tab_users (sql_tables E db)) []),
      tab_sessions := Some (unwrap_or (tab_sessions (sql_tables E db)) [])\<rparr>"
proof -
  have create:
    "execute E CreateItemsTable db1 = (db2, Inr n) \<Longrightarrow>
       sql_tables E db2 = (sql_tables E db1)\<lparr>tab_items := Some (unwrap_or (tab_items (sql_tables E db1)) [])\<rparr>"
    "execute E CreateUsersTable db1 = (db2, Inr n) \<Longrightarrow>
       sql_tables E db2 = (sql_tables E db1)\<lparr>tab_users := Some (unwrap_or (tab_users (sql_tables E db1)) [])\<rparr>"
    "execute E CreateSessionsTable db1 = (db2, Inr n) \<Longrightarrow>
       sql_tables E db2 = (sql_tables E db1)\<lparr>tab_sessions := Some (unwrap_or (tab_sessions (sql_tables E db1)) [])\<rparr>"
    for db1 db2 n
    by (erule execute_Inr, simp add: sql_apply.simps)+
  from assms show ?thesis
    by (auto simp: run_migrations_def try_then_Inr map_err_Inr dest!: create)
qed

end

lemma run_migrations_error: "run_migrations E db = (db', Inl e) \<Longrightarrow> \<exists>e'. e = DbSqlx e'"
  by (auto simp: run_migrations_def try_then_def map_err_def split: prod.splits sum.splits)

lemma map_of_list_items:
  assumes "tables_ok t" and "tab_items t = Some rows"
  shows "map_of (map (\<lambda>it. (item_id it, (item_name it, item_description it)))
      (map item_of_row (sort_key f rows))) = items_of t"
proof -
  have "map_of (map (\<lambda>r. (row_id r, (row_name r, row_description r))) (sort_key f rows)) =
      map_of (map (\<lambda>r. (row_id r, (row_name r, row_description r))) rows)"
    using assms by (subst map_of_inject_set)
      (auto simp: tables_ok_def comp_def distinct_map inj_on_def)
  then show ?thesis by (simp add: items_of_def assms(2) comp_def item_of_row_def)
qed

context database
begin

lemma create_item_case:
  "case create_item E uuid n d db of
     (db', Inr it) \<Rightarrow> it = \<lparr>item_id = uuid, item_name = n, item_description = d\<rparr> \<and>
       items_of (sql_tables E db) uuid = None \<and>
       items_of (sql_tables E db') = (items_of (sql_tables E db))(uuid \<mapsto> (n, d))
   | (db', Inl e) \<Rightarrow> items_of (sql_tables E db') \<in>
       {items_of (sql_tables E db), (items_of (sql_tables E db))(uuid \<mapsto> (n, d))}"
proof (cases "create_item E uuid n d db")
  case (Pair db' res)
  then show ?thesis
    using create_item_Inr [of uuid n d db db'] create_item_any [of uuid n d db db' res] by (cases res) simp_all
qed

lemma delete_item_case:
  "case delete_item E i db of
     (db', Inr b) \<Rightarrow> (b \<longleftrightarrow> items_of (sql_tables E db) i \<noteq> None) \<and>
       items_of (sql_tables E db') = (items_of (sql_tables E db))(i := None)
   | (db', Inl e) \<Rightarrow> items_of (sql_tables E db') \<in>
       {items_of (sql_tables E db), (items_of (sql_tables E db))(i := None)}"
proof (cases "delete_item E i db")
  case (Pair db' res)
  then show ?thesis
    using delete_item_Inr [of i db db'] delete_item_any [of i db db' res] by (cases res) simp_all
qed

lemma get_item_case:
  assumes "tables_ok (sql_tables E db)"
  shows "case get_item E i db of
     (db', Inr x) \<Rightarrow> sql_tables E db' = sql_tables E db \<and>
       x = map_option (\<lambda>(n, d). \<lparr>item_id = i, item_name = n, item_description = d\<rparr>)
         (items_of (sql_tables E db) i)
   | (db', Inl e) \<Rightarrow> sql_tables E db' = sql_tables E db"
proof (cases "get_item E i db")
  case (Pair db' res)
  then show ?thesis
    using get_item_Inr [of i db db'] get_item_pure [of i db db' res] assms by (cases res) simp_all
qed

lemma list_items_case:
  assumes "tables_ok (sql_tables E db)"
  shows "case list_items E db of
     (db', Inr xs) \<Rightarrow> sql_tables E db' = sql_tables E db \<and> distinct (map item_id xs) \<and>
       map_of (map (\<lambda>it. (item_id it, (item_name it, item_description it))) xs) = items_of (sql_tables E db) \<and>
       xs = map item_of_row (sort_key (\<lambda>r. (row_created_at r, row_id r))
         (unwrap_or (tab_items (sql_tables E db)) []))
   | (db', Inl e) \<Rightarrow> sql_tables E db' = sql_tables E db"
proof (cases "list_items E db")
  case (Pair db' res)
  show ?thesis
  proof (cases res)
    case (Inr xs)
    then obtain rows where rows: "tab_items (sql_tables E db) = Some rows"
        "xs = map item_of_row (sort_key (\<lambda>r. (row_created_at r, row_id r)) rows)"
      using Pair by (auto elim: list_items_Inr)
    have "map item_id xs = map row_id (sort_key (\<lambda>r. (row_created_at r, row_id r)) rows)"
      by (simp add: rows(2) item_of_row_def comp_def)
    then have "distinct (map item_id xs)"
      using assms rows(1) by (simp add: tables_ok_def distinct_map)
    then show ?thesis
      using Pair Inr rows list_items_pure [OF Pair] map_of_list_items [OF assms rows(1)]
      by (simp del: map_map)
  qed (use Pair list_items_pure [OF Pair] in simp)
qed

end

locale argon2_crate =
  fixes A :: "'ph argon2_lib"
  assumes hash_verifies: "argon2_hash_password A pw salt = Inr h \<Longrightarrow>
    \<exists>ph. argon2_parse_hash A h = Inr ph \<and> argon2_verify_password A pw ph"

text \<open>
  An instance of the argon2 interface on which the witnesses evaluate: the hash is the salt and the password in
  clear, and only a salt without the separator can be hashed with.
\<close>

definition clear_argon2 :: "string argon2_lib" where
  "clear_argon2 =
     \<lparr>argon2_hash_password = (\<lambda>pw salt. if CHR ''$'' \<in> set salt then Inl ''salt'' else Inr (salt @ CHR ''$'' # pw)),
      argon2_parse_hash = (\<lambda>h. case split_once CHR ''$'' h of None \<Rightarrow> Inl ''hash'' | Some (s, p) \<Rightarrow> Inr p),
      argon2_verify_password = (\<lambda>pw ph. pw = ph)\<rparr>"

interpretation clear_hash: argon2_crate clear_argon2
proof
  fix pw salt h
  have "split_once CHR ''$'' (salt @ CHR ''$'' # pw) = Some (salt, pw)" if "CHR ''$'' \<notin> set salt"
    using that by (simp add: split_once_Some_iff)
  then show "\<exists>ph. argon2_parse_hash clear_argon2 h = Inr ph \<and> argon2_verify_password clear_argon2 pw ph"
    if "argon2_hash_password clear_argon2 pw salt = Inr h"
    using that by (auto simp: clear_argon2_def split: if_splits)
qed

subsection \<open>Properties\<close>

definition empty_tables :: tables where
  "empty_tables = \<lparr>tab_items = Some [], tab_users = Some [], tab_sessions = Some []\<rparr>"

definition mem_pool :: "(string, tables \<times> nat) pool_lib" where
  "mem_pool =
     \<lparr>sqlite_options_from_str = Inr, sqlite_create_if_missing = id,
      sqlite_connect_with = (\<lambda>n opts. Inr (\<lparr>tab_items = None, tab_users = None, tab_sessions = None\<rparr>, 0)),
      pg_connect = (\<lambda>n url. Inl (Sqlx ''driver''))\<rparr>"

text \<open>
  C20: The items table behaves as a finite map from ids to name and description.  Creating an item
  that succeeds adds exactly the returned item under an id that was free; deleting removes the
  id and reports whether it was there; reading and listing change nothing, and return exactly the
  entry and exactly the entries in the map, the list by time of creation and then by id.  An operation that fails has either had its
  effect or none.
\<close>

theorem item_store_refines:
  assumes "database E" and "tables_ok (sql_tables E db)"
  shows "(case create_item E uuid n d db of
       (db', Inr it) \<Rightarrow> it = \<lparr>item_id = uuid, item_name = n, item_description = d\<rparr> \<and>
         items_of (sql_tables E db) uuid = None \<and>
         items_of (sql_tables E db') = (items_of (sql_tables E db))(uuid \<mapsto> (n, d))
     | (db', Inl e) \<Rightarrow> items_of (sql_tables E db') \<in>
         {items_of (sql_tables E db), (items_of (sql_tables E db))(uuid \<mapsto> (n, d))}) \<and>
    (case delete_item E i db of
       (db', Inr b) \<Rightarrow> (b \<longleftrightarrow> items_of (sql_tables E db) i \<noteq> None) \<and>
         items_of (sql_tables E db') = (items_of (sql_tables E db))(i := None)
     | (db', Inl e) \<Rightarrow> items_of (sql_tables E db') \<in>
         {items_of (sql_tables E db), (items_of (sql_tables E db))(i := None)}) \<and>
    (case get_item E i db of
       (db', Inr x) \<Rightarrow> sql_tables E db' = sql_tables E db \<and>
         x = map_option (\<lambda>(n, d). \<lparr>item_id = i, item_name = n, item_description = d\<rparr>)
           (items_of (sql_tables E db) i)
     | (db', Inl e) \<Rightarrow> sql_tables E db' = sql_tables E db) \<and>
    (case list_items E db of
       (db', Inr xs) \<Rightarrow> sql_tables E db' = sql_tables E db \<and> distinct (map item_id xs) \<and>
         map_of (map (\<lambda>it. (item_id it, (item_name it, item_description it))) xs) = items_of (sql_tables E db) \<and>
         xs = map item_of_row (sort_key (\<lambda>r. (row_created_at r, row_id r))
           (unwrap_or (tab_items (sql_tables E db)) []))
     | (db', Inl e) \<Rightarrow> sql_tables E db' = sql_tables E db)"
  by (intro conjI database.create_item_case [OF assms(1)] database.delete_item_case [OF assms(1)]
      database.get_item_case [OF assms] database.list_items_case [OF assms])

theorem item_store_refines_witness:
  "create_item mem_engine ''7'' ''n'' ''d'' (empty_tables, 0) =
     ((empty_tables\<lparr>tab_items := Some [\<lparr>row_id = ''7'', row_name = ''n'', row_description = ''d'', row_created_at = 0\<rparr>]\<rparr>, 1),
      Inr \<lparr>item_id = ''7'', item_name = ''n'', item_description = ''d''\<rparr>) \<and>
   items_of (empty_tables\<lparr>tab_items := Some [\<lparr>row_id = ''7'', row_name = ''n'', row_description = ''d'', row_created_at = 0\<rparr>]\<rparr>)
     = (items_of empty_tables)(''7'' \<mapsto> (''n'', ''d''))"
proof -
  have "create_item mem_engine ''7'' ''n'' ''d'' (empty_tables, 0) =
     ((empty_tables\<lparr>tab_items := Some [\<lparr>row_id = ''7'', row_name = ''n'', row_description = ''d'', row_created_at = 0\<rparr>]\<rparr>, 1),
      Inr \<lparr>item_id = ''7'', item_name = ''n'', item_description = ''d''\<rparr>)"
    by (simp add: create_item_def execute_def mem_run sql_apply.simps on_table_def empty_tables_def)
  moreover have "tables_ok (fst (empty_tables, 0 :: nat))" by (simp add: tables_ok_def empty_tables_def)
  ultimately show ?thesis
    using item_store_refines [OF mem.database_axioms, of "(empty_tables, 0)" "''7''" "''n''" "''d''" "''7''"]
    by simp
qed

text \<open>
  Bootstrapping the administrator.  When \<open>create_user_if_missing\<close> succeeds, an account that
  already existed keeps its stored hash, so the bootstrap password is not used again; a new
  account is one the bootstrap password opens.  No other account changes.
\<close>

lemma bootstrap_user:
  assumes "database E" and "argon2_crate A" and "tables_ok (sql_tables E db)"
    and "create_user_if_missing E A salt u pw db = (db', Inr ())"
    and "verify_user E A u pw db' = (db'', Inr b)"
  shows "(users_of (sql_tables E db) u \<noteq> None \<longrightarrow> users_of (sql_tables E db') = users_of (sql_tables E db)) \<and>
    (users_of (sql_tables E db) u = None \<longrightarrow> b) \<and>
    (\<forall>v. v \<noteq> u \<longrightarrow> users_of (sql_tables E db') v = users_of (sql_tables E db) v)"
proof -
  obtain h where h: "argon2_hash_password A pw salt = Inr h"
      "create_user_with_hash_if_missing E A u h db = (db', Inr ())"
    using assms(4) by (auto simp: create_user_if_missing_def split: sum.splits)
  obtain ph where ph: "argon2_parse_hash A h = Inr ph" "argon2_verify_password A pw ph"
    using argon2_crate.hash_verifies [OF assms(2) h(1)] by blast
  note users = database.create_user_with_hash_Inr [OF assms(1) h(2)]
  have "tables_ok (sql_tables E db')"
    using database.create_user_with_hash_ok [OF assms(1) h(2) assms(3)] .
  from database.verify_user_Inr [OF assms(1,5) this] ph users show ?thesis by auto
qed

text \<open>
  Start-up of the database.  A URL of the other backend is refused before anything is opened.  When
  \<open>init_pool\<close> succeeds, all three tables exist and every row that was in the opened database
  is still there.
\<close>

lemma init_pool_migrates:
  assumes "database E"
  shows "case init_pool P E postgres url n of
       Inl BackendMismatch \<Rightarrow> is_postgres url \<noteq> postgres
     | Inl (DbSqlx e) \<Rightarrow> is_postgres url = postgres
     | Inr db \<Rightarrow> is_postgres url = postgres \<and>
         (\<exists>db0. open_pool P postgres url n = Inr db0 \<and>
            tab_items (sql_tables E db) = Some (unwrap_or (tab_items (sql_tables E db0)) []) \<and>
            tab_users (sql_tables E db) = Some (unwrap_or (tab_users (sql_tables E db0)) []) \<and>
            tab_sessions (sql_tables E db) = Some (unwrap_or (tab_sessions (sql_tables E db0)) []))"
proof (cases "is_postgres url = postgres")
  case True
  show ?thesis
  proof (cases "open_pool P postgres url n")
    case (Inr db0)
    obtain db res where m: "run_migrations E db0 = (db, res)" by (cases "run_migrations E db0")
    show ?thesis
      using True Inr m database.run_migrations_Inr [OF assms, of db0 db] run_migrations_error [of E db0 db]
      by (cases res) (auto simp: init_pool_def split: db_error.split)
  qed (simp add: init_pool_def True)
qed (simp add: init_pool_def)

end
