(* ===== verification/Session.thy ===== *)
theory Session
  imports Database
begin

text \<open>
  \<^verbatim>\<open>src/session/mod.rs\<close>: browser sessions kept in the \<^verbatim>\<open>sessions\<close> table.

  The clock reading \<^verbatim>\<open>now_secs()\<close> (an \<^verbatim>\<open>i64\<close> of seconds, far below the range where adding the
  TTL could overflow) and the fresh UUIDs are arguments.
\<close>

definition SESSION_TTL_SECS :: int where
  "SESSION_TTL_SECS = 3600"

record session =
  username :: string
  csrf_token :: string

fun session_from_row :: "string list \<Rightarrow> sqlx_error + session" where
  "session_from_row [u, c] = Inr \<lparr>username = u, csrf_token = c\<rparr>"
| "session_from_row _ = Inl (Sqlx ''ColumnNotFound'')"

definition session_create ::
    "'db sql_engine \<Rightarrow> string \<Rightarrow> string \<Rightarrow> int \<Rightarrow> string \<Rightarrow> 'db \<Rightarrow> ('db, sqlx_error, string) db_result" where
  "session_create E token csrf now user db =
     try_then (execute E (InsertSession token user csrf (now + SESSION_TTL_SECS)) db) (\<lambda>_ db.
     (db, Inr token))"

definition session_get ::
    "'db sql_engine \<Rightarrow> int \<Rightarrow> string \<Rightarrow> 'db \<Rightarrow> ('db, sqlx_error, session option) db_result" where
  "session_get E now token db =
     try_then (fetch_optional E session_from_row (SelectSession token now) db) (\<lambda>found db.
     if found = None then
       try_then (execute E (DeleteSession token) db) (\<lambda>_ db. (db, Inr None))
     else
       try_then (execute E (UpdateSession (now + SESSION_TTL_SECS) token) db) (\<lambda>_ db.
       (db, Inr found)))"

definition session_remove :: "'db sql_engine \<Rightarrow> string \<Rightarrow> 'db \<Rightarrow> ('db, sqlx_error, unit) db_result" where
  "session_remove E token db = try_then (execute E (DeleteSession token) db) (\<lambda>_ db. (db, Inr ()))"

definition extract_session_cookie :: "string option \<Rightarrow> string option" where
  "extract_session_cookie cookie_header =
     Option.bind cookie_header (\<lambda>header.
       find_map (strip_prefix ''session='') (map trim (split_on CHR '';'' header)))"

subsection \<open>The contents of the table\<close>

definition sessions_of :: "tables \<Rightarrow> (string \<rightharpoonup> session \<times> int)" where
  "sessions_of t =
     map_of (map (\<lambda>r. (row_token r, (\<lparr>username = row_session_user r, csrf_token = row_csrf_token r\<rparr>,
       row_expires_at r))) (unwrap_or (tab_sessions t) []))"

lemma sessions_of_insert:
  assumes "sql_apply clock (InsertSession tok u c e) t = Some (t', reply)"
  shows "sessions_of t tok = None \<and>
    sessions_of t' = (sessions_of t)(tok \<mapsto> (\<lparr>username = u, csrf_token = c\<rparr>, e))"
  using assms
  by (auto simp: sessions_of_def sql_apply.simps on_table_eq_Some map_of_snoc map_of_key_None
      simp del: map_append split: if_splits)

lemma sessions_of_delete:
  assumes "sql_apply clock (DeleteSession tok) t = Some (t', reply)"
  shows "sessions_of t' = (sessions_of t)(tok := None)"
  using assms by (auto simp: sessions_of_def sql_apply.simps on_table_eq_Some map_of_filter_key)

lemma map_of_update_token:
  "map_of (map (\<lambda>r. (row_token r, (\<lparr>username = row_session_user r, csrf_token = row_csrf_token r\<rparr>, row_expires_at r)))
      (map (\<lambda>r. if row_token r = tok then r\<lparr>row_expires_at := e\<rparr> else r) rows)) x =
   map_option (\<lambda>(s, e'). (s, if x = tok then e else e'))
     (map_of (map (\<lambda>r. (row_token r, (\<lparr>username = row_session_user r, csrf_token = row_csrf_token r\<rparr>, row_expires_at r))) rows) x)"
  by (induction rows) auto

lemma sessions_of_update:
  assumes "sql_apply clock (UpdateSession e tok) t = Some (t', reply)"
  shows "sessions_of t' x = map_option (\<lambda>(s, e'). (s, if x = tok then e else e')) (sessions_of t x)"
  using assms
  by (auto simp: sessions_of_def sql_apply.simps on_table_eq_Some map_of_update_token simp del: map_map)

lemma sessions_of_select:
  assumes "sql_apply clock (SelectSession tok now) t = Some (t', reply)" and "tables_ok t"
  shows "t' = t \<and> reply_rows reply =
    (case sessions_of t tok of
       None \<Rightarrow> []
     | Some (s, e) \<Rightarrow> if now < e then [[username s, csrf_token s]] else [])"
proof -
  obtain rows where rows: "tab_sessions t = Some rows" "t' = t"
    "reply = Rows (map (\<lambda>r. [row_session_user r, row_csrf_token r])
       (filter (\<lambda>r. row_token r = tok \<and> now < row_expires_at r) rows))"
    using assms(1) by (auto simp: sql_apply.simps on_table_eq_Some)
  have "filter (\<lambda>r. row_token r = tok \<and> now < row_expires_at r) rows =
      filter (\<lambda>r. now < row_expires_at r) (filter (\<lambda>r. row_token r = tok) rows)"
    by (simp add: conj_commute)
  moreover have "distinct (map row_token rows)" using assms(2) rows by (simp add: tables_ok_def)
  moreover have "sessions_of t tok =
      map_option (\<lambda>r. (\<lparr>username = row_session_user r, csrf_token = row_csrf_token r\<rparr>, row_expires_at r))
        (map_of (map (\<lambda>r. (row_token r, r)) rows) tok)"
    by (simp add: sessions_of_def rows(1) map_of_map_snd [of row_token
          "\<lambda>r. (\<lparr>username = row_session_user r, csrf_token = row_csrf_token r\<rparr>, row_expires_at r)"])
  ultimately show ?thesis
    using rows(2,3) by (cases "map_of (map (\<lambda>r. (row_token r, r)) rows) tok") (simp_all add: filter_key)
qed

lemma session_stmt_frame:
  assumes "sql_apply clock st t = Some (t', reply)"
    and "st \<in> {InsertSession tok u c e, DeleteSession tok, UpdateSession e tok, SelectSession tok n}"
  shows "tab_items t' = tab_items t \<and> tab_users t' = tab_users t \<and>
    (\<forall>x. x \<noteq> tok \<longrightarrow> sessions_of t' x = sessions_of t x)"
proof -
  have "sessions_of t' x = sessions_of t x" if "x \<noteq> tok" for x
  proof -
    from assms(2) consider "st = InsertSession tok u c e" | "st = DeleteSession tok"
      | "st = UpdateSession e tok" | "st = SelectSession tok n" by auto
    then show ?thesis
    proof cases
      case 1
      with assms(1) that show ?thesis by (auto dest: sessions_of_insert)
    next
      case 2
      with assms(1) that show ?thesis by (auto dest: sessions_of_delete)
    next
      case 3
      with assms(1) that sessions_of_update [of clock e tok t t' reply x] show ?thesis
        by (cases "sessions_of t x") auto
    next
      case 4
      with assms(1) show ?thesis by (auto simp: sql_apply.simps on_table_eq_Some)
    qed
  qed
  moreover have "tab_items t' = tab_items t" and "tab_users t' = tab_users t"
    using sql_apply_frame(1,2) [OF assms(1)] assms(2) by auto
  ultimately show ?thesis by blast
qed

definition session_frame :: "string \<Rightarrow> tables \<Rightarrow> tables \<Rightarrow> bool" where
  "session_frame tok t t' \<longleftrightarrow> tab_items t' = tab_items t \<and> tab_users t' = tab_users t \<and>
     (\<forall>x. x \<noteq> tok \<longrightarrow> sessions_of t' x = sessions_of t x)"

lemma session_frame_trans: "session_frame tok t t' \<Longrightarrow> session_frame tok t' t'' \<Longrightarrow> session_frame tok t t''"
  by (simp add: session_frame_def)

context database
begin

lemma session_maybe_applied:
  assumes "maybe_applied E st db db'"
    and "st \<in> {InsertSession tok u c e, DeleteSession tok, UpdateSession e tok, SelectSession tok n}"
  shows "session_frame tok (sql_tables E db) (sql_tables E db')"
  using assms session_stmt_frame by (fastforce simp: maybe_applied_def session_frame_def)

lemma session_create_Inr:
  assumes "session_create E tok c now u db = (db', Inr tok')"
  shows "tok' = tok" and "sessions_of (sql_tables E db) tok = None"
    and "sessions_of (sql_tables E db') =
      (sessions_of (sql_tables E db))(tok \<mapsto> (\<lparr>username = u, csrf_token = c\<rparr>, now + SESSION_TTL_SECS))"
  using assms
  by (auto simp: session_create_def try_then_Inr elim!: execute_Inr dest: sessions_of_insert)

lemma session_get_frame:
  assumes "session_get E now tok db = (db', res)"
  shows "session_frame tok (sql_tables E db) (sql_tables E db') \<and>
    (tables_ok (sql_tables E db) \<longrightarrow> tables_ok (sql_tables E db'))"
proof -
  obtain db1 r where f: "fetch_optional E session_from_row (SelectSession tok now) db = (db1, r)"
    by (cases "fetch_optional E session_from_row (SelectSession tok now) db")
  have same: "sql_tables E db1 = sql_tables E db" using maybe_applied_select(5) [OF effect(2) [OF f]] .
  show ?thesis
  proof (cases r)
    case (Inl e)
    with assms f have "db' = db1" by (simp add: session_get_def)
    then show ?thesis using same by (simp add: session_frame_def)
  next
    case (Inr found)
    then have "fst (execute E (if found = None then DeleteSession tok
        else UpdateSession (now + SESSION_TTL_SECS) tok) db1) = db'"
      using assms f by (auto simp: session_get_def split: if_splits dest: try_then_return)
    then have "maybe_applied E (if found = None then DeleteSession tok
        else UpdateSession (now + SESSION_TTL_SECS) tok) db1 db'"
      by (intro effect(1)) (simp add: prod_eq_iff)
    then show ?thesis
      using same session_maybe_applied [of _ db1 db' tok] maybe_applied_ok [of _ db1 db']
      by (auto split: if_splits)
  qed
qed

lemma session_get_Inr:
  assumes get: "session_get E now tok db = (db', Inr found)" and ok: "tables_ok (sql_tables E db)"
  shows "found = (case sessions_of (sql_tables E db) tok of
      None \<Rightarrow> None | Some (s, e) \<Rightarrow> if now < e then Some s else None)"
    and "sessions_of (sql_tables E db') tok = map_option (\<lambda>s. (s, now + SESSION_TTL_SECS)) found"
proof -
  from get obtain db1 where f: "fetch_optional E session_from_row (SelectSession tok now) db = (db1, Inr found)"
    and rest: "(if found = None then try_then (execute E (DeleteSession tok) db1) (\<lambda>_ db. (db, Inr None))
      else try_then (execute E (UpdateSession (now + SESSION_TTL_SECS) tok) db1) (\<lambda>_ db. (db, Inr found)))
      = (db', Inr found)"
    by (auto simp: session_get_def try_then_Inr split: if_splits)
  have same: "sql_tables E db1 = sql_tables E db" using maybe_applied_select(5) [OF effect(2) [OF f]] .
  show found: "found = (case sessions_of (sql_tables E db) tok of
      None \<Rightarrow> None | Some (s, e) \<Rightarrow> if now < e then Some s else None)"
    using f
    by (elim fetch_optional_Inr)
      (use sessions_of_select [OF _ ok] in \<open>fastforce split: option.splits if_splits\<close>)
  show "sessions_of (sql_tables E db') tok = map_option (\<lambda>s. (s, now + SESSION_TTL_SECS)) found"
  proof (cases found)
    case None
    then show ?thesis
      using rest by (auto simp: try_then_Inr elim!: execute_Inr dest!: sessions_of_delete)
  next
    case (Some s)
    then obtain e where e: "sessions_of (sql_tables E db) tok = Some (s, e)"
      using found by (auto split: option.splits if_splits)
    from Some rest obtain clock reply where
      "sql_apply clock (UpdateSession (now + SESSION_TTL_SECS) tok) (sql_tables E db1) = Some (sql_tables E db', reply)"
      by (auto simp: try_then_Inr elim!: execute_Inr)
    from sessions_of_update [OF this, of tok] show ?thesis by (simp add: Some same e)
  qed
qed

lemma session_remove_Inr:
  assumes "session_remove E tok db = (db', Inr ())"
  shows "sessions_of (sql_tables E db') = (sessions_of (sql_tables E db))(tok := None)"
  using assms by (auto simp: session_remove_def try_then_Inr elim!: execute_Inr dest!: sessions_of_delete)

end

subsection \<open>The life of a session\<close>

text \<open>
  \<open>session_gets\<close> looks a token up at a list of times, \<^const>\<open>None\<close> when the database fails;
  \<open>sliding\<close> is the specification: the session is there as long as every look-up comes less than
  the TTL after the one before it, and never again after that.
\<close>

fun session_gets :: "'db sql_engine \<Rightarrow> string \<Rightarrow> int list \<Rightarrow> 'db \<Rightarrow> session option list option" where
  "session_gets E tok [] db = Some []"
| "session_gets E tok (t # ts) db =
     (case session_get E t tok db of
        (db', Inl e) \<Rightarrow> None
      | (db', Inr found) \<Rightarrow> map_option (Cons found) (session_gets E tok ts db'))"

fun sliding :: "session \<Rightarrow> int \<Rightarrow> int list \<Rightarrow> session option list" where
  "sliding s prev [] = []"
| "sliding s prev (t # ts) =
     (if t < prev + SESSION_TTL_SECS then Some s # sliding s t ts
      else replicate (Suc (length ts)) None)"

context database
begin

lemma session_gets_none:
  assumes "sessions_of (sql_tables E db) tok = None" and "tables_ok (sql_tables E db)"
    and "session_gets E tok ts db = Some rs"
  shows "rs = replicate (length ts) None"
  using assms
proof (induction ts arbitrary: db rs)
  case (Cons t ts)
  then obtain db' found rs' where g: "session_get E t tok db = (db', Inr found)"
      "session_gets E tok ts db' = Some rs'" "rs = found # rs'"
    by (auto split: prod.splits sum.splits)
  then show ?case
    using Cons.IH [of db' rs'] session_get_Inr [OF g(1) Cons.prems(2)] session_get_frame [OF g(1)] Cons.prems
    by simp
qed simp

lemma session_gets_sliding:
  assumes "sessions_of (sql_tables E db) tok = Some (s, prev + SESSION_TTL_SECS)"
    and "tables_ok (sql_tables E db)" and "session_gets E tok ts db = Some rs"
  shows "rs = sliding s prev ts"
  using assms
proof (induction ts arbitrary: db rs prev)
  case (Cons t ts)
  then obtain db' found rs' where g: "session_get E t tok db = (db', Inr found)"
      "session_gets E tok ts db' = Some rs'" "rs = found # rs'"
    by (auto split: prod.splits sum.splits)
  have ok: "tables_ok (sql_tables E db')" using session_get_frame [OF g(1)] Cons.prems by simp
  note get = session_get_Inr [OF g(1) Cons.prems(2)]
  show ?case
  proof (cases "t < prev + SESSION_TTL_SECS")
    case True
    then show ?thesis using get Cons.IH [of db' t rs'] Cons.prems g ok by simp
  next
    case False
    then show ?thesis using get session_gets_none [of db' tok ts rs'] Cons.prems g ok by simp
  qed
qed simp

end

text \<open>
  Looking a session up.  On success the answer is the stored session exactly when it exists
  and has not expired, a live session's expiry moves to one TTL from now, and an expired record
  is gone afterwards.  Whatever the outcome, database errors included, items, users and every
  other session are untouched.
\<close>

lemma session_get_correct:
  assumes "database E" and "tables_ok (sql_tables E db)"
  shows "case session_get E now tok db of
      (db', res) \<Rightarrow>
        tab_items (sql_tables E db') = tab_items (sql_tables E db) \<and>
        tab_users (sql_tables E db') = tab_users (sql_tables E db) \<and>
        (\<forall>x. x \<noteq> tok \<longrightarrow> sessions_of (sql_tables E db') x = sessions_of (sql_tables E db) x) \<and>
        (case res of
           Inl e \<Rightarrow> True
         | Inr found \<Rightarrow>
             found = (case sessions_of (sql_tables E db) tok of
               None \<Rightarrow> None | Some (s, e) \<Rightarrow> if now < e then Some s else None) \<and>
             sessions_of (sql_tables E db') tok = map_option (\<lambda>s. (s, now + SESSION_TTL_SECS)) found)"
proof (cases "session_get E now tok db")
  case (Pair db' res)
  then show ?thesis
    using database.session_get_frame [OF assms(1) Pair] database.session_get_Inr [OF assms(1) _ assms(2)]
    by (cases res) (simp_all add: session_frame_def)
qed

text \<open>
  C25: Sliding expiry.  From a successful login on, the look-ups of a session (with a database that
  answers) find it exactly as long as no gap between two of them, or between the login and the
  first, reaches the TTL; after one such gap the token is dead for good.
\<close>

theorem session_sliding_expiry:
  assumes "database E" and "tables_ok (sql_tables E db)"
    and "session_create E tok csrf t0 user db = (db', Inr tok')"
    and "session_gets E tok' ts db' = Some rs"
  shows "rs = sliding \<lparr>username = user, csrf_token = csrf\<rparr> t0 ts"
proof -
  note create = database.session_create_Inr [OF assms(1,3)]
  have "fst (execute E (InsertSession tok user csrf (t0 + SESSION_TTL_SECS)) db) = db'"
    using assms(3) by (auto simp: session_create_def dest: try_then_return)
  then have "maybe_applied E (InsertSession tok user csrf (t0 + SESSION_TTL_SECS)) db db'"
    by (intro database.effect(1) [OF assms(1)]) (simp add: prod_eq_iff)
  then have "tables_ok (sql_tables E db')"
    using database.maybe_applied_ok [OF assms(1)] assms(2) by blast
  then show ?thesis
    using database.session_gets_sliding [OF assms(1), of db' tok _ t0 ts rs] create assms(4) by simp
qed

theorem session_sliding_expiry_witness:
  "\<exists>db' rs. session_create mem_engine ''t'' ''c'' 0 ''u'' (empty_tables, 0) = (db', Inr ''t'') \<and>
     session_gets mem_engine ''t'' [3599, 7198, 10798, 10799] db' = Some rs \<and>
     rs = [Some \<lparr>username = ''u'', csrf_token = ''c''\<rparr>, Some \<lparr>username = ''u'', csrf_token = ''c''\<rparr>, None, None]"
proof -
  obtain db' where c: "session_create mem_engine ''t'' ''c'' 0 ''u'' (empty_tables, 0) = (db', Inr ''t'')"
    and db': "db' = (empty_tables\<lparr>tab_sessions := Some [\<lparr>row_token = ''t'', row_session_user = ''u'', row_csrf_token = ''c'', row_expires_at = 3600\<rparr>]\<rparr>, 1)"
    by (simp add: session_create_def execute_def mem_run sql_apply.simps on_table_def empty_tables_def SESSION_TTL_SECS_def)
  have "\<exists>rs. session_gets mem_engine ''t'' [3599, 7198, 10798, 10799] db' = Some rs"
    by (simp add: db' session_get_def fetch_optional_def execute_def mem_run sql_apply.simps on_table_def
        empty_tables_def SESSION_TTL_SECS_def)
  then obtain rs where g: "session_gets mem_engine ''t'' [3599, 7198, 10798, 10799] db' = Some rs" ..
  have "tables_ok (sql_tables mem_engine (empty_tables, 0))" by (simp add: tables_ok_def empty_tables_def)
  from session_sliding_expiry [OF mem.database_axioms this c g] c g show ?thesis
    by (auto simp: SESSION_TTL_SECS_def)
qed

end
