(* ===== verification/Templates.thy ===== *)
theory Templates
  imports Response Database
begin

text \<open>
  \<^verbatim>\<open>src/templates/mod.rs\<close>: the template engine.  Tera is a parameter: \<open>tera_new\<close> compiles the
  templates that match a glob, \<open>tera_render\<close> renders one in a context.  A \<^verbatim>\<open>tera::Context\<close> is a
  map from names to the values the handlers insert.
\<close>

datatype ctx_value = CtxText string | CtxItems "item list" | CtxCount "64 word"

type_synonym context_map = "string \<rightharpoonup> ctx_value"

record 't tera_lib =
  tera_new :: "string \<Rightarrow> string + 't"
  tera_render :: "'t \<Rightarrow> string \<Rightarrow> context_map \<Rightarrow> string + string"

definition template_engine_new :: "'t tera_lib \<Rightarrow> string \<Rightarrow> 't option" where
  "template_engine_new T template_dir =
     (case tera_new T (template_dir @ ''/**/*.html'') of Inr tera \<Rightarrow> Some tera | Inl e \<Rightarrow> None)"

definition html_type :: string where
  "html_type = ''text/html; charset=utf-8''"

definition quoted :: "string \<Rightarrow> string" where
  "quoted s = [CHR 0x27] @ s @ [CHR 0x27]"

definition CSP :: string where
  "CSP =
     ''default-src '' @ quoted ''self'' @ ''; style-src '' @ quoted ''self'' @ '' '' @ quoted ''unsafe-inline'' @
     ''; base-uri '' @ quoted ''self'' @ ''; form-action '' @ quoted ''self'' @
     ''; frame-ancestors '' @ quoted ''none''"

definition template_render ::
    "'h http_lib \<Rightarrow> 't tera_lib \<Rightarrow> 't \<Rightarrow> string \<Rightarrow> context_map \<Rightarrow> 'h http_response" where
  "template_render L T tera template_name ctx =
     (case tera_render T tera template_name ctx of
        Inr html \<Rightarrow>
          rb_text L html
            (rb_header ''referrer-policy'' ''no-referrer''
            (rb_header ''x-frame-options'' ''DENY''
            (rb_header ''x-content-type-options'' ''nosniff''
            (rb_header ''content-security-policy'' CSP
            (rb_header ''content-type'' html_type ok)))))
      | Inl e \<Rightarrow>
          rb_text L (''<h1>500 Internal Server Error</h1><pre>'' @ e @ ''</pre>'')
            (rb_header ''content-type'' html_type internal_error))"

subsection \<open>Properties\<close>

lemma template_headers_ok:
  "list_all header_ok
     [(''content-type'', html_type), (''content-security-policy'', CSP), (''x-content-type-options'', ''nosniff''),
      (''x-frame-options'', ''DENY''), (''referrer-policy'', ''no-referrer'')]"
  by (simp add: header_ok_def header_name_ok_def token_char_def html_type_def CSP_def quoted_def)

text \<open>
  C40: Rendered pages.  A page that renders is a \<open>200\<close> with the rendered text and the security
  headers (content security policy, no sniffing, no framing, no referrer); one that does not is a \<open>500\<close>.  In both
  cases the response carries two \<open>content-type\<close> values: the plain-text one of the
  builder comes first, so it is the one a header look-up returns, and the HTML type second.
\<close>

theorem template_response:
  assumes "http_crate L"
  shows "let resp = template_render L T tera name ctx; h = resp_headers resp in
    hm_get_all L h ''content-type'' = [text_plain, html_type] \<and>
    hm_get L h ''content-type'' = Some text_plain \<and>
    (case tera_render T tera name ctx of
       Inr html \<Rightarrow> resp_status resp = 200 \<and> resp_body resp = html \<and>
         hm_get_all L h ''content-security-policy'' = [CSP] \<and>
         hm_get_all L h ''x-content-type-options'' = [''nosniff''] \<and>
         hm_get_all L h ''x-frame-options'' = [''DENY''] \<and>
         hm_get_all L h ''referrer-policy'' = [''no-referrer'']
     | Inl e \<Rightarrow> resp_status resp = 500)"
proof -
  note eqs = http_crate.build_ok_eq [OF assms text_plain_ok(1)]
  show ?thesis
    using template_headers_ok
    by (cases "tera_render T tera name ctx")
      (simp_all add: template_render_def Let_def rb_text_def builder_defs eqs http_crate.get_first [OF assms]
        builder_headers_def values_of_def lowercase_def ascii_lower_def)
qed

definition fixed_tera :: "string \<Rightarrow> unit tera_lib" where
  "fixed_tera html = \<lparr>tera_new = (\<lambda>_. Inr ()), tera_render = (\<lambda>_ _ _. Inr html)\<rparr>"

theorem template_response_witness:
  "hm_get alist_http (resp_headers (template_render alist_http (fixed_tera ''<p>'') () ''index.html'' Map.empty)) ''content-type''
     = Some text_plain"
  using template_response [OF alist.http_crate_axioms, of "fixed_tera ''<p>''" "()" "''index.html''" Map.empty]
  by (simp add: Let_def)

end
