(* ===== verification/Metrics.thy ===== *)
theory Metrics
  imports Prelude
begin

text \<open>
  \<^verbatim>\<open>src/metrics.rs\<close>: the server's counters and their Prometheus rendering.

  Each \<^verbatim>\<open>AtomicU64\<close> is a 64-bit word, so increments wrap as \<^verbatim>\<open>fetch_add\<close> does.
\<close>

record metrics =
  requests_total :: "64 word"
  requests_active :: "64 word"
  responses_2xx :: "64 word"
  responses_4xx :: "64 word"
  responses_5xx :: "64 word"
  rate_limited :: "64 word"
  concurrency_limited :: "64 word"
  timed_out :: "64 word"
  connections_accepted :: "64 word"
  connections_rejected_ip :: "64 word"

definition metrics_new :: metrics where
  "metrics_new =
     \<lparr>requests_total = 0, requests_active = 0, responses_2xx = 0, responses_4xx = 0,
      responses_5xx = 0, rate_limited = 0, concurrency_limited = 0, timed_out = 0,
      connections_accepted = 0, connections_rejected_ip = 0\<rparr>"

definition gauge :: "string \<Rightarrow> string \<Rightarrow> 64 word \<Rightarrow> string \<Rightarrow> string" where
  "gauge name desc val out =
     out @ (''# HELP '' @ name @ '' '' @ desc @ newline) @ (''# TYPE '' @ name @ '' gauge'' @ newline)
     @ (name @ '' '' @ show_nat (unat val) @ newline)"

definition counter :: "string \<Rightarrow> string \<Rightarrow> 64 word \<Rightarrow> string \<Rightarrow> string" where
  "counter name desc val out =
     out @ (''# HELP '' @ name @ '' '' @ desc @ newline) @ (''# TYPE '' @ name @ '' counter'' @ newline)
     @ (name @ ''_total '' @ show_nat (unat val) @ newline)"

definition render :: "metrics \<Rightarrow> string" where
  "render m =
     (let out = [];
          out = counter ''requests'' ''Total HTTP requests received.'' (requests_total m) out;
          out = gauge ''requests_active'' ''HTTP requests currently in-flight.'' (requests_active m) out;
          out = counter ''responses_2xx'' ''Responses with a 2xx status code.'' (responses_2xx m) out;
          out = counter ''responses_4xx'' ''Responses with a 4xx status code.'' (responses_4xx m) out;
          out = counter ''responses_5xx'' ''Responses with a 5xx status code.'' (responses_5xx m) out;
          out = counter ''rate_limited'' ''Requests rejected by the rate limiter (429).'' (rate_limited m) out;
          out = counter ''concurrency_limited'' ''Requests rejected by the concurrency limiter (503).''
                  (concurrency_limited m) out;
          out = counter ''timed_out'' ''Requests that exceeded the per-request processing timeout.''
                  (timed_out m) out;
          out = counter ''connections_accepted'' ''Total TCP connections accepted.''
                  (connections_accepted m) out;
          out = counter ''connections_rejected_ip'' ''Connections dropped by the IP filter.''
                  (connections_rejected_ip m) out
      in out)"

subsection \<open>Scraping\<close>

text \<open>
  A reader of the exposition format, for the specification: every line that is neither empty nor a
  comment is a metric name, a space and a value.
\<close>

definition parse_sample :: "string \<Rightarrow> (string \<times> nat) option" where
  "parse_sample line =
     (if line = [] \<or> starts_with ''#'' line then None
      else (case split_once CHR '' '' line of
              None \<Rightarrow> None
            | Some (name, v) \<Rightarrow> map_option (Pair name) (parse_unsigned 64 v)))"

definition scrape :: "string \<Rightarrow> (string \<times> nat) list" where
  "scrape text = filter_map parse_sample (split_on CHR 0x0A text)"

lemma split_on_append_line: "CHR 0x0A \<notin> set l \<Longrightarrow> split_on CHR 0x0A (l @ newline @ rest) = l # split_on CHR 0x0A rest"
  using split_on_append [of "CHR 0x0A" l rest] by simp

lemma scrape_line:
  "CHR 0x0A \<notin> set l \<Longrightarrow>
   scrape (l @ newline @ rest) = (case parse_sample l of None \<Rightarrow> [] | Some s \<Rightarrow> [s]) @ scrape rest"
  using split_on_append_line [of l rest] by (simp add: scrape_def split: option.split)

lemma show_nat_no_newline: "CHR 0x0A \<notin> set (show_nat n)"
  using show_nat_digits [of "CHR 0x0A" n] by (auto simp: digit_value_def)

lemma parse_sample_value:
  assumes "name \<noteq> []" and "CHR '' '' \<notin> set name" and "hd name \<noteq> CHR ''#''"
  shows "parse_sample (name @ '' '' @ show_nat (unat (v :: 64 word))) = Some (name, unat v)"
proof -
  have "\<not> starts_with ''#'' (name @ '' '' @ show_nat (unat v))"
    using assms by (cases name) (auto simp: starts_with_iff)
  moreover have "split_once CHR '' '' (name @ CHR '' '' # show_nat (unat v)) = Some (name, show_nat (unat v))"
    using assms(2) by (simp add: split_once_Some_iff)
  moreover have "unat v < 2 ^ 64" using unsigned_less [of v] by simp
  ultimately show ?thesis
    using assms(1) by (simp add: parse_sample_def parse_unsigned_show_nat)
qed

lemma parse_sample_comment: "parse_sample (CHR ''#'' # l) = None"
  by (simp add: parse_sample_def starts_with_iff)

definition sample_name_ok :: "string \<Rightarrow> bool" where
  "sample_name_ok name \<longleftrightarrow>
     name \<noteq> [] \<and> CHR '' '' \<notin> set name \<and> hd name \<noteq> CHR ''#'' \<and> CHR 0x0A \<notin> set name"

lemma scrape_family:
  assumes "sample_name_ok sname" and "CHR 0x0A \<notin> set name" and "CHR 0x0A \<notin> set desc" and "CHR 0x0A \<notin> set kind"
  shows "scrape ((''# HELP '' @ name @ '' '' @ desc) @ newline @ ((''# TYPE '' @ name @ kind) @ newline
    @ ((sname @ '' '' @ show_nat (unat (v :: 64 word))) @ newline @ rest))) = (sname, unat v) # scrape rest"
proof -
  have h: "scrape ((''# HELP '' @ name @ '' '' @ desc) @ newline @ r) = scrape r" for r
    using assms by (subst scrape_line) (auto simp: parse_sample_comment)
  have t: "scrape ((''# TYPE '' @ name @ kind) @ newline @ r) = scrape r" for r
    using assms by (subst scrape_line) (auto simp: parse_sample_comment)
  have "parse_sample (sname @ '' '' @ show_nat (unat v)) = Some (sname, unat v)"
    using assms(1) by (intro parse_sample_value) (simp_all add: sample_name_ok_def)
  then have "scrape ((sname @ '' '' @ show_nat (unat v)) @ newline @ rest) = (sname, unat v) # scrape rest"
    using assms(1) by (subst scrape_line) (auto simp: sample_name_ok_def show_nat_no_newline)
  then show ?thesis by (simp only: h t)
qed

lemma scrape_counter:
  assumes "sample_name_ok (name @ ''_total'')" and "CHR 0x0A \<notin> set desc"
  shows "scrape (counter name desc v [] @ rest) = (name @ ''_total'', unat v) # scrape rest"
  using scrape_family [of "name @ ''_total''" name desc "'' counter''" v rest] assms
  by (simp add: counter_def sample_name_ok_def)

lemma scrape_gauge:
  assumes "sample_name_ok name" and "CHR 0x0A \<notin> set desc"
  shows "scrape (gauge name desc v [] @ rest) = (name, unat v) # scrape rest"
  using scrape_family [of name name desc "'' gauge''" v rest] assms
  by (simp add: gauge_def sample_name_ok_def)

lemma scrape_nil: "scrape [] = []"
  by (simp add: scrape_def parse_sample_def)

lemma split_on_append_gen: "split_on c (a @ c # b) = split_on c a @ split_on c b"
  by (induction a) (auto split: list.split)

definition whole_lines :: "string \<Rightarrow> bool" where
  "whole_lines out \<longleftrightarrow> out = [] \<or> last out = CHR 0x0A"

lemma scrape_append:
  assumes "whole_lines out"
  shows "scrape (out @ b) = scrape out @ scrape b"
proof (cases "out = []")
  case False
  with assms obtain a where "out = a @ newline"
    by (cases out rule: rev_cases) (auto simp: whole_lines_def)
  then show ?thesis
    using split_on_append_gen [of "CHR 0x0A" a b] split_on_append_gen [of "CHR 0x0A" a "[]"]
    by (simp add: scrape_def parse_sample_def filter_map_append)
qed (simp add: scrape_def parse_sample_def)

lemma whole_lines_family [simp]:
  "whole_lines []" "whole_lines (counter name desc v out)" "whole_lines (gauge name desc v out)"
  by (simp_all add: whole_lines_def counter_def gauge_def)

lemma scrape_families:
  assumes "whole_lines out"
  shows "sample_name_ok (name @ ''_total'') \<Longrightarrow> CHR 0x0A \<notin> set desc \<Longrightarrow>
      scrape (counter name desc v out) = scrape out @ [(name @ ''_total'', unat v)]"
    and "sample_name_ok name \<Longrightarrow> CHR 0x0A \<notin> set desc \<Longrightarrow>
      scrape (gauge name desc v out) = scrape out @ [(name, unat v)]"
  using scrape_append [OF assms, of "counter name desc v []"] scrape_append [OF assms, of "gauge name desc v []"]
    scrape_counter [of name desc v "[]"] scrape_gauge [of name desc v "[]"]
  by (simp_all add: counter_def gauge_def scrape_nil)

text \<open>
  C39: What Prometheus reads.  Scraping the rendered text yields exactly the ten metrics under
  their documented names, in order, with the current values of the counters.
\<close>

theorem scrape_render:
  "scrape (render m) =
     [(''requests_total'', unat (requests_total m)), (''requests_active'', unat (requests_active m)),
      (''responses_2xx_total'', unat (responses_2xx m)), (''responses_4xx_total'', unat (responses_4xx m)),
      (''responses_5xx_total'', unat (responses_5xx m)), (''rate_limited_total'', unat (rate_limited m)),
      (''concurrency_limited_total'', unat (concurrency_limited m)), (''timed_out_total'', unat (timed_out m)),
      (''connections_accepted_total'', unat (connections_accepted m)),
      (''connections_rejected_ip_total'', unat (connections_rejected_ip m))]"
  by (simp add: render_def Let_def scrape_families scrape_nil sample_name_ok_def)

end
