(* ===== verification/Paths.thy ===== *)
theory Paths
  imports Prelude
begin

text \<open>
  The part of \<^verbatim>\<open>std::path\<close> (on Unix) that \<^verbatim>\<open>src/static_files\<close> uses.  A path is a string.
  \<open>components\<close> is \<^verbatim>\<open>Path::components\<close>, which drops repeated separators and every \<^verbatim>\<open>.\<close> except one
  at the start of a relative path; \<open>path_push\<close> is \<^verbatim>\<open>PathBuf::push\<close> and \<^verbatim>\<open>Path::join\<close>; \<open>extension\<close>
  is \<^verbatim>\<open>Path::extension\<close>.
\<close>

datatype component = RootDir | CurDir | ParentDir | Normal string

fun body_components :: "string list \<Rightarrow> component list" where
  "body_components [] = []"
| "body_components (s # ss) =
     (if s = [] \<or> s = ''.'' then body_components ss
      else if s = ''..'' then ParentDir # body_components ss
      else Normal s # body_components ss)"

definition components :: "string \<Rightarrow> component list" where
  "components p =
     (let parts = split_on CHR ''/'' p in
      if starts_with ''/'' p then RootDir # body_components parts
      else if hd parts = ''.'' then CurDir # body_components (tl parts)
      else body_components parts)"

definition path_push :: "string \<Rightarrow> string \<Rightarrow> string" where
  "path_push buf p =
     (if starts_with ''/'' p then p
      else if buf \<noteq> [] \<and> last buf \<noteq> CHR ''/'' then buf @ CHR ''/'' # p
      else buf @ p)"

definition rsplit_once :: "char \<Rightarrow> string \<Rightarrow> (string \<times> string) option" where
  "rsplit_once c s =
     (if c \<in> set s then
        Some (rev (tl (dropWhile (\<lambda>x. x \<noteq> c) (rev s))), rev (takeWhile (\<lambda>x. x \<noteq> c) (rev s)))
      else None)"

definition file_name :: "string \<Rightarrow> string option" where
  "file_name p =
     (if components p = [] then None
      else (case last (components p) of Normal s \<Rightarrow> Some s | _ \<Rightarrow> None))"

definition extension :: "string \<Rightarrow> string option" where
  "extension p =
     Option.bind (file_name p) (\<lambda>f.
       case rsplit_once CHR ''.'' f of
         None \<Rightarrow> None
       | Some (before, after) \<Rightarrow> if before = [] then None else Some after)"

subsection \<open>Paths of normal segments\<close>

definition normal_segment :: "string \<Rightarrow> bool" where
  "normal_segment s \<longleftrightarrow> s \<noteq> [] \<and> s \<noteq> ''.'' \<and> s \<noteq> ''..'' \<and> CHR ''/'' \<notin> set s"

definition join_segments :: "string list \<Rightarrow> string" where
  "join_segments segs = join ''/'' segs"

lemma rsplit_once_snoc: "c \<notin> set b \<Longrightarrow> rsplit_once c (a @ c # b) = Some (a, b)"
  by (simp add: rsplit_once_def takeWhile_append dropWhile_append)

lemma body_components_append: "body_components (a @ b) = body_components a @ body_components b"
  by (induction a) auto

lemma body_components_normal:
  "list_all normal_segment segs \<Longrightarrow> body_components segs = map Normal segs"
  by (induction segs) (auto simp: normal_segment_def)

lemma body_components_filter:
  "ParentDir \<notin> set (body_components ss) \<Longrightarrow>
   body_components ss = map Normal (filter (\<lambda>s. s \<noteq> [] \<and> s \<noteq> ''.'') ss)"
  by (induction ss) (auto split: if_splits)

lemma ParentDir_body: "ParentDir \<in> set (body_components ss) \<longleftrightarrow> ''..'' \<in> set ss"
  by (induction ss) auto

end
