(* ===== verification/Static_Files.thy ===== *)
theory Static_Files
  imports Paths Response
begin

text \<open>
  \<^verbatim>\<open>src/static_files/mod.rs\<close> and \<^verbatim>\<open>src/static_files/mime.rs\<close>: serving files below a base
  directory.

  The file system is a parameter: the results of \<^verbatim>\<open>fs::metadata\<close> (whether the path is a
  directory), \<^verbatim>\<open>File::open\<close>, \<^verbatim>\<open>File::metadata\<close> (the length) and of reading the chunks of an open
  file.  The body of the response is the concatenation of the chunks read without an error, as
  the stream yields them.
\<close>

definition ext_in :: "string option \<Rightarrow> string list \<Rightarrow> bool" where
  "ext_in e xs \<longleftrightarrow> (case e of None \<Rightarrow> False | Some x \<Rightarrow> x \<in> set xs)"

definition mime_from_path :: "string \<Rightarrow> string" where
  "mime_from_path p =
     (let e = extension p in
      if ext_in e [''html'', ''htm''] then ''text/html; charset=utf-8''
      else if ext_in e [''css''] then ''text/css; charset=utf-8''
      else if ext_in e [''js'', ''mjs''] then ''application/javascript; charset=utf-8''
      else if ext_in e [''json''] then ''application/json''
      else if ext_in e [''png''] then ''image/png''
      else if ext_in e [''jpg'', ''jpeg''] then ''image/jpeg''
      else if ext_in e [''gif''] then ''image/gif''
      else if ext_in e [''svg''] then ''image/svg+xml''
      else if ext_in e [''ico''] then ''image/x-icon''
      else if ext_in e [''txt'', ''md''] then ''text/plain; charset=utf-8''
      else if ext_in e [''pdf''] then ''application/pdf''
      else if ext_in e [''wasm''] then ''application/wasm''
      else if ext_in e [''xml''] then ''application/xml; charset=utf-8''
      else if ext_in e [''webp''] then ''image/webp''
      else if ext_in e [''mp4''] then ''video/mp4''
      else if ext_in e [''mp3''] then ''audio/mpeg''
      else if ext_in e [''ogg''] then ''audio/ogg''
      else if ext_in e [''webm''] then ''video/webm''
      else if ext_in e [''ttf'', ''otf''] then ''font/ttf''
      else if ext_in e [''woff''] then ''font/woff''
      else if ext_in e [''woff2''] then ''font/woff2''
      else if ext_in e [''zip''] then ''application/zip''
      else ''application/octet-stream'')"

datatype io_error = NotFound | OtherIo string

record 'f file_system =
  fs_metadata_is_dir :: "string \<Rightarrow> io_error + bool"
  fs_open :: "string \<Rightarrow> io_error + 'f"
  fs_len :: "'f \<Rightarrow> io_error + nat"
  fs_chunks :: "'f \<Rightarrow> (io_error + string) list"

fun sanitize_loop :: "string \<Rightarrow> component list \<Rightarrow> string option" where
  "sanitize_loop result [] = Some result"
| "sanitize_loop result (Normal seg # cs) = sanitize_loop (path_push result seg) cs"
| "sanitize_loop result (CurDir # cs) = sanitize_loop result cs"
| "sanitize_loop result (_ # cs) = None"

definition sanitize_path :: "string \<Rightarrow> string option" where
  "sanitize_path p = sanitize_loop [] (components p)"

definition stream_chunks :: "(io_error + string) list \<Rightarrow> string" where
  "stream_chunks chunks = concat (filter_map (\<lambda>r. case r of Inr c \<Rightarrow> Some c | Inl e \<Rightarrow> None) chunks)"

definition io_failure :: "'h http_lib \<Rightarrow> io_error \<Rightarrow> 'h http_response" where
  "io_failure L e =
     (if e = NotFound then rb_text L (''404 Not Found'' @ newline) not_found
      else rb_text L (''500 Internal Server Error'' @ newline) internal_error)"

definition serve_file :: "'h http_lib \<Rightarrow> 'f file_system \<Rightarrow> string \<Rightarrow> string \<Rightarrow> 'h http_response" where
  "serve_file L fs base_dir req_path =
     (case sanitize_path req_path of
        None \<Rightarrow> rb_text L (''403 Forbidden'' @ newline) (rb_new 403)
      | Some safe_path \<Rightarrow>
          (let target = path_push base_dir safe_path in
           case fs_metadata_is_dir fs target of
             Inl e \<Rightarrow> io_failure L e
           | Inr is_dir \<Rightarrow>
               (let file_path = (if is_dir then path_push target ''index.html'' else target) in
                case fs_open fs file_path of
                  Inl e \<Rightarrow> io_failure L e
                | Inr file \<Rightarrow>
                    (case fs_len fs file of
                       Inl e \<Rightarrow> rb_text L (''500 Internal Server Error'' @ newline) internal_error
                     | Inr file_size \<Rightarrow>
                         stream_body L (mime_from_path file_path)
                           (stream_chunks (fs_chunks fs file)) file_size ok))))"

subsection \<open>Sanitised paths\<close>

lemma starts_with_slash: "starts_with ''/'' p \<longleftrightarrow> (\<exists>q. p = CHR ''/'' # q)"
  by (auto simp: starts_with_iff)

lemma normal_segment_facts:
  assumes "normal_segment s"
  shows "s \<noteq> []" and "\<not> starts_with ''/'' s" and "last s \<noteq> CHR ''/''"
proof -
  show "s \<noteq> []" and "\<not> starts_with ''/'' s"
    using assms by (auto simp: normal_segment_def starts_with_slash)
  then show "last s \<noteq> CHR ''/''"
    using assms last_in_set [of s] by (metis normal_segment_def)
qed

lemma sanitize_loop_normal:
  assumes "list_all normal_segment segs" and "acc = [] \<or> last acc \<noteq> CHR ''/''"
  shows "sanitize_loop acc (map Normal segs) =
    Some (if segs = [] then acc else if acc = [] then join_segments segs else acc @ CHR ''/'' # join_segments segs)"
  using assms
proof (induction segs arbitrary: acc)
  case (Cons s segs)
  note s = normal_segment_facts [of s]
  have "path_push acc s = (if acc = [] then s else acc @ CHR ''/'' # s)"
    using Cons.prems s by (auto simp: path_push_def)
  then show ?case
    using Cons s by (cases segs) (auto simp: join_segments_def join_Cons)
qed simp

definition clean_segments :: "string \<Rightarrow> string list" where
  "clean_segments p = filter (\<lambda>s. s \<noteq> [] \<and> s \<noteq> ''.'') (split_on CHR ''/'' p)"

lemma clean_segments_normal:
  "''..'' \<notin> set (split_on CHR ''/'' p) \<Longrightarrow> list_all normal_segment (clean_segments p)"
  by (auto simp: clean_segments_def list_all_iff normal_segment_def dest: split_on_no_delim)

lemma sanitize_loop_rejects: "ParentDir \<in> set cs \<or> RootDir \<in> set cs \<Longrightarrow> sanitize_loop acc cs = None"
  by (induction acc cs rule: sanitize_loop.induct) auto

lemma sanitize_path_eq:
  "sanitize_path p =
     (if starts_with ''/'' p \<or> ''..'' \<in> set (split_on CHR ''/'' p) then None
      else Some (join_segments (clean_segments p)))"
proof -
  obtain s ss where parts: "split_on CHR ''/'' p = s # ss" by (cases "split_on CHR ''/'' p") auto
  have loop: "sanitize_loop [] (body_components qs) = Some (join_segments (filter (\<lambda>s. s \<noteq> [] \<and> s \<noteq> ''.'') qs))"
    if "''..'' \<notin> set qs" "list_all normal_segment (filter (\<lambda>s. s \<noteq> [] \<and> s \<noteq> ''.'') qs)" for qs
  proof -
    have "body_components qs = map Normal (filter (\<lambda>s. s \<noteq> [] \<and> s \<noteq> ''.'') qs)"
      using that(1) by (intro body_components_filter) (simp add: ParentDir_body)
    then show ?thesis
      using sanitize_loop_normal [OF that(2), of "[]"]
      by (cases "filter (\<lambda>s. s \<noteq> [] \<and> s \<noteq> ''.'') qs") (simp_all add: join_segments_def)
  qed
  show ?thesis
  proof (cases "starts_with ''/'' p \<or> ''..'' \<in> set (split_on CHR ''/'' p)")
    case True
    then show ?thesis
      by (auto simp: sanitize_path_def components_def parts Let_def ParentDir_body intro!: sanitize_loop_rejects)
  next
    case False
    then have "list_all normal_segment (filter (\<lambda>s. s \<noteq> [] \<and> s \<noteq> ''.'') (s # ss))"
      using clean_segments_normal [of p] by (simp add: clean_segments_def parts)
    then show ?thesis
      using False loop [of "s # ss"] loop [of ss]
      by (auto simp: sanitize_path_def components_def parts Let_def clean_segments_def)
  qed
qed

definition below :: "string \<Rightarrow> string \<Rightarrow> bool" where
  "below base p \<longleftrightarrow>
     (\<exists>segs. list_all normal_segment segs \<and>
       (p = path_push base (join_segments segs) \<or>
        p = path_push (path_push base (join_segments segs)) ''index.html''))"

lemma split_join_segments:
  "list_all normal_segment segs \<Longrightarrow> segs \<noteq> [] \<Longrightarrow> split_on CHR ''/'' (join_segments segs) = segs"
  unfolding join_segments_def by (intro split_on_join) (auto simp: list_all_iff normal_segment_def)

lemma join_segments_relative:
  assumes "list_all normal_segment segs"
  shows "\<not> starts_with ''/'' (join_segments segs)"
proof
  assume "starts_with ''/'' (join_segments segs)"
  then obtain q where "join_segments segs = CHR ''/'' # q" by (auto simp: starts_with_slash)
  with split_join_segments [OF assms] assms show False
    by (cases segs) (auto simp: normal_segment_def join_segments_def)
qed

lemma components_join_segments:
  assumes "list_all normal_segment segs"
  shows "components (join_segments segs) = map Normal segs"
  using assms split_join_segments [OF assms] join_segments_relative [OF assms]
  by (cases segs) (auto simp: components_def body_components_normal normal_segment_def join_segments_def)

lemma mime_value_ok: "header_value_ok (mime_from_path p)"
  by (simp add: mime_from_path_def Let_def split: if_split)

context http_crate
begin

lemma stream_body_eq:
  assumes "header_value_ok ct"
  shows "resp_status (stream_body L ct body n ok) = 200"
    and "resp_body (stream_body L ct body n ok) = body"
    and "hm_get_all L (resp_headers (stream_body L ct body n ok)) k = values_of k (builder_headers ok ct n)"
proof -
  obtain h where h: "build_headers L (builder_headers ok ct n) = Some h"
    using assms build_headers_ok [of "builder_headers ok ct n"]
    by (auto simp: builder_headers_ok builder_defs)
  then show "resp_status (stream_body L ct body n ok) = 200"
    and "resp_body (stream_body L ct body n ok) = body"
    and "hm_get_all L (resp_headers (stream_body L ct body n ok)) k = values_of k (builder_headers ok ct n)"
    using build_headers_Some [OF h] by (simp_all add: stream_body_def builder_defs)
qed

end

subsection \<open>Properties\<close>

text \<open>
  Path sanitising.  A request path is refused exactly when it is absolute or one of its
  segments is \<open>..\<close>; otherwise the result consists of the path's non-empty segments other than
  \<open>.\<close>, in order, and the file system sees nothing but normal components in it.
\<close>

lemma sanitize_path_exact:
  "case sanitize_path p of
     None \<Rightarrow> starts_with ''/'' p \<or> ''..'' \<in> set (split_on CHR ''/'' p)
   | Some q \<Rightarrow> \<not> starts_with ''/'' p \<and> ''..'' \<notin> set (split_on CHR ''/'' p) \<and>
       q = join_segments (clean_segments p) \<and> components q = map Normal (clean_segments p)"
  using components_join_segments [OF clean_segments_normal, of p]
  by (simp add: sanitize_path_eq)

text \<open>
  C24: Confinement.  Serving a request depends on the file system only at paths that consist of the
  base directory followed by normal segments (and possibly \<open>index.html\<close>): two file systems
  that agree there give the same response, whatever they hold anywhere else.
\<close>

theorem serve_file_confined:
  assumes "\<forall>p. below base p \<longrightarrow> fs_metadata_is_dir fs p = fs_metadata_is_dir fs' p \<and> fs_open fs p = fs_open fs' p"
    and "fs_len fs = fs_len fs'" and "fs_chunks fs = fs_chunks fs'"
  shows "serve_file L fs base req_path = serve_file L fs' base req_path"
proof (cases "sanitize_path req_path")
  case (Some q)
  let ?t = "path_push base q"
  have "q = join_segments (clean_segments req_path)" and "list_all normal_segment (clean_segments req_path)"
    using Some clean_segments_normal [of req_path] by (auto simp: sanitize_path_eq split: if_splits)
  then have "below base ?t" and "below base (path_push ?t ''index.html'')"
    by (auto simp: below_def)
  then have "fs_metadata_is_dir fs ?t = fs_metadata_is_dir fs' ?t" and "fs_open fs ?t = fs_open fs' ?t"
    and "fs_open fs (path_push ?t ''index.html'') = fs_open fs' (path_push ?t ''index.html'')"
    using assms(1) by blast+
  then show ?thesis
    using Some assms(2,3) by (auto simp: serve_file_def Let_def split: sum.split)
qed (simp add: serve_file_def)

definition one_file :: "string \<Rightarrow> string \<Rightarrow> string file_system" where
  "one_file name content =
     \<lparr>fs_metadata_is_dir = (\<lambda>p. if p = name then Inr False else Inl NotFound),
      fs_open = (\<lambda>p. if p = name then Inr content else Inl NotFound),
      fs_len = (\<lambda>f. Inr (length f)), fs_chunks = (\<lambda>f. [Inr f])\<rparr>"

theorem serve_file_confined_witness:
  "serve_file alist_http (one_file ''/etc/passwd'' ''secret'') ''./static'' ''a.txt'' =
   serve_file alist_http (one_file ''/etc/passwd'' ''other'') ''./static'' ''a.txt''"
proof (rule serve_file_confined)
  have "\<not> below ''./static'' ''/etc/passwd''"
    using join_segments_relative by (auto simp: below_def path_push_def starts_with_slash split: if_splits)
  then show "\<forall>p. below ''./static'' p \<longrightarrow>
      fs_metadata_is_dir (one_file ''/etc/passwd'' ''secret'') p = fs_metadata_is_dir (one_file ''/etc/passwd'' ''other'') p \<and>
      fs_open (one_file ''/etc/passwd'' ''secret'') p = fs_open (one_file ''/etc/passwd'' ''other'') p"
    by (auto simp: one_file_def)
qed (simp_all add: one_file_def)

text \<open>
  A file that exists is served.  When the sanitised path names a file, or a directory with an
  \<open>index.html\<close>, that can be opened and measured, the response is \<open>200\<close> with the media type of its extension, the
  length the file system reports, and the bytes read from it.
\<close>

lemma serve_file_found:
  assumes "http_crate L" and "sanitize_path req_path = Some q"
    and "fs_metadata_is_dir fs (path_push base q) = Inr is_dir"
    and "file_path = (if is_dir then path_push (path_push base q) ''index.html'' else path_push base q)"
    and "fs_open fs file_path = Inr f" and "fs_len fs f = Inr n"
  shows "let resp = serve_file L fs base req_path in
    resp_status resp = 200 \<and>
    hm_get_all L (resp_headers resp) ''content-type'' = [mime_from_path file_path] \<and>
    hm_get_all L (resp_headers resp) ''content-length'' = [show_nat n] \<and>
    resp_body resp = stream_chunks (fs_chunks fs f)"
proof -
  have "serve_file L fs base req_path =
      stream_body L (mime_from_path file_path) (stream_chunks (fs_chunks fs f)) n ok"
    using assms(2-6) by (simp add: serve_file_def Let_def)
  moreover have "rb_extra_headers ok = []" by (simp add: builder_defs)
  ultimately show ?thesis
    by (simp add: http_crate.stream_body_eq [OF assms(1) mime_value_ok] values_of_builder Let_def
        values_of_def [of _ "[]"] lowercase_def ascii_lower_def)
qed

end
