(* ===== verification/Proxy.thy ===== *)
theory Proxy
  imports Request Response
begin

text \<open>
  \<^verbatim>\<open>src/proxy/mod.rs\<close>: the reverse proxy.

  The reqwest client is a parameter: \<open>px_send\<close> is \<^verbatim>\<open>RequestBuilder::send\<close> on the request the
  source builds (\<open>proxy_out\<close>), which fails or returns an upstream response whose body may fail to
  be read.  Header maps on both sides are those of the \<^verbatim>\<open>http\<close> crate.
\<close>

definition HOP_BY_HOP :: "string list" where
  "HOP_BY_HOP =
     [''connection'', ''keep-alive'', ''proxy-authenticate'', ''proxy-authorization'', ''te'',
      ''trailer'', ''transfer-encoding'', ''upgrade'']"

record proxy_out =
  out_method :: string
  out_target :: string
  out_headers :: "(string \<times> string) list"
  out_body :: string

record 'h upstream_response =
  up_status :: nat
  up_headers :: 'h
  up_bytes :: "string + string"

record 'h proxy_client =
  px_method_from_bytes :: "string \<Rightarrow> string option"
  px_status_from_u16 :: "nat \<Rightarrow> nat option"
  px_send :: "proxy_out \<Rightarrow> string + 'h upstream_response"

definition bad_gateway :: "'h http_lib \<Rightarrow> string \<Rightarrow> 'h http_response" where
  "bad_gateway L reason =
     (let body = ''502 Bad Gateway: '' @ reason @ newline in
      case build_headers L
        [(''content-type'', ''text/plain; charset=utf-8''),
         (''content-length'', show_nat (length body)), (''server'', SERVER_HEADER)] of
        Some h \<Rightarrow> \<lparr>resp_status = 502, resp_headers = h, resp_body = full_body body\<rparr>
      | None \<Rightarrow> response_new L (full_body []))"

definition proxy_target :: "'h http_request \<Rightarrow> string \<Rightarrow> string option \<Rightarrow> string" where
  "proxy_target req upstream_base prefix =
     (let p = path req;
          effective_path = unwrap_or (Option.bind prefix (\<lambda>x. strip_prefix x p)) p;
          base = trim_end_matches CHR ''/'' upstream_base in
      case query req of
        Some q \<Rightarrow> base @ effective_path @ ''?'' @ q
      | None \<Rightarrow> base @ effective_path)"

definition forward_headers :: "(string \<times> string) list \<Rightarrow> (string \<times> string) list" where
  "forward_headers hs = filter (\<lambda>kv. \<not> (fst kv = ''host'' \<or> fst kv \<in> set HOP_BY_HOP)) hs"

definition relay_headers :: "(string \<times> string) list \<Rightarrow> (string \<times> string) list" where
  "relay_headers hs = filter (\<lambda>kv. fst kv \<notin> set HOP_BY_HOP) hs"

definition proxy_outgoing ::
    "'h http_lib \<Rightarrow> string \<Rightarrow> 'h http_request \<Rightarrow> string \<Rightarrow> string option \<Rightarrow> proxy_out" where
  "proxy_outgoing L meth req upstream_base prefix =
     \<lparr>out_method = meth, out_target = proxy_target req upstream_base prefix,
      out_headers = forward_headers (hm_iter L (req_headers req)), out_body = req_body req\<rparr>"

definition proxy_translate ::
    "'h http_lib \<Rightarrow> 'h proxy_client \<Rightarrow> 'h upstream_response \<Rightarrow> 'h http_response" where
  "proxy_translate L client upstream =
     (let status = unwrap_or (px_status_from_u16 client (up_status upstream)) 502 in
      case up_bytes upstream of
        Inl e \<Rightarrow> bad_gateway L ''upstream body read failed''
      | Inr body_bytes \<Rightarrow>
          (case build_headers L (relay_headers (hm_iter L (up_headers upstream)) @
             [(''content-length'', show_nat (length body_bytes)), (''server'', SERVER_HEADER)]) of
             Some h \<Rightarrow> \<lparr>resp_status = status, resp_headers = h, resp_body = full_body body_bytes\<rparr>
           | None \<Rightarrow> bad_gateway L ''internal proxy error''))"

definition proxy_request ::
    "'h http_lib \<Rightarrow> 'h proxy_client \<Rightarrow> 'h http_request \<Rightarrow> string \<Rightarrow> string option \<Rightarrow> 'h http_response" where
  "proxy_request L client req upstream_base prefix =
     (case px_method_from_bytes client (req_method req) of
        None \<Rightarrow> bad_gateway L ''invalid HTTP method''
      | Some meth \<Rightarrow>
          (case px_send client (proxy_outgoing L meth req upstream_base prefix) of
             Inl e \<Rightarrow> bad_gateway L ''upstream unreachable''
           | Inr upstream \<Rightarrow> proxy_translate L client upstream))"

subsection \<open>What is forwarded and what is relayed\<close>

lemma values_of_filter_name:
  assumes "\<forall>kv \<in> set hs. lowercase (fst kv) = fst kv"
  shows "values_of k (filter (\<lambda>kv. fst kv \<notin> S) hs) = (if lowercase k \<in> S then [] else values_of k hs)"
  using assms by (induction hs) (auto simp: values_of_def)

lemma forward_headers_set: "forward_headers hs = filter (\<lambda>kv. fst kv \<notin> insert ''host'' (set HOP_BY_HOP)) hs"
  by (simp add: forward_headers_def)

context http_crate
begin

lemma forward_values:
  "values_of k (forward_headers (hm_iter L h)) =
     (if lowercase k = ''host'' \<or> lowercase k \<in> set HOP_BY_HOP then [] else hm_get_all L h k)"
  unfolding forward_headers_set
  by (subst values_of_filter_name) (auto simp: iter_lower iter_values)

lemma relay_values:
  "values_of k (relay_headers (hm_iter L h)) =
     (if lowercase k \<in> set HOP_BY_HOP then [] else hm_get_all L h k)"
  unfolding relay_headers_def
  by (subst values_of_filter_name) (auto simp: iter_lower iter_values)

lemma relay_ok: "list_all header_ok (relay_headers (hm_iter L h))"
  by (auto simp: relay_headers_def list_all_iff iter_ok)

lemma bad_gateway_eq:
  "resp_status (bad_gateway L reason) = 502"
  "resp_body (bad_gateway L reason) = ''502 Bad Gateway: '' @ reason @ newline"
  using build_headers_ok [of "[(''content-type'', ''text/plain; charset=utf-8''),
    (''content-length'', show_nat (length (''502 Bad Gateway: '' @ reason @ newline))), (''server'', SERVER_HEADER)]"]
  by (auto simp: bad_gateway_def full_body_def header_ok_content_type)

end



text \<open>
  C36: What the client gets.  If the method is valid, the upstream answers and its body can be read,
  the client receives the upstream's body; of every header the upstream's values unless it is hop-by-hop, followed by the server's
  own \<open>content-length\<close> and \<open>server\<close>.  In particular an upstream \<open>content-length\<close> is not overwritten: both
  are sent.  In every other case the answer is \<open>502\<close>.
\<close>

theorem proxy_relays:
  assumes "http_crate L"
  shows "case px_method_from_bytes client (req_method req) of
      None \<Rightarrow> resp_status (proxy_request L client req base prefix) = 502
    | Some meth \<Rightarrow>
        (case px_send client (proxy_outgoing L meth req base prefix) of
           Inl e \<Rightarrow> resp_status (proxy_request L client req base prefix) = 502
         | Inr upstream \<Rightarrow>
             (case up_bytes upstream of
                Inl e \<Rightarrow> resp_status (proxy_request L client req base prefix) = 502
              | Inr body \<Rightarrow>
                  resp_status (proxy_request L client req base prefix) =
                    unwrap_or (px_status_from_u16 client (up_status upstream)) 502 \<and>
                  resp_body (proxy_request L client req base prefix) = body \<and>
                  hm_get_all L (resp_headers (proxy_request L client req base prefix)) k =
                    (if lowercase k \<in> set HOP_BY_HOP then [] else hm_get_all L (up_headers upstream) k) @
                    (if lowercase k = ''content-length'' then [show_nat (length body)] else []) @
                    (if lowercase k = ''server'' then [SERVER_HEADER] else [])))"
proof -
  have translate: "resp_status (proxy_translate L client upstream) =
        unwrap_or (px_status_from_u16 client (up_status upstream)) 502 \<and>
      resp_body (proxy_translate L client upstream) = body \<and>
      hm_get_all L (resp_headers (proxy_translate L client upstream)) k =
        (if lowercase k \<in> set HOP_BY_HOP then [] else hm_get_all L (up_headers upstream) k) @
        (if lowercase k = ''content-length'' then [show_nat (length body)] else []) @
        (if lowercase k = ''server'' then [SERVER_HEADER] else [])"
    if body: "up_bytes upstream = Inr body" for upstream body
  proof -
    let ?hs = "relay_headers (hm_iter L (up_headers upstream)) @
      [(''content-length'', show_nat (length body)), (''server'', SERVER_HEADER)]"
    obtain h where h: "build_headers L ?hs = Some h"
      using http_crate.build_headers_ok [OF assms, of ?hs] http_crate.relay_ok [OF assms] by auto
    have "hm_get_all L h k = values_of k ?hs" by (rule http_crate.build_headers_Some(2) [OF assms h])
    also have "\<dots> = values_of k (relay_headers (hm_iter L (up_headers upstream))) @
        (if lowercase k = ''content-length'' then [show_nat (length body)] else []) @
        (if lowercase k = ''server'' then [SERVER_HEADER] else [])"
      by (simp add: values_of_def lowercase_def ascii_lower_def)
    finally show ?thesis
      using h body by (simp add: proxy_translate_def full_body_def http_crate.relay_values [OF assms])
  qed
  show ?thesis
    using translate
    by (auto simp: proxy_request_def proxy_translate_def http_crate.bad_gateway_eq [OF assms]
        split: option.split sum.split)
qed

definition fixed_upstream :: "(string \<times> string) list \<Rightarrow> string \<Rightarrow> (string \<times> string) list proxy_client" where
  "fixed_upstream hs body =
     \<lparr>px_method_from_bytes = Some, px_status_from_u16 = Some,
      px_send = (\<lambda>_. Inr \<lparr>up_status = 200, up_headers = hs, up_bytes = Inr body\<rparr>)\<rparr>"

theorem proxy_relays_witness:
  "hm_get_all alist_http (resp_headers (proxy_request alist_http
     (fixed_upstream [(''content-length'', ''2'')] ''hi'')
     \<lparr>req_method = ''GET'', req_uri = \<lparr>uri_path = ''/a'', uri_query = None, uri_path_and_query = None\<rparr>,
      req_headers = [], req_body = [], req_path_params = Map.empty\<rparr> ''http://up/'' None)) ''content-length''
   = [''2'', ''2'']"
proof -
  have "lowercase ''content-length'' = ''content-length''"
    and "hm_get_all alist_http [(''content-length'', ''2'')] ''content-length'' = [''2'']"
    and "show_nat (length ''hi'') = ''2''" by code_simp+
  then show ?thesis
    using proxy_relays [OF alist.http_crate_axioms, where client = "fixed_upstream [(''content-length'', ''2'')] ''hi''"
        and k = "''content-length''"]
    by (simp add: fixed_upstream_def HOP_BY_HOP_def)
qed

end
