(* ===== verification/Ip_Addr.thy ===== *)
theory Ip_Addr
  imports Prelude
begin

text \<open>
  \<^verbatim>\<open>std::net\<close>: the addresses that the configuration parses (\<^verbatim>\<open>IpAddr::from_str\<close>,
  \<^verbatim>\<open>SocketAddr::from_str\<close>).  The definitions follow the parser of the standard library: a
  reader takes the input and returns a value and the rest, and an address is accepted only if
  nothing is left.  Octets and groups are natural numbers below \<open>2\<^sup>8\<close> and \<open>2\<^sup>1\<^sup>6\<close>.
\<close>

datatype ip_addr = V4 "nat list" | V6 "nat list"

record socket_addr =
  sa_ip :: ip_addr
  sa_port :: nat
  sa_scope_id :: nat

definition to_digit :: "nat \<Rightarrow> char \<Rightarrow> nat option" where
  "to_digit radix c =
     (let b = (of_char c :: nat);
          d = (if 48 \<le> b \<and> b \<le> 57 then b - 48
               else if 97 \<le> b \<and> b \<le> 122 then b - 87
               else if 65 \<le> b \<and> b \<le> 90 then b - 55 else 36)
      in if d < radix then Some d else None)"

definition digits_value :: "nat \<Rightarrow> string \<Rightarrow> nat" where
  "digits_value radix ds = foldl (\<lambda>acc c. acc * radix + unwrap_or (to_digit radix c) 0) 0 ds"

definition read_number :: "nat \<Rightarrow> nat option \<Rightarrow> bool \<Rightarrow> nat \<Rightarrow> string \<Rightarrow> (nat \<times> string) option" where
  "read_number radix max_digits allow_zero_prefix bits s =
     (let ds = takeWhile (\<lambda>c. to_digit radix c \<noteq> None) s;
          rest = dropWhile (\<lambda>c. to_digit radix c \<noteq> None) s in
      if ds = [] then None
      else if (case max_digits of None \<Rightarrow> False | Some m \<Rightarrow> m < length ds) then None
      else if \<not> allow_zero_prefix \<and> hd ds = CHR ''0'' \<and> 1 < length ds then None
      else if digits_value radix ds < 2 ^ bits then Some (digits_value radix ds, rest)
      else None)"

definition read_separator ::
    "char \<Rightarrow> nat \<Rightarrow> (string \<Rightarrow> ('a \<times> string) option) \<Rightarrow> string \<Rightarrow> ('a \<times> string) option" where
  "read_separator sep index inner s =
     (if 0 < index then Option.bind (strip_prefix [sep] s) inner else inner s)"

fun read_octets :: "nat \<Rightarrow> nat \<Rightarrow> string \<Rightarrow> (nat list \<times> string) option" where
  "read_octets 0 i s = Some ([], s)"
| "read_octets (Suc k) i s =
     (case read_separator CHR ''.'' i (read_number 10 (Some 3) False 8) s of
        None \<Rightarrow> None
      | Some (o1, r) \<Rightarrow> map_option (\<lambda>(os, r'). (o1 # os, r')) (read_octets k (Suc i) r))"

definition read_ipv4_addr :: "string \<Rightarrow> (nat list \<times> string) option" where
  "read_ipv4_addr s = read_octets 4 0 s"

definition octet_groups :: "nat list \<Rightarrow> nat list" where
  "octet_groups os = [os ! 0 * 256 + os ! 1, os ! 2 * 256 + os ! 3]"

fun read_groups :: "nat \<Rightarrow> nat \<Rightarrow> string \<Rightarrow> nat list \<times> bool \<times> string" where
  "read_groups 0 i s = ([], False, s)"
| "read_groups (Suc k) i s =
     (case (if 0 < k then read_separator CHR '':'' i read_ipv4_addr s else None) of
        Some (os, r) \<Rightarrow> (octet_groups os, True, r)
      | None \<Rightarrow>
          (case read_separator CHR '':'' i (read_number 16 (Some 4) True 16) s of
             None \<Rightarrow> ([], False, s)
           | Some (g, r) \<Rightarrow> let (gs, v4, r') = read_groups k (Suc i) r in (g # gs, v4, r')))"

definition read_ipv6_addr :: "string \<Rightarrow> (nat list \<times> string) option" where
  "read_ipv6_addr s =
     (let (head, head_ipv4, r) = read_groups 8 0 s in
      if length head = 8 then Some (head, r)
      else if head_ipv4 then None
      else (case strip_prefix ''::'' r of
              None \<Rightarrow> None
            | Some r' \<Rightarrow>
                (let (tail, _, r'') = read_groups (8 - (length head + 1)) 0 r' in
                 Some (head @ replicate (8 - length head - length tail) 0 @ tail, r''))))"

definition read_ip_addr :: "string \<Rightarrow> (ip_addr \<times> string) option" where
  "read_ip_addr s =
     (case read_ipv4_addr s of
        Some (os, r) \<Rightarrow> Some (V4 os, r)
      | None \<Rightarrow> map_option (\<lambda>(gs, r). (V6 gs, r)) (read_ipv6_addr s))"

definition parse_with :: "(string \<Rightarrow> ('a \<times> string) option) \<Rightarrow> string \<Rightarrow> 'a option" where
  "parse_with p s = (case p s of Some (x, []) \<Rightarrow> Some x | _ \<Rightarrow> None)"

definition parse_ip :: "string \<Rightarrow> ip_addr option" where
  "parse_ip s = parse_with read_ip_addr s"

definition read_port :: "string \<Rightarrow> (nat \<times> string) option" where
  "read_port s = Option.bind (strip_prefix '':'' s) (read_number 10 None True 16)"

definition read_scope_id :: "string \<Rightarrow> (nat \<times> string) option" where
  "read_scope_id s = Option.bind (strip_prefix ''%'' s) (read_number 10 None True 32)"

definition read_socket_addr_v4 :: "string \<Rightarrow> (socket_addr \<times> string) option" where
  "read_socket_addr_v4 s =
     Option.bind (read_ipv4_addr s) (\<lambda>(os, r).
     Option.bind (read_port r) (\<lambda>(p, r'). Some (\<lparr>sa_ip = V4 os, sa_port = p, sa_scope_id = 0\<rparr>, r')))"

definition read_socket_addr_v6 :: "string \<Rightarrow> (socket_addr \<times> string) option" where
  "read_socket_addr_v6 s =
     Option.bind (strip_prefix ''['' s) (\<lambda>r0.
     Option.bind (read_ipv6_addr r0) (\<lambda>(gs, r1).
     let (scope, r2) = unwrap_or (read_scope_id r1) (0, r1) in
     Option.bind (strip_prefix '']'' r2) (\<lambda>r3.
     Option.bind (read_port r3) (\<lambda>(p, r4). Some (\<lparr>sa_ip = V6 gs, sa_port = p, sa_scope_id = scope\<rparr>, r4)))))"

definition read_socket_addr :: "string \<Rightarrow> (socket_addr \<times> string) option" where
  "read_socket_addr s =
     (case read_socket_addr_v4 s of Some x \<Rightarrow> Some x | None \<Rightarrow> read_socket_addr_v6 s)"

definition parse_socket_addr :: "string \<Rightarrow> socket_addr option" where
  "parse_socket_addr s = parse_with read_socket_addr s"

subsection \<open>Accepted addresses are well formed\<close>

fun ip_ok :: "ip_addr \<Rightarrow> bool" where
  "ip_ok (V4 os) = (length os = 4 \<and> (\<forall>x \<in> set os. x < 256))"
| "ip_ok (V6 gs) = (length gs = 8 \<and> (\<forall>x \<in> set gs. x < 65536))"

lemma read_number_bound: "read_number radix m z bits s = Some (n, r) \<Longrightarrow> n < 2 ^ bits"
  by (auto simp: read_number_def Let_def split: if_splits)

lemma read_separator_Some:
  "read_separator sep i p s = Some x \<Longrightarrow> \<exists>s'. p s' = Some x"
  by (auto simp: read_separator_def split: if_splits bind_splits)

lemma read_octets_ok: "read_octets k i s = Some (os, r) \<Longrightarrow> length os = k \<and> (\<forall>x \<in> set os. x < 256)"
proof (induction k arbitrary: i s os r)
  case (Suc k)
  then show ?case
    by (fastforce split: option.splits dest!: read_separator_Some read_number_bound)
qed simp

lemma read_groups_ok:
  "read_groups k i s = (gs, v4, r) \<Longrightarrow> length gs \<le> k \<and> (\<forall>x \<in> set gs. x < 65536)"
proof (induction k arbitrary: i s gs v4 r)
  case (Suc k)
  show ?case
  proof (cases "if 0 < k then read_separator CHR '':'' i read_ipv4_addr s else None")
    case (Some x)
    then obtain os where os: "length os = 4" "\<forall>y \<in> set os. y < 256" "gs = octet_groups os" "0 < k"
      using Suc.prems by (cases x) (auto simp: read_ipv4_addr_def split: if_splits
          dest!: read_separator_Some read_octets_ok)
    from os(1) obtain a b c d where "os = [a, b, c, d]"
      by (auto simp: numeral_eq_Suc length_Suc_conv)
    with os show ?thesis by (auto simp: octet_groups_def)
  next
    case None
    show ?thesis
    proof (cases "read_separator CHR '':'' i (read_number 16 (Some 4) True 16) s")
      case (Some y)
      then obtain g r' where y: "y = (g, r')" and "g < 2 ^ 16"
        by (cases y) (auto dest!: read_separator_Some read_number_bound)
      moreover obtain gs' v4' r'' where "read_groups k (Suc i) r' = (gs', v4', r'')"
        by (metis surj_pair)
      ultimately show ?thesis
        using Suc.prems Suc.IH [of "Suc i" r'] None Some by auto
    qed (use Suc.prems None in simp)
  qed
qed simp

lemma read_ipv6_ok: "read_ipv6_addr s = Some (gs, r) \<Longrightarrow> length gs = 8 \<and> (\<forall>x \<in> set gs. x < 65536)"
  by (auto simp: read_ipv6_addr_def split: prod.splits if_splits option.splits dest!: read_groups_ok)

subsection \<open>Printing and parsing IPv4\<close>

definition show_ipv4 :: "nat list \<Rightarrow> string" where
  "show_ipv4 os = join ''.'' (map show_nat os)"

lemma to_digit_10: "to_digit 10 c = digit_value c"
  by (auto simp: to_digit_def digit_value_def Let_def)

lemma digits_value_10:
  assumes "\<forall>c \<in> set ds. digit_value c \<noteq> None"
  shows "foldl (\<lambda>acc c. acc * 10 + unwrap_or (to_digit 10 c) 0) acc ds = the (parse_digits acc ds)"
  using assms
  by (induction ds arbitrary: acc) (auto simp: to_digit_10 mult.commute)

lemma show_nat_leading:
  assumes "10 \<le> n"
  shows "hd (show_nat n) \<noteq> CHR ''0''"
  using assms
proof (induction n rule: show_nat.induct)
  case (1 n)
  have eq: "show_nat n = show_nat (n div 10) @ [digit_char (n mod 10)]"
    using 1(2) by (subst show_nat.simps) simp
  show ?case
  proof (cases "10 \<le> n div 10")
    case True
    then show ?thesis using 1 eq by simp
  next
    case False
    then have "show_nat (n div 10) = [digit_char (n div 10)]" by (subst show_nat.simps) simp
    moreover have "digit_char (n div 10) \<noteq> CHR ''0''"
    proof
      assume "digit_char (n div 10) = CHR ''0''"
      then have "digit_value (digit_char (n div 10)) = Some 0" by (simp add: digit_value_def)
      then show False using False 1(2) by simp
    qed
    ultimately show ?thesis by (simp add: eq)
  qed
qed

lemma show_nat_length: "n < 256 \<Longrightarrow> length (show_nat n) \<le> 3"
  by (subst show_nat.simps, subst show_nat.simps, subst show_nat.simps) simp

lemma read_show_nat:
  assumes "n < 2 ^ bits" and "r = [] \<or> digit_value (hd r) = None"
    and "case m of None \<Rightarrow> True | Some k \<Rightarrow> length (show_nat n) \<le> k"
  shows "read_number 10 m z bits (show_nat n @ r) = Some (n, r)"
proof -
  have digits: "\<forall>c \<in> set (show_nat n). digit_value c \<noteq> None" using show_nat_digits by blast
  then have tw: "takeWhile (\<lambda>c. to_digit 10 c \<noteq> None) (show_nat n @ r) = show_nat n"
    "dropWhile (\<lambda>c. to_digit 10 c \<noteq> None) (show_nat n @ r) = r"
    using assms(2) by (cases r; simp add: to_digit_10 takeWhile_append dropWhile_append)+
  have "digits_value 10 (show_nat n) = n"
    using digits_value_10 [OF digits, of 0] by (simp add: digits_value_def parse_digits_show_nat)
  moreover have "\<not> (hd (show_nat n) = CHR ''0'' \<and> 1 < length (show_nat n))"
  proof (cases "10 \<le> n")
    case False
    then have "length (show_nat n) = 1" by (subst show_nat.simps) simp
    then show ?thesis by simp
  qed (simp add: show_nat_leading)
  ultimately show ?thesis
    using assms(1,3) unfolding read_number_def Let_def tw by (auto split: option.splits)
qed

lemma read_octet_show:
  "n < 256 \<Longrightarrow> r = [] \<or> digit_value (hd r) = None \<Longrightarrow>
   read_number 10 (Some 3) False 8 (show_nat n @ r) = Some (n, r)"
  by (rule read_show_nat) (simp_all add: show_nat_length)

lemma read_ipv4_show:
  assumes "a < 256" and "b < 256" and "c < 256" and "d < 256" and "r = [] \<or> digit_value (hd r) = None"
  shows "read_ipv4_addr (show_ipv4 [a, b, c, d] @ r) = Some ([a, b, c, d], r)"
proof -
  have dot: "digit_value CHR ''.'' = None" by (simp add: digit_value_def)
  show ?thesis
    using assms read_octet_show [of a "CHR ''.'' # show_nat b @ CHR ''.'' # show_nat c @ CHR ''.'' # show_nat d @ r"]
      read_octet_show [of b "CHR ''.'' # show_nat c @ CHR ''.'' # show_nat d @ r"]
      read_octet_show [of c "CHR ''.'' # show_nat d @ r"] read_octet_show [of d r]
    by (simp add: read_ipv4_addr_def numeral_eq_Suc show_ipv4_def read_separator_def dot)
qed

lemma parse_socket_addr_show:
  assumes "a < 256" and "b < 256" and "c < 256" and "d < 256" and "p < 2 ^ 16"
  shows "parse_socket_addr (show_ipv4 [a, b, c, d] @ '':'' @ show_nat p) =
    Some \<lparr>sa_ip = V4 [a, b, c, d], sa_port = p, sa_scope_id = 0\<rparr>"
proof -
  have "digit_value CHR '':'' = None" by (simp add: digit_value_def)
  then have "read_ipv4_addr (show_ipv4 [a, b, c, d] @ '':'' @ show_nat p) = Some ([a, b, c, d], '':'' @ show_nat p)"
    using assms by (intro read_ipv4_show) simp_all
  moreover have "read_number 10 None True 16 (show_nat p @ []) = Some (p, [])"
    using assms(5) by (intro read_show_nat) simp_all
  ultimately show ?thesis
    by (simp add: parse_socket_addr_def parse_with_def read_socket_addr_def read_socket_addr_v4_def read_port_def)
qed

text \<open>
  Parsing is total on printed IPv4 addresses and sound: the dotted form of four octets parses
  back to them, and every text the parser accepts denotes a well-formed IPv4 or IPv6 address.
\<close>

lemma parse_ip_roundtrip:
  assumes "a < 256" and "b < 256" and "c < 256" and "d < 256"
  shows "parse_ip (show_ipv4 [a, b, c, d]) = Some (V4 [a, b, c, d]) \<and>
    (\<forall>s ip. parse_ip s = Some ip \<longrightarrow> ip_ok ip)"
proof
  have "read_ipv4_addr (show_ipv4 [a, b, c, d]) = Some ([a, b, c, d], [])"
    using read_ipv4_show [OF assms, of "[]"] by simp
  then show "parse_ip (show_ipv4 [a, b, c, d]) = Some (V4 [a, b, c, d])"
    by (simp add: parse_ip_def parse_with_def read_ip_addr_def)
  show "\<forall>s ip. parse_ip s = Some ip \<longrightarrow> ip_ok ip"
    by (auto simp: parse_ip_def parse_with_def read_ip_addr_def read_ipv4_addr_def
        split: option.splits prod.splits list.splits dest!: read_octets_ok read_ipv6_ok)
qed

end
