(* ===== verification/Config.thy ===== *)
theory Config
  imports Ip_Addr
begin

text \<open>
  \<^verbatim>\<open>src/config.rs\<close>: the configuration read from the environment.

  \<^verbatim>\<open>std::env::var\<close> is a function from names to \<^typ>\<open>string option\<close>: \<^const>\<open>None\<close> when the variable is
  not set or is not Unicode, the two cases the source does not tell apart.
  \<^verbatim>\<open>available_parallelism\<close> is the argument \<open>cpus\<close>, \<^const>\<open>None\<close> when it fails.  Numbers are
  \<^typ>\<open>nat\<close>, bounded by the width of the Rust type they are parsed at (\<^verbatim>\<open>usize\<close> is 64 bits).
  \<open>from_env\<close> runs the checks in the order of the source, so the first invalid variable decides
  the error.
\<close>

record server_config =
  cfg_addr :: socket_addr
  cfg_workers :: nat
  cfg_max_blocking_threads :: nat
  cfg_log_level :: string
  cfg_static_dir :: string
  cfg_rate_limit_rps :: nat
  cfg_max_connections :: nat
  cfg_tls_cert_path :: "string option"
  cfg_tls_key_path :: "string option"
  cfg_http_redirect_port :: "nat option"
  cfg_max_body_bytes :: nat
  cfg_keep_alive_timeout_secs :: nat
  cfg_max_concurrent_requests :: nat
  cfg_shutdown_drain_secs :: nat
  cfg_db_url :: string
  cfg_jwt_secret :: string
  cfg_auth_username :: string
  cfg_auth_password :: string
  cfg_request_timeout_secs :: nat
  cfg_db_pool_size :: nat
  cfg_blocked_ips :: "ip_addr list"
  cfg_allowed_ips :: "ip_addr list"
  cfg_proxy_upstream :: "string option"
  cfg_proxy_strip_prefix :: "string option"

datatype config_error = InvalidAddr string | InvalidValue string string

type_synonym environment = "string \<Rightarrow> string option"

definition env_or :: "environment \<Rightarrow> string \<Rightarrow> string \<Rightarrow> string" where
  "env_or env key d = unwrap_or (env key) d"

definition parse_value :: "nat \<Rightarrow> string \<Rightarrow> string \<Rightarrow> config_error + nat" where
  "parse_value bits key s = ok_or (parse_unsigned bits s) (InvalidValue key s)"

definition positive :: "string \<Rightarrow> nat \<Rightarrow> config_error + nat" where
  "positive key n = (if n = 0 then Inl (InvalidValue key ''must be > 0'') else Inr n)"

definition positive_value :: "environment \<Rightarrow> nat \<Rightarrow> string \<Rightarrow> string \<Rightarrow> config_error + nat" where
  "positive_value env bits key d = result_bind (parse_value bits key (env_or env key d)) (positive key)"

definition load_workers :: "environment \<Rightarrow> nat option \<Rightarrow> config_error + nat" where
  "load_workers env cpus =
     (case env ''WORKERS'' of
        Some v \<Rightarrow> result_bind (parse_value 64 ''WORKERS'' v) (positive ''WORKERS'')
      | None \<Rightarrow> Inr (unwrap_or cpus 4))"

definition load_addr :: "environment \<Rightarrow> config_error + socket_addr" where
  "load_addr env =
     (let host = env_or env ''HOST'' ''0.0.0.0'' in
      result_bind (parse_value 16 ''PORT'' (env_or env ''PORT'' ''8080'')) (\<lambda>port.
      let addr_str = host @ '':'' @ show_nat port in
      ok_or (parse_socket_addr addr_str) (InvalidAddr addr_str)))"

definition load_redirect_port :: "environment \<Rightarrow> config_error + nat option" where
  "load_redirect_port env =
     (case env ''HTTP_REDIRECT_PORT'' of
        Some v \<Rightarrow> result_bind (parse_value 16 ''HTTP_REDIRECT_PORT'' v) (\<lambda>p. Inr (Some p))
      | None \<Rightarrow> Inr None)"

definition parse_ip_list :: "string \<Rightarrow> ip_addr list" where
  "parse_ip_list s = filter_map (\<lambda>ip. parse_ip (trim ip)) (split_on CHR '','' s)"

definition from_env :: "environment \<Rightarrow> nat option \<Rightarrow> config_error + server_config" where
  "from_env env cpus =
     result_bind (load_addr env) (\<lambda>addr.
     result_bind (load_workers env cpus) (\<lambda>workers.
     result_bind (positive_value env 64 ''BLOCKING_THREADS'' ''512'') (\<lambda>blocking.
     result_bind (positive_value env 32 ''RATE_LIMIT_RPS'' ''100'') (\<lambda>rps.
     result_bind (positive_value env 64 ''MAX_CONNECTIONS'' ''10000'') (\<lambda>conns.
     result_bind (positive_value env 64 ''MAX_BODY_BYTES'' ''4194304'') (\<lambda>body.
     result_bind (positive_value env 64 ''KEEP_ALIVE_TIMEOUT'' ''75'') (\<lambda>ka.
     result_bind (positive_value env 64 ''MAX_CONCURRENT_REQUESTS'' ''5000'') (\<lambda>concur.
     result_bind (positive_value env 64 ''SHUTDOWN_DRAIN_SECS'' ''30'') (\<lambda>drain.
     result_bind (load_redirect_port env) (\<lambda>redirect.
     result_bind (positive_value env 64 ''REQUEST_TIMEOUT_SECS'' ''30'') (\<lambda>timeout.
     result_bind (positive_value env 32 ''DB_POOL_SIZE'' ''5'') (\<lambda>pool.
     Inr \<lparr>cfg_addr = addr, cfg_workers = workers, cfg_max_blocking_threads = blocking,
       cfg_log_level = env_or env ''LOG_LEVEL'' ''info'',
       cfg_static_dir = env_or env ''STATIC_DIR'' ''./static'',
       cfg_rate_limit_rps = rps, cfg_max_connections = conns,
       cfg_tls_cert_path = env ''TLS_CERT_PATH'', cfg_tls_key_path = env ''TLS_KEY_PATH'',
       cfg_http_redirect_port = redirect, cfg_max_body_bytes = body,
       cfg_keep_alive_timeout_secs = ka, cfg_max_concurrent_requests = concur,
       cfg_shutdown_drain_secs = drain,
       cfg_db_url = env_or env ''DATABASE_URL'' ''sqlite:./data.db'',
       cfg_jwt_secret = env_or env ''JWT_SECRET'' ''change-me-in-production'',
       cfg_auth_username = env_or env ''AUTH_USERNAME'' ''admin'',
       cfg_auth_password = env_or env ''AUTH_PASSWORD'' ''secret'',
       cfg_request_timeout_secs = timeout, cfg_db_pool_size = pool,
       cfg_blocked_ips = parse_ip_list (env_or env ''BLOCKED_IPS'' []),
       cfg_allowed_ips = parse_ip_list (env_or env ''ALLOWED_IPS'' []),
       cfg_proxy_upstream = env ''PROXY_UPSTREAM'',
       cfg_proxy_strip_prefix = env ''PROXY_STRIP_PREFIX''\<rparr>))))))))))))"

definition is_blocked :: "server_config \<Rightarrow> ip_addr \<Rightarrow> bool" where
  "is_blocked cfg ip \<longleftrightarrow> ip \<in> set (cfg_blocked_ips cfg)"

definition is_allowed :: "server_config \<Rightarrow> ip_addr \<Rightarrow> bool" where
  "is_allowed cfg ip \<longleftrightarrow> cfg_allowed_ips cfg = [] \<or> ip \<in> set (cfg_allowed_ips cfg)"

subsection \<open>Values\<close>

definition numeric_vars :: "(string \<times> nat) list" where
  "numeric_vars =
     [(''PORT'', 16), (''WORKERS'', 64), (''BLOCKING_THREADS'', 64), (''RATE_LIMIT_RPS'', 32),
      (''MAX_CONNECTIONS'', 64), (''MAX_BODY_BYTES'', 64), (''KEEP_ALIVE_TIMEOUT'', 64),
      (''MAX_CONCURRENT_REQUESTS'', 64), (''SHUTDOWN_DRAIN_SECS'', 64), (''HTTP_REDIRECT_PORT'', 16),
      (''REQUEST_TIMEOUT_SECS'', 64), (''DB_POOL_SIZE'', 32)]"

definition invalid_setting :: "environment \<Rightarrow> string \<Rightarrow> string \<Rightarrow> bool" where
  "invalid_setting env key v \<longleftrightarrow>
     (\<exists>bits s. (key, bits) \<in> set numeric_vars \<and> env key = Some s \<and>
       (parse_unsigned bits s = None \<and> v = s \<or>
        parse_unsigned bits s = Some 0 \<and> v = ''must be > 0''))"

lemma positive_value_Inr:
  assumes "positive_value env bits key d = Inr n"
  shows "0 < n \<and> n < 2 ^ bits \<and> parse_unsigned bits (env_or env key d) = Some n"
  using assms parse_unsigned_bound
  by (auto simp: positive_value_def positive_def parse_value_def ok_or_def result_bind_Inr_iff
      split: if_splits option.splits)

lemma parse_value_Inl: "parse_value bits key s = Inl e \<longleftrightarrow> parse_unsigned bits s = None \<and> e = InvalidValue key s"
  by (auto simp: parse_value_def ok_or_def split: option.splits)

lemma parse_value_Inr: "parse_value bits key s = Inr n \<longleftrightarrow> parse_unsigned bits s = Some n"
  by (auto simp: parse_value_def ok_or_def split: option.splits)

lemma positive_value_Inl:
  assumes "positive_value env bits key d = Inl e" and "(key, bits) \<in> set numeric_vars"
    and "\<exists>n. parse_unsigned bits d = Some n \<and> 0 < n"
  shows "\<exists>v. e = InvalidValue key v \<and> invalid_setting env key v"
  using assms
  by (cases "env key")
    (auto simp: positive_value_def result_bind_Inl_iff parse_value_Inl parse_value_Inr positive_def env_or_def
      invalid_setting_def split: if_splits)

lemma default_values:
  "parse_unsigned 16 ''8080'' = Some 8080" "parse_unsigned 64 ''512'' = Some 512"
  "parse_unsigned 32 ''100'' = Some 100" "parse_unsigned 64 ''10000'' = Some 10000"
  "parse_unsigned 64 ''4194304'' = Some 4194304" "parse_unsigned 64 ''75'' = Some 75"
  "parse_unsigned 64 ''5000'' = Some 5000" "parse_unsigned 64 ''30'' = Some 30"
  "parse_unsigned 32 ''5'' = Some 5"
  by (simp_all add: parse_unsigned_def digit_value_def)

definition no_env :: environment where
  "no_env key = None"

lemma show_8080: "show_nat 8080 = ''8080''"
  by (simp add: show_nat.simps digit_char_def) code_simp

lemma default_addr: "parse_socket_addr ''0.0.0.0:8080'' = Some \<lparr>sa_ip = V4 [0, 0, 0, 0], sa_port = 8080, sa_scope_id = 0\<rparr>"
proof -
  have "show_ipv4 [0, 0, 0, 0] = ''0.0.0.0''" by code_simp
  then show ?thesis
    using parse_socket_addr_show [of 0 0 0 0 8080] by (simp add: show_8080)
qed

lemma load_addr_Inl:
  assumes "load_addr env = Inl e"
  shows "(\<exists>v. e = InvalidValue ''PORT'' v \<and> invalid_setting env ''PORT'' v) \<or>
    (\<exists>port a. e = InvalidAddr a \<and> a = env_or env ''HOST'' ''0.0.0.0'' @ '':'' @ show_nat port \<and>
       parse_unsigned 16 (env_or env ''PORT'' ''8080'') = Some port \<and> parse_socket_addr a = None)"
  using assms
  by (cases "env ''PORT''")
    (auto simp: load_addr_def Let_def result_bind_Inl_iff parse_value_Inl parse_value_Inr ok_or_def
      invalid_setting_def numeric_vars_def env_or_def default_values split: option.splits)

lemma load_workers_Inl:
  assumes "load_workers env cpus = Inl e"
  shows "\<exists>v. e = InvalidValue ''WORKERS'' v \<and> invalid_setting env ''WORKERS'' v"
  using assms
  by (cases "env ''WORKERS''")
    (auto simp: load_workers_def result_bind_Inl_iff parse_value_Inl parse_value_Inr positive_def
      invalid_setting_def numeric_vars_def split: if_splits)

lemma load_redirect_Inl:
  assumes "load_redirect_port env = Inl e"
  shows "\<exists>v. e = InvalidValue ''HTTP_REDIRECT_PORT'' v \<and> invalid_setting env ''HTTP_REDIRECT_PORT'' v"
  using assms
  by (cases "env ''HTTP_REDIRECT_PORT''")
    (auto simp: load_redirect_port_def result_bind_Inl_iff parse_value_Inl parse_value_Inr
      invalid_setting_def numeric_vars_def)

lemmas load_defaults =
  from_env_def load_addr_def load_workers_def load_redirect_port_def positive_value_def
  positive_def parse_value_def ok_or_def env_or_def no_env_def default_values show_8080 default_addr

lemma load_workers_pos: "load_workers env cpus = Inr n \<Longrightarrow> cpus \<noteq> Some 0 \<Longrightarrow> 0 < n"
  by (cases "env ''WORKERS''"; cases cpus)
    (auto simp: load_workers_def result_bind_Inr_iff positive_def split: if_splits)

subsection \<open>Properties\<close>



text \<open>
  C34: Errors point at the culprit.  When loading fails, either the error names a variable that is set to
  something other than a number of its width or to zero, and quotes it, or it quotes the bind address
  made of host and port, which does not parse.  So no error is possible for variables that are
  not set.
\<close>

theorem from_env_error:
  assumes "from_env env cpus = Inl e"
  shows "case e of
      InvalidValue key v \<Rightarrow> invalid_setting env key v
    | InvalidAddr a \<Rightarrow> parse_socket_addr a = None \<and>
        (\<exists>port. a = env_or env ''HOST'' ''0.0.0.0'' @ '':'' @ show_nat port \<and>
          parse_unsigned 16 (env_or env ''PORT'' ''8080'') = Some port)"
  using assms unfolding from_env_def result_bind_Inl_iff
  by (elim disjE exE conjE)
    (auto dest!: load_addr_Inl load_workers_Inl load_redirect_Inl positive_value_Inl
      simp: numeric_vars_def default_values)

theorem from_env_error_witness:
  "from_env (no_env(''DB_POOL_SIZE'' \<mapsto> ''0'')) None = Inl (InvalidValue ''DB_POOL_SIZE'' ''must be > 0'') \<and>
   invalid_setting (no_env(''DB_POOL_SIZE'' \<mapsto> ''0'')) ''DB_POOL_SIZE'' ''must be > 0''"
proof -
  have "parse_unsigned 32 ''0'' = Some 0" by (simp add: parse_unsigned_def digit_value_def)
  then have "from_env (no_env(''DB_POOL_SIZE'' \<mapsto> ''0'')) None = Inl (InvalidValue ''DB_POOL_SIZE'' ''must be > 0'')"
    by (simp add: load_defaults)
  with from_env_error [OF this] show ?thesis by simp
qed

text \<open>
  C32: The IP filter.  An address is blocked exactly when an entry of \<open>BLOCKED_IPS\<close> parses to it.  It is allowed exactly
  when an entry of \<open>ALLOWED_IPS\<close> parses to it or no entry parses at all: an allowlist in which every entry is malformed
  lets every address in.
\<close>

theorem ip_filter_semantics:
  assumes "from_env env cpus = Inr cfg"
  shows "(is_blocked cfg ip \<longleftrightarrow>
      (\<exists>x. x \<in> set (split_on CHR '','' (env_or env ''BLOCKED_IPS'' [])) \<and> parse_ip (trim x) = Some ip)) \<and>
    (is_allowed cfg ip \<longleftrightarrow>
      (\<exists>x. x \<in> set (split_on CHR '','' (env_or env ''ALLOWED_IPS'' [])) \<and> parse_ip (trim x) = Some ip) \<or>
      \<not> (\<exists>x y. x \<in> set (split_on CHR '','' (env_or env ''ALLOWED_IPS'' [])) \<and> parse_ip (trim x) = Some y))"
proof -
  have lists: "cfg_blocked_ips cfg = parse_ip_list (env_or env ''BLOCKED_IPS'' [])"
    "cfg_allowed_ips cfg = parse_ip_list (env_or env ''ALLOWED_IPS'' [])"
    using assms unfolding from_env_def result_bind_Inr_iff by (elim exE conjE; force)+
  have member: "ip \<in> set (parse_ip_list s) \<longleftrightarrow> (\<exists>x. x \<in> set (split_on CHR '','' s) \<and> parse_ip (trim x) = Some ip)" for ip s
    by (auto simp: parse_ip_list_def set_filter_map)
  have "parse_ip_list s = [] \<longleftrightarrow> \<not> (\<exists>x y. x \<in> set (split_on CHR '','' s) \<and> parse_ip (trim x) = Some y)" for s
    using member [of _ s] by (cases "parse_ip_list s") fastforce+
  then show ?thesis by (auto simp: is_blocked_def is_allowed_def lists member)
qed

theorem ip_filter_semantics_witness:
  "\<exists>cfg. from_env (no_env(''ALLOWED_IPS'' \<mapsto> ''10.0.0.0/8'')) None = Inr cfg \<and> is_allowed cfg (V4 [203, 0, 113, 9])"
proof -
  obtain cfg where cfg: "from_env (no_env(''ALLOWED_IPS'' \<mapsto> ''10.0.0.0/8'')) None = Inr cfg"
    by (simp add: load_defaults)
  have "split_on CHR '','' ''10.0.0.0/8'' = [''10.0.0.0/8'']" and "parse_ip (trim ''10.0.0.0/8'') = None"
    by code_simp+
  then show ?thesis
    using ip_filter_semantics [OF cfg, of "V4 [203, 0, 113, 9]"] cfg by (auto simp: env_or_def)
qed

text \<open>A configuration on which the witnesses of the components above evaluate.\<close>

definition demo_config :: server_config where
  "demo_config =
     \<lparr>cfg_addr = \<lparr>sa_ip = V4 [127, 0, 0, 1], sa_port = 8080, sa_scope_id = 0\<rparr>, cfg_workers = 1,
      cfg_max_blocking_threads = 8, cfg_log_level = ''info'', cfg_static_dir = ''./static'',
      cfg_rate_limit_rps = 1, cfg_max_connections = 1, cfg_tls_cert_path = None, cfg_tls_key_path = None,
      cfg_http_redirect_port = None, cfg_max_body_bytes = 4, cfg_keep_alive_timeout_secs = 75,
      cfg_max_concurrent_requests = 1, cfg_shutdown_drain_secs = 30, cfg_db_url = ''sqlite::memory:'',
      cfg_jwt_secret = ''k'', cfg_auth_username = ''admin'', cfg_auth_password = ''secret'',
      cfg_request_timeout_secs = 30, cfg_db_pool_size = 5, cfg_blocked_ips = [V4 [10, 0, 0, 1]],
      cfg_allowed_ips = [], cfg_proxy_upstream = None, cfg_proxy_strip_prefix = None\<rparr>"

end
