(* ===== verification/Task.thy ===== *)
theory Task
  imports Prelude
begin

text \<open>
  \<^verbatim>\<open>src/server/task.rs\<close>: running a closure on the blocking thread pool.

  \<^verbatim>\<open>tokio::task::spawn_blocking\<close> is a parameter: it runs the closure, or reports a
  \<^verbatim>\<open>JoinError\<close>.  A \<^verbatim>\<open>JoinError\<close> is what its accessors return, and the panic payload is seen
  through the two \<^verbatim>\<open>downcast_ref\<close> of the source.
\<close>

datatype panic_payload = StringPayload string | StrPayload string | OtherPayload

record join_error =
  je_is_cancelled :: bool
  je_into_panic :: panic_payload

datatype task_error = Panic string | Cancelled

type_synonym 'r spawner = "(unit \<Rightarrow> 'r) \<Rightarrow> join_error + 'r"

definition join_error_to_task_error :: "join_error \<Rightarrow> task_error" where
  "join_error_to_task_error e =
     (if je_is_cancelled e then Cancelled
      else (let payload = je_into_panic e in
            Panic (case payload of
                     StringPayload s \<Rightarrow> s
                   | StrPayload s \<Rightarrow> s
                   | OtherPayload \<Rightarrow> ''unknown panic payload'')))"

definition run_blocking :: "'r spawner \<Rightarrow> (unit \<Rightarrow> 'r) \<Rightarrow> task_error + 'r" where
  "run_blocking spawn f =
     (case spawn f of Inl e \<Rightarrow> Inl (join_error_to_task_error e) | Inr r \<Rightarrow> Inr r)"

text \<open>What the documentation of \<^verbatim>\<open>spawn_blocking\<close> promises: a result is the closure's result.\<close>

locale blocking_pool =
  fixes spawn :: "'r spawner"
  assumes spawn_result: "spawn f = Inr r \<Longrightarrow> r = f ()"
begin

lemma run_blocking_Inr: "run_blocking spawn f = Inr r \<Longrightarrow> r = f ()"
  using spawn_result [of f r] by (auto simp: run_blocking_def split: sum.splits)

end

definition inline_pool :: "'r spawner" where
  "inline_pool f = Inr (f ())"

interpretation inline_spawn: blocking_pool inline_pool
  by unfold_locales (simp add: inline_pool_def)

end
