(* ===== verification/Tls.thy ===== *)
theory Tls
  imports Static_Files
begin

text \<open>
  \<^verbatim>\<open>src/tls/acceptor.rs\<close>: loading the certificate chain and the private key.

  \<^verbatim>\<open>File::open\<close>, the PEM readers of \<^verbatim>\<open>rustls_pemfile\<close> and the configuration builder of rustls
  are parameters (\<open>tls_lib\<close>).  \<open>pem_certs\<close> is the sequence the certificate iterator yields and
  \<open>pem_private_key\<close> the first private key of the file, if there is one.  An acceptor is the
  server configuration with its list of ALPN protocols.
\<close>

datatype tls_error =
  CertFileOpen string io_error
| KeyFileOpen string io_error
| NoCerts string
| ParseCert string io_error
| NoPrivateKey string
| ParseKey string io_error
| InvalidCertKey string

record ('f, 'cert, 'key, 'builder, 'conf) tls_lib =
  tls_file_open :: "string \<Rightarrow> io_error + 'f"
  pem_certs :: "'f \<Rightarrow> (io_error + 'cert) list"
  pem_private_key :: "'f \<Rightarrow> io_error + 'key option"
  safe_default_protocol_versions :: "string + 'builder"
  with_single_cert :: "'builder \<Rightarrow> 'cert list \<Rightarrow> 'key \<Rightarrow> string + 'conf"

record 'conf tls_acceptor =
  acc_config :: 'conf
  acc_alpn_protocols :: "string list"

fun collect_results :: "('e + 'a) list \<Rightarrow> 'e + 'a list" where
  "collect_results [] = Inr []"
| "collect_results (r # rs) = result_bind r (\<lambda>x. result_bind (collect_results rs) (\<lambda>xs. Inr (x # xs)))"

definition map_error :: "('e \<Rightarrow> 'f) \<Rightarrow> 'e + 'a \<Rightarrow> 'f + 'a" where
  "map_error f r = (case r of Inl e \<Rightarrow> Inl (f e) | Inr a \<Rightarrow> Inr a)"

definition load_certs ::
    "('f, 'cert, 'key, 'builder, 'conf) tls_lib \<Rightarrow> string \<Rightarrow> tls_error + 'cert list" where
  "load_certs T path =
     result_bind (map_error (CertFileOpen path) (tls_file_open T path)) (\<lambda>reader.
     result_bind (collect_results (map (map_error (ParseCert path)) (pem_certs T reader))) (\<lambda>certs.
     if certs = [] then Inl (NoCerts path) else Inr certs))"

definition load_private_key ::
    "('f, 'cert, 'key, 'builder, 'conf) tls_lib \<Rightarrow> string \<Rightarrow> tls_error + 'key" where
  "load_private_key T path =
     result_bind (map_error (KeyFileOpen path) (tls_file_open T path)) (\<lambda>reader.
     result_bind (map_error (ParseKey path) (pem_private_key T reader)) (\<lambda>key.
     ok_or key (NoPrivateKey path)))"

definition load_tls_acceptor ::
    "('f, 'cert, 'key, 'builder, 'conf) tls_lib \<Rightarrow> string \<Rightarrow> string \<Rightarrow> tls_error + 'conf tls_acceptor" where
  "load_tls_acceptor T cert_path key_path =
     result_bind (load_certs T cert_path) (\<lambda>certs.
     result_bind (load_private_key T key_path) (\<lambda>key.
     result_bind (map_error InvalidCertKey (safe_default_protocol_versions T)) (\<lambda>builder.
     result_bind (map_error InvalidCertKey (with_single_cert T builder certs key)) (\<lambda>config.
     Inr \<lparr>acc_config = config, acc_alpn_protocols = [''h2'', ''http/1.1'']\<rparr>))))"

lemma map_error_Inr_iff [simp]: "map_error f r = Inr a \<longleftrightarrow> r = Inr a"
  by (cases r) (simp_all add: map_error_def)

lemma map_error_Inl_iff: "map_error f r = Inl e \<longleftrightarrow> (\<exists>e'. r = Inl e' \<and> e = f e')"
  by (cases r) (auto simp: map_error_def)

lemma collect_results_Inr_iff: "collect_results rs = Inr xs \<longleftrightarrow> rs = map Inr xs"
  by (induction rs arbitrary: xs) (auto simp: result_bind_Inr_iff)

lemma map_error_map_Inr: "map (map_error f) rs = map Inr xs \<longleftrightarrow> rs = map Inr xs"
  by (induction rs arbitrary: xs) (auto simp: Cons_eq_map_conv)

lemma collect_results_Inl: "collect_results (map (map_error f) rs) = Inl e \<Longrightarrow> \<exists>i. e = f i"
  by (induction rs) (auto simp: result_bind_Inl_iff map_error_Inl_iff)

lemma load_certs_Inr_iff:
  "load_certs T path = Inr certs \<longleftrightarrow>
     certs \<noteq> [] \<and> (\<exists>f. tls_file_open T path = Inr f \<and> pem_certs T f = map Inr certs)"
  by (auto simp: load_certs_def result_bind_Inr_iff collect_results_Inr_iff map_error_map_Inr)

lemma load_certs_Inl_kind:
  "load_certs T path = Inl e \<Longrightarrow> e = NoCerts path \<or> (\<exists>i. e = CertFileOpen path i \<or> e = ParseCert path i)"
  by (auto simp: load_certs_def result_bind_Inl_iff map_error_Inl_iff split: if_splits
      dest!: collect_results_Inl)

lemma load_private_key_Inl_kind:
  "load_private_key T path = Inl e \<Longrightarrow>
     e = NoPrivateKey path \<or> (\<exists>i. e = KeyFileOpen path i \<or> e = ParseKey path i)"
  by (auto simp: load_private_key_def result_bind_Inl_iff map_error_Inl_iff ok_or_def split: option.splits)


end
