(* ===== verification/App.thy ===== *)
theory App
  imports Router Auth Session Templates Metrics Static_Files Proxy Task
begin

text \<open>
  The state and the libraries the route handlers of \<^verbatim>\<open>src/server/connection.rs\<close> work with.

  \<open>app_shared\<close> is what the handlers change through the \<^verbatim>\<open>Arc\<close> fields of \<^verbatim>\<open>AppState\<close>: the database,
  which also holds the sessions, and the metrics.  \<open>app_state\<close> has the fields that are only read.
  \<open>app_libs\<close> collects the libraries: \<^verbatim>\<open>serde_json\<close> appears as its two uses, parsing a body into one of the two
  payload types and writing a JSON value, and the \<^verbatim>\<open>percent_encoding\<close> crate as the one function the form parsers call.
  \<open>draws\<close> are the clock reading and the fresh UUIDs a handler draws while it serves a request.
\<close>

datatype json = JString string | JBool bool | JArray "json list" | JObject "(string \<times> json) list"

record ('h, 'db, 'ph, 'ek, 'dk, 't, 'f) app_libs =
  l_http :: "'h http_lib"
  l_sql :: "'db sql_engine"
  l_argon2 :: "'ph argon2_lib"
  l_jwt :: "('ek, 'dk) jwt_lib"
  l_tera :: "'t tera_lib"
  l_fs :: "'f file_system"
  l_to_vec :: "json \<Rightarrow> string option"
  l_login_from_slice :: "string \<Rightarrow> (string \<times> string) option"
  l_item_from_slice :: "string \<Rightarrow> create_item_payload option"
  l_percent_decode_lossy :: "string \<Rightarrow> string"
  l_spawn_blocking :: "64 word spawner"

record 'db app_shared =
  sh_db :: 'db
  sh_metrics :: metrics

record ('ek, 'dk, 't, 'h) app_state =
  st_jwt :: "('ek, 'dk) jwt_secret"
  st_template_engine :: "'t option"
  st_proxy_client :: "'h proxy_client option"

record draws =
  dr_now :: nat
  dr_item_id :: string
  dr_session_token :: string
  dr_csrf_token :: string

type_synonym ('h, 'db) route_handler = "('h, 'db app_shared) handler"

definition json_item :: "item \<Rightarrow> json" where
  "json_item it =
     JObject [(''id'', JString (item_id it)), (''name'', JString (item_name it)),
       (''description'', JString (item_description it))]"

definition respond_json ::
    "('h, 'db, 'ph, 'ek, 'dk, 't, 'f) app_libs \<Rightarrow> json \<Rightarrow> response_builder \<Rightarrow> 'h http_response" where
  "respond_json X v b = rb_json (l_http X) (l_to_vec X v) b"

definition json_error :: "string \<Rightarrow> json" where
  "json_error msg = JObject [(''error'', JString msg)]"

text \<open>Running a database operation on the shared state.\<close>

definition with_db ::
    "('db \<Rightarrow> 'db \<times> 'r) \<Rightarrow> 'db app_shared \<Rightarrow> ('r \<Rightarrow> 'db app_shared \<Rightarrow> 'db app_shared \<times> 'a) \<Rightarrow> 'db app_shared \<times> 'a" where
  "with_db f s k = (case f (sh_db s) of (db, r) \<Rightarrow> k r (s\<lparr>sh_db := db\<rparr>))"

subsection \<open>Form bodies of the UI\<close>

text \<open>
  The two loops that read an \<^verbatim>\<open>application/x-www-form-urlencoded\<close> body: every pair with a \<^verbatim>\<open>=\<close>
  whose key is one of the two field names sets that field, so the last occurrence wins.
\<close>

fun form_loop :: "(string \<Rightarrow> string) \<Rightarrow> string \<Rightarrow> string \<Rightarrow> string list \<Rightarrow> string \<times> string \<Rightarrow> string \<times> string" where
  "form_loop D k1 k2 [] (a, b) = (a, b)"
| "form_loop D k1 k2 (pair # pairs) (a, b) =
     form_loop D k1 k2 pairs
       (case split_once CHR ''='' pair of
          None \<Rightarrow> (a, b)
        | Some (k, v) \<Rightarrow>
            (let decoded = D (replace_char CHR ''+'' CHR '' '' v) in
             (if k = k1 then decoded else a, if k = k2 then decoded else b)))"

definition parse_form :: "(string \<Rightarrow> string) \<Rightarrow> string \<Rightarrow> string \<Rightarrow> string \<Rightarrow> string \<times> string" where
  "parse_form D k1 k2 body = form_loop D k1 k2 (split_on CHR ''&'' (from_utf8_lossy body)) ([], [])"

definition login_form :: "(string \<Rightarrow> string) \<Rightarrow> string \<Rightarrow> string \<times> string" where
  "login_form D body = parse_form D ''username'' ''password'' body"

definition item_form :: "(string \<Rightarrow> string) \<Rightarrow> string \<Rightarrow> string \<times> string" where
  "item_form D body = parse_form D ''name'' ''description'' body"

text \<open>
  What the \<^verbatim>\<open>percent_encoding\<close> crate documents: decoding inverts percent-encoding, and lossy
  decoding of valid UTF-8 is the identity.
\<close>

locale percent_crate =
  fixes D :: "string \<Rightarrow> string"
  assumes decode_encode: "from_utf8_ok s \<Longrightarrow> D (percent_encode s) = s"
begin

lemma form_loop_pair:
  assumes "from_utf8_ok v" and "CHR ''='' \<notin> set k"
  shows "form_loop D k1 k2 ((k @ CHR ''='' # percent_encode v) # pairs) (a, b) =
    form_loop D k1 k2 pairs (if k = k1 then v else a, if k = k2 then v else b)"
proof -
  have "split_once CHR ''='' (k @ CHR ''='' # percent_encode v) = Some (k, percent_encode v)"
    using assms(2) by (simp add: split_once_Some_iff)
  then show ?thesis
    using assms by (simp add: replace_char_id decode_encode Let_def)
qed

lemma parse_form_encoded:
  assumes "from_utf8_ok v1" and "from_utf8_ok v2" and "k1 \<noteq> k2"
    and "list_all (\<lambda>k. CHR ''='' \<notin> set k \<and> CHR ''&'' \<notin> set k \<and> (\<forall>c \<in> set k. byte c < 0x80)) [k1, k2]"
  shows "parse_form D k1 k2 (k1 @ ''='' @ percent_encode v1 @ ''&'' @ k2 @ ''='' @ percent_encode v2) = (v1, v2)"
proof -
  let ?p1 = "k1 @ CHR ''='' # percent_encode v1" and ?p2 = "k2 @ CHR ''='' # percent_encode v2"
  have ascii: "\<forall>c \<in> set (percent_encode x). byte c < 0x80" for x
    using set_percent_encode by (fastforce simp: unreserved_def byte_def Let_def)
  have "from_utf8_ok (join ''&'' [?p1, ?p2])"
    by (rule from_utf8_ok_ascii) (use assms(4) ascii in \<open>auto simp: byte_def\<close>)
  moreover have "split_on CHR ''&'' (join ''&'' [?p1, ?p2]) = [?p1, ?p2]"
    by (rule split_on_join) (use assms(4) in auto)
  ultimately show ?thesis
    using assms by (simp add: parse_form_def from_utf8_lossy_id form_loop_pair del: form_loop.simps(2))
qed

end

definition lossy_decoder :: "string \<Rightarrow> string" where
  "lossy_decoder s = from_utf8_lossy (percent_decode_bytes s)"

interpretation lossy: percent_crate lossy_decoder
  by unfold_locales (simp add: lossy_decoder_def decode_encode_bytes from_utf8_lossy_id)

subsection \<open>The session of a request\<close>

definition session_token :: "'h http_lib \<Rightarrow> 'h http_request \<Rightarrow> string option" where
  "session_token L req = Option.bind (header L req ''cookie'') (\<lambda>c. extract_session_cookie (Some c))"

definition current_session ::
    "'db sql_engine \<Rightarrow> nat \<Rightarrow> string option \<Rightarrow> 'db \<Rightarrow> 'db \<times> session option" where
  "current_session E now token db =
     (case token of
        Some t \<Rightarrow>
          (case session_get E (int now) t db of (db', res) \<Rightarrow> (db', Option.bind (result_ok res) id))
      | None \<Rightarrow> (db, None))"

definition csrf_field :: "'h http_request \<Rightarrow> string" where
  "csrf_field req = unwrap_or (form_param req ''_csrf'') []"

definition session_context :: "session option \<Rightarrow> context_map" where
  "session_context session =
     (case session of
        Some x \<Rightarrow> [''session_user'' \<mapsto> CtxText (username x), ''csrf_token'' \<mapsto> CtxText (csrf_token x)]
      | None \<Rightarrow> Map.empty)"

subsection \<open>Concrete libraries\<close>

text \<open>
  The instances of the library interfaces, put together, on which the witnesses evaluate.  A
  login or an item payload is two fields with a colon between them.
\<close>

definition demo_libs ::
    "((string \<times> string) list, tables \<times> nat, string, string, string, unit, string) app_libs" where
  "demo_libs =
     \<lparr>l_http = alist_http, l_sql = mem_engine, l_argon2 = clear_argon2, l_jwt = clear_jwt,
      l_tera = fixed_tera ''<p>'', l_fs = one_file ''./static/a.txt'' ''a'',
      l_to_vec = (\<lambda>_. Some ''{}''), l_login_from_slice = split_once CHR '':'',
      l_item_from_slice = (\<lambda>b. map_option (\<lambda>(n, d). \<lparr>ci_name = n, ci_description = d\<rparr>) (split_once CHR '':'' b)),
      l_percent_decode_lossy = lossy_decoder, l_spawn_blocking = inline_pool\<rparr>"

definition demo_request :: "string \<Rightarrow> string \<Rightarrow> (string \<times> string) list \<Rightarrow> string \<Rightarrow> (string \<times> string) list http_request" where
  "demo_request meth p hs b =
     \<lparr>req_method = meth, req_uri = \<lparr>uri_path = p, uri_query = None, uri_path_and_query = Some p\<rparr>,
      req_headers = hs, req_body = b, req_path_params = Map.empty\<rparr>"

definition demo_shared :: "tables \<Rightarrow> (tables \<times> nat) app_shared" where
  "demo_shared t = \<lparr>sh_db = (t, 0), sh_metrics = metrics_new\<rparr>"

definition demo_state :: "(string, string, unit, (string \<times> string) list) app_state" where
  "demo_state =
     \<lparr>st_jwt = jwt_secret_new clear_jwt ''k'', st_template_engine = Some (), st_proxy_client = None\<rparr>"

definition demo_draws :: draws where
  "demo_draws = \<lparr>dr_now = 100, dr_item_id = ''i'', dr_session_token = ''t'', dr_csrf_token = ''c''\<rparr>"

lemma demo_libs_simps [simp]:
  "l_http demo_libs = alist_http" "l_sql demo_libs = mem_engine" "l_argon2 demo_libs = clear_argon2"
  "l_jwt demo_libs = clear_jwt" "l_tera demo_libs = fixed_tera ''<p>''"
  "l_percent_decode_lossy demo_libs = lossy_decoder" "l_spawn_blocking demo_libs = inline_pool"
  by (simp_all add: demo_libs_def)

end
