(* ===== verification/Effects.thy ===== *)
theory Effects
  imports App
begin

text \<open>
  What the database operations behind the routes leave alone, whatever they return.  \<open>keeps\<close>
  relates tables that differ at most in sessions that were refreshed or removed, and
  \<open>keeps_but_items\<close> tables that may also differ in the items.
\<close>

definition no_new_sessions :: "tables \<Rightarrow> tables \<Rightarrow> bool" where
  "no_new_sessions t t' \<longleftrightarrow>
     (\<forall>tok x e'. sessions_of t' tok = Some (x, e') \<longrightarrow> (\<exists>e. sessions_of t tok = Some (x, e)))"

definition keeps :: "tables \<Rightarrow> tables \<Rightarrow> bool" where
  "keeps t t' \<longleftrightarrow> tab_items t' = tab_items t \<and> tab_users t' = tab_users t \<and> no_new_sessions t t' \<and>
     (tables_ok t \<longrightarrow> tables_ok t')"

definition keeps_but_items :: "tables \<Rightarrow> tables \<Rightarrow> bool" where
  "keeps_but_items t t' \<longleftrightarrow> tab_users t' = tab_users t \<and> no_new_sessions t t' \<and>
     (tables_ok t \<longrightarrow> tables_ok t')"

lemma keeps_refl [simp]: "keeps t t"
  by (simp add: keeps_def no_new_sessions_def)

lemma keeps_trans: "keeps t t' \<Longrightarrow> keeps t' t'' \<Longrightarrow> keeps t t''"
  unfolding keeps_def no_new_sessions_def by metis

lemma keeps_eq: "t' = t \<Longrightarrow> keeps t t'"
  by simp

lemma keeps_items: "keeps t t' \<Longrightarrow> items_of t' = items_of t"
  and keeps_users: "keeps t t' \<Longrightarrow> users_of t' = users_of t"
  and keeps_ok: "keeps t t' \<Longrightarrow> tables_ok t \<Longrightarrow> tables_ok t'"
  by (simp_all add: keeps_def items_of_def users_of_def)

lemma session_stmt_keeps:
  assumes "sql_apply clock st t = Some (t', reply)" and "st = DeleteSession tok \<or> st = UpdateSession e tok"
  shows "keeps t t'"
proof -
  have "no_new_sessions t t'"
    using assms(2)
  proof
    assume "st = DeleteSession tok"
    with assms(1) show ?thesis
      by (auto simp: no_new_sessions_def dest!: sessions_of_delete split: if_splits)
  next
    assume st: "st = UpdateSession e tok"
    show ?thesis
      using sessions_of_update [OF assms(1) [unfolded st]] by (auto simp: no_new_sessions_def)
  qed
  then show ?thesis
    using session_stmt_frame [OF assms(1), of tok _ _ e] assms sql_apply_tables_ok [OF assms(1)]
    by (auto simp: keeps_def)
qed

lemma item_stmt_keeps:
  assumes "sql_apply clock st t = Some (t', reply)" and "st = InsertItem i n d \<or> st = DeleteItem i"
  shows "keeps_but_items t t'"
  using sql_apply_frame(2,3) [OF assms(1)] assms sql_apply_tables_ok [OF assms(1)]
  by (auto simp: keeps_but_items_def no_new_sessions_def sessions_of_def)

lemma keeps_but_items_refl: "keeps_but_items t t"
  by (simp add: keeps_but_items_def no_new_sessions_def)

lemma keeps_but_items_trans:
  "keeps t t' \<Longrightarrow> keeps_but_items t' t'' \<Longrightarrow> keeps_but_items t t''"
  "keeps_but_items t t' \<Longrightarrow> keeps t' t'' \<Longrightarrow> keeps_but_items t t''"
  unfolding keeps_def keeps_but_items_def no_new_sessions_def by metis+

context database
begin

lemma stmt_effects:
  "execute E (DeleteSession tok) db = (db', r) \<Longrightarrow> keeps (sql_tables E db) (sql_tables E db')"
  "execute E (UpdateSession e tok) db = (db', r) \<Longrightarrow> keeps (sql_tables E db) (sql_tables E db')"
  "execute E (InsertItem i n d) db = (db', r) \<Longrightarrow> keeps_but_items (sql_tables E db) (sql_tables E db')"
  "execute E (DeleteItem i) db = (db', r) \<Longrightarrow> keeps_but_items (sql_tables E db) (sql_tables E db')"
  by (drule effect(1), auto simp: maybe_applied_def keeps_but_items_refl
      intro: session_stmt_keeps item_stmt_keeps)+

lemma execute_return:
  "try_then (execute E st db) (\<lambda>x db. (db, g x)) = (db', res) \<Longrightarrow>
     \<exists>r. execute E st db = (db', r)"
  by (drule try_then_return) (metis prod.collapse)

lemma session_get_keeps:
  assumes "session_get E now tok db = (db', res)"
  shows "keeps (sql_tables E db) (sql_tables E db')"
proof -
  obtain db1 r where f: "fetch_optional E session_from_row (SelectSession tok now) db = (db1, r)"
    by (cases "fetch_optional E session_from_row (SelectSession tok now) db")
  have same: "sql_tables E db1 = sql_tables E db" using maybe_applied_select(5) [OF effect(2) [OF f]] .
  show ?thesis
  proof (cases r)
    case (Inl e)
    with assms f same show ?thesis by (simp add: session_get_def keeps_eq)
  next
    case (Inr found)
    with assms f have "(\<exists>r. execute E (DeleteSession tok) db1 = (db', r)) \<or>
        (\<exists>r. execute E (UpdateSession (now + SESSION_TTL_SECS) tok) db1 = (db', r))"
      by (auto simp: session_get_def split: if_splits dest: execute_return)
    with same show ?thesis by (metis stmt_effects(1,2))
  qed
qed

lemma session_remove_keeps:
  "session_remove E tok db = (db', res) \<Longrightarrow> keeps (sql_tables E db) (sql_tables E db')"
  unfolding session_remove_def by (drule execute_return) (auto dest: stmt_effects)

lemma create_item_keeps:
  "create_item E u n d db = (db', res) \<Longrightarrow> keeps_but_items (sql_tables E db) (sql_tables E db')"
  unfolding create_item_def by (drule execute_return) (auto dest: stmt_effects)

lemma delete_item_keeps:
  "delete_item E i db = (db', res) \<Longrightarrow> keeps_but_items (sql_tables E db) (sql_tables E db')"
  unfolding delete_item_def by (drule execute_return) (auto dest: stmt_effects)

text \<open>A session that exists after \<open>session_create\<close> was there before, or is the one it creates.\<close>

lemma session_create_effect:
  assumes "session_create E tok csrf now u db = (db', res)"
  shows "tab_items (sql_tables E db') = tab_items (sql_tables E db) \<and>
    tab_users (sql_tables E db') = tab_users (sql_tables E db) \<and>
    (tables_ok (sql_tables E db) \<longrightarrow> tables_ok (sql_tables E db')) \<and>
    (\<forall>k x e. sessions_of (sql_tables E db') k = Some (x, e) \<longrightarrow>
       sessions_of (sql_tables E db) k = Some (x, e) \<or>
       k = tok \<and> x = \<lparr>username = u, csrf_token = csrf\<rparr>)"
proof -
  obtain r where "execute E (InsertSession tok u csrf (now + SESSION_TTL_SECS)) db = (db', r)"
    using execute_return [OF assms [unfolded session_create_def]] by blast
  then have m: "maybe_applied E (InsertSession tok u csrf (now + SESSION_TTL_SECS)) db db'"
    by (rule effect(1))
  have "sessions_of (sql_tables E db) k = Some (x, e) \<or> k = tok \<and> x = \<lparr>username = u, csrf_token = csrf\<rparr>"
    if "sessions_of (sql_tables E db') k = Some (x, e)" for k x e
    using m that by (auto simp: maybe_applied_def dest!: sessions_of_insert split: if_splits)
  then show ?thesis
    using session_maybe_applied [OF m, of tok u csrf] maybe_applied_ok [OF m] by (auto simp: session_frame_def)
qed

lemma current_session_keeps:
  "current_session E now token db = (db', found) \<Longrightarrow> keeps (sql_tables E db) (sql_tables E db')"
  by (auto simp: current_session_def split: option.splits prod.splits dest: session_get_keeps)

text \<open>A session is reported only for a cookie whose session is stored and has not expired.\<close>

lemma current_session_Some:
  assumes "current_session E now token db = (db', Some x)" and "tables_ok (sql_tables E db)"
  shows "\<exists>tok e. token = Some tok \<and> sessions_of (sql_tables E db) tok = Some (x, e) \<and> int now < e"
proof -
  obtain tok where tok: "token = Some tok" "session_get E (int now) tok db = (db', Inr (Some x))"
    using assms(1) by (auto simp: current_session_def result_ok_def split: option.splits prod.splits sum.splits)
  from session_get_Inr(1) [OF tok(2) assms(2)] tok(1) show ?thesis
    by (auto split: option.splits if_splits)
qed

end

end
