(* ===== verification/Api_Routes.thy ===== *)
theory Api_Routes
  imports App
begin

text \<open>
  The routes of \<^verbatim>\<open>build_router\<close> in \<^verbatim>\<open>src/server/connection.rs\<close> that do not need a template: the plain
  routes, the static files, the token endpoint, the item API, the metrics and the proxy.  Each
  definition is the closure of one route.
\<close>

fun fib_loop :: "nat \<Rightarrow> 64 word \<Rightarrow> 64 word \<Rightarrow> 64 word" where
  "fib_loop 0 a b = a"
| "fib_loop (Suc k) a b = fib_loop k b (a + b)"

definition fib :: "64 word \<Rightarrow> 64 word" where
  "fib n = fib_loop (unat n) 0 1"

definition h_root :: "('h, 'db, 'ph, 'ek, 'dk, 't, 'f) app_libs \<Rightarrow> ('h, 'db) route_handler" where
  "h_root X req s = (s, rb_empty (l_http X) (rb_header ''location'' ''/ui/index'' (rb_new 302)))"

definition h_health :: "('h, 'db, 'ph, 'ek, 'dk, 't, 'f) app_libs \<Rightarrow> ('h, 'db) route_handler" where
  "h_health X req s = (s, rb_text (l_http X) (''ok'' @ newline) ok)"

definition h_echo :: "('h, 'db, 'ph, 'ek, 'dk, 't, 'f) app_libs \<Rightarrow> ('h, 'db) route_handler" where
  "h_echo X req s =
     (let msg = unwrap_or (path_param req ''message'') [] in
      (s, rb_text (l_http X) (msg @ newline) ok))"

definition h_fib :: "('h, 'db, 'ph, 'ek, 'dk, 't, 'f) app_libs \<Rightarrow> ('h, 'db) route_handler" where
  "h_fib X req s =
     (let n = min (unwrap_or (Option.bind (path_param req ''n'') (parse_unsigned 64)) 10) 50 in
      case run_blocking (l_spawn_blocking X) (\<lambda>_. fib (of_nat n)) of
        Inr result \<Rightarrow> (s, rb_text (l_http X) (show_nat (unat result) @ newline) ok)
      | Inl e \<Rightarrow> (s, rb_empty (l_http X) internal_error))"

definition h_static ::
    "('h, 'db, 'ph, 'ek, 'dk, 't, 'f) app_libs \<Rightarrow> string \<Rightarrow> ('h, 'db) route_handler" where
  "h_static X static_dir req s =
     (let filepath = unwrap_or (path_param req ''filepath'') [] in
      (s, serve_file (l_http X) (l_fs X) static_dir filepath))"

definition h_auth_token ::
    "('h, 'db, 'ph, 'ek, 'dk, 't, 'f) app_libs \<Rightarrow> ('ek, 'dk) jwt_secret \<Rightarrow> draws \<Rightarrow> ('h, 'db) route_handler" where
  "h_auth_token X jwt d req s =
     (case l_login_from_slice X (req_body req) of
        None \<Rightarrow> (s, respond_json X (json_error ''invalid JSON body'') (rb_new 400))
      | Some (user, pass) \<Rightarrow>
          with_db (verify_user (l_sql X) (l_argon2 X) user pass) s (\<lambda>verdict s.
          case verdict of
            Inl e \<Rightarrow> (s, rb_empty (l_http X) internal_error)
          | Inr False \<Rightarrow> (s, respond_json X (json_error ''invalid credentials'') (rb_new 401))
          | Inr True \<Rightarrow>
              (case create_token (l_jwt X) (dr_now d) jwt user of
                 Inr token \<Rightarrow> (s, respond_json X (JObject [(''token'', JString token)]) ok)
               | Inl e \<Rightarrow> (s, rb_empty (l_http X) internal_error))))"

definition h_list_items :: "('h, 'db, 'ph, 'ek, 'dk, 't, 'f) app_libs \<Rightarrow> ('h, 'db) route_handler" where
  "h_list_items X req s =
     with_db (list_items (l_sql X)) s (\<lambda>res s.
     case res of
       Inr items \<Rightarrow> (s, respond_json X (JArray (map json_item items)) ok)
     | Inl e \<Rightarrow> (s, rb_empty (l_http X) internal_error))"

definition h_get_item :: "('h, 'db, 'ph, 'ek, 'dk, 't, 'f) app_libs \<Rightarrow> ('h, 'db) route_handler" where
  "h_get_item X req s =
     (let i = unwrap_or (path_param req ''id'') [] in
      with_db (get_item (l_sql X) i) s (\<lambda>res s.
      case res of
        Inr (Some it) \<Rightarrow> (s, respond_json X (json_item it) ok)
      | Inr None \<Rightarrow> (s, respond_json X (json_error ''item not found'') (rb_new 404))
      | Inl e \<Rightarrow> (s, rb_empty (l_http X) internal_error)))"

text \<open>The check of the Bearer token that opens both administration routes.\<close>

definition require_bearer ::
    "('h, 'db, 'ph, 'ek, 'dk, 't, 'f) app_libs \<Rightarrow> ('ek, 'dk) jwt_secret \<Rightarrow> nat \<Rightarrow> 'h http_request \<Rightarrow>
     'h http_response + claims" where
  "require_bearer X jwt now req =
     (case extract_bearer (header (l_http X) req ''authorization'') of
        None \<Rightarrow> Inl (respond_json X (json_error ''missing Bearer token'') (rb_new 401))
      | Some token \<Rightarrow>
          (case verify_token (l_jwt X) now jwt token of
             Inl e \<Rightarrow> Inl (respond_json X (json_error ''invalid or expired token'') (rb_new 401))
           | Inr c \<Rightarrow> Inr c))"

definition h_admin_create ::
    "('h, 'db, 'ph, 'ek, 'dk, 't, 'f) app_libs \<Rightarrow> ('ek, 'dk) jwt_secret \<Rightarrow> draws \<Rightarrow> ('h, 'db) route_handler" where
  "h_admin_create X jwt d req s =
     (case require_bearer X jwt (dr_now d) req of
        Inl resp \<Rightarrow> (s, resp)
      | Inr _ \<Rightarrow>
          (case l_item_from_slice X (req_body req) of
             None \<Rightarrow> (s, respond_json X (json_error ''invalid JSON body'') (rb_new 400))
           | Some payload \<Rightarrow>
               with_db (create_item (l_sql X) (dr_item_id d) (ci_name payload) (ci_description payload)) s (\<lambda>res s.
               case res of
                 Inr it \<Rightarrow> (s, respond_json X (json_item it) (rb_new 201))
               | Inl e \<Rightarrow> (s, rb_empty (l_http X) internal_error))))"

definition h_admin_delete ::
    "('h, 'db, 'ph, 'ek, 'dk, 't, 'f) app_libs \<Rightarrow> ('ek, 'dk) jwt_secret \<Rightarrow> draws \<Rightarrow> ('h, 'db) route_handler" where
  "h_admin_delete X jwt d req s =
     (case require_bearer X jwt (dr_now d) req of
        Inl resp \<Rightarrow> (s, resp)
      | Inr _ \<Rightarrow>
          (let i = unwrap_or (path_param req ''id'') [] in
           with_db (delete_item (l_sql X) i) s (\<lambda>res s.
           case res of
             Inr True \<Rightarrow> (s, respond_json X (JObject [(''deleted'', JBool True)]) ok)
           | Inr False \<Rightarrow> (s, respond_json X (json_error ''item not found'') (rb_new 404))
           | Inl e \<Rightarrow> (s, rb_empty (l_http X) internal_error))))"

definition h_metrics :: "('h, 'db, 'ph, 'ek, 'dk, 't, 'f) app_libs \<Rightarrow> ('h, 'db) route_handler" where
  "h_metrics X req s =
     (s, rb_text (l_http X) (render (sh_metrics s))
        (rb_header ''content-type'' ''text/plain; version=0.0.4; charset=utf-8'' ok))"

definition h_proxy ::
    "('h, 'db, 'ph, 'ek, 'dk, 't, 'f) app_libs \<Rightarrow> 'h proxy_client \<Rightarrow> string \<Rightarrow> string option \<Rightarrow> ('h, 'db) route_handler" where
  "h_proxy X client upstream strip req s = (s, proxy_request (l_http X) client req upstream strip)"

subsection \<open>Fibonacci numbers\<close>

fun fib_spec :: "nat \<Rightarrow> nat" where
  "fib_spec 0 = 0"
| "fib_spec (Suc 0) = 1"
| "fib_spec (Suc (Suc n)) = fib_spec n + fib_spec (Suc n)"

lemma fib_loop_spec: "fib_loop k (of_nat (fib_spec i)) (of_nat (fib_spec (Suc i))) = of_nat (fib_spec (i + k))"
proof (induction k arbitrary: i)
  case (Suc k)
  from Suc [of "Suc i"] show ?case by (simp add: add.commute)
qed simp

lemma fib_word: "fib n = of_nat (fib_spec (unat n))"
  using fib_loop_spec [of "unat n" 0] by (simp add: fib_def)

lemma fib_spec_le_power: "fib_spec n \<le> 2 ^ n"
proof (induction n rule: fib_spec.induct)
  case (3 n)
  then show ?case by simp
qed simp_all

lemma unat_fib: "n \<le> 50 \<Longrightarrow> unat (fib (of_nat n)) = fib_spec n"
proof -
  assume "n \<le> 50"
  then have "(2::nat) ^ n \<le> 2 ^ 50" by (intro power_increasing) simp_all
  then have "fib_spec n < 2 ^ 64" using fib_spec_le_power [of n] by simp
  with \<open>n \<le> 50\<close> show ?thesis by (simp add: fib_word unat_of_nat)
qed

text \<open>
  The Fibonacci route.  For every path segment the answer, when the blocking pool runs the
  closure, is a \<open>200\<close> with the decimal digits of the mathematical Fibonacci number of \<open>n\<close>, where \<open>n\<close> is
  the segment read as an unsigned 64-bit number, 10 when it is not one, and at most 50, so the 64-bit addition of the
  loop never wraps; and a \<open>500\<close> when the pool reports an error.  In general, for all \<open>n\<close>, the loop computes the Fibonacci number modulo \<open>2 ^ 64\<close>.
\<close>

lemma fib_route:
  assumes "http_crate (l_http X)" and "blocking_pool (l_spawn_blocking X)"
  shows "(let n = min (unwrap_or (Option.bind (path_param req ''n'') (parse_unsigned 64)) 10) 50;
      (s', resp) = h_fib X req s in
    s' = s \<and>
    (case run_blocking (l_spawn_blocking X) (\<lambda>_. fib (of_nat n)) of
       Inr _ \<Rightarrow> resp_status resp = 200 \<and> resp_body resp = show_nat (fib_spec n) @ newline
     | Inl _ \<Rightarrow> resp_status resp = 500)) \<and>
    unat (fib m) = fib_spec (unat m) mod 2 ^ 64"
proof -
  define n where "n = min (unwrap_or (Option.bind (path_param req ''n'') (parse_unsigned 64)) 10) 50"
  note run = blocking_pool.run_blocking_Inr [OF assms(2), of "\<lambda>_. fib (of_nat n)"]
  have "unat (fib (of_nat n)) = fib_spec n" by (rule unat_fib) (simp add: n_def)
  with run show ?thesis
    by (cases "run_blocking (l_spawn_blocking X) (\<lambda>_. fib (of_nat n))")
      (simp_all add: h_fib_def n_def [symmetric] rb_text_def rb_empty_def builder_defs fib_word unat_of_nat
        http_crate.build_ok_eq [OF assms(1)])
qed

end
