(* ===== verification/Ui_Routes.thy ===== *)
theory Ui_Routes
  imports App
begin

text \<open>
  The HTML routes of \<^verbatim>\<open>build_router\<close> in \<^verbatim>\<open>src/server/connection.rs\<close>, which exist only when the templates
  were loaded.  Each definition is the closure of one route.
\<close>

definition h_ui_root :: "('h, 'db, 'ph, 'ek, 'dk, 't, 'f) app_libs \<Rightarrow> ('h, 'db) route_handler" where
  "h_ui_root X req s = (s, rb_empty (l_http X) (rb_header ''location'' ''/ui/index'' (rb_new 302)))"

definition h_ui_index ::
    "('h, 'db, 'ph, 'ek, 'dk, 't, 'f) app_libs \<Rightarrow> 't \<Rightarrow> draws \<Rightarrow> ('h, 'db) route_handler" where
  "h_ui_index X engine d req s =
     (let token = session_token (l_http X) req in
      with_db (current_session (l_sql X) (dr_now d) token) s (\<lambda>session s.
      (s, template_render (l_http X) (l_tera X) engine ''index.html'' (session_context session))))"

definition h_ui_login_page ::
    "('h, 'db, 'ph, 'ek, 'dk, 't, 'f) app_libs \<Rightarrow> 't \<Rightarrow> ('h, 'db) route_handler" where
  "h_ui_login_page X engine req s =
     (s, template_render (l_http X) (l_tera X) engine ''login.html'' Map.empty)"

definition session_cookie :: "bool \<Rightarrow> string \<Rightarrow> string" where
  "session_cookie cookie_secure token =
     ''session='' @ token @ ''; HttpOnly; SameSite=Strict; Path=/; Max-Age=3600'' @
     (if cookie_secure then ''; Secure'' else [])"

definition h_ui_login ::
    "('h, 'db, 'ph, 'ek, 'dk, 't, 'f) app_libs \<Rightarrow> 't \<Rightarrow> bool \<Rightarrow> draws \<Rightarrow> ('h, 'db) route_handler" where
  "h_ui_login X engine cookie_secure d req s =
     (let (user, pass) = login_form (l_percent_decode_lossy X) (req_body req) in
      with_db (verify_user (l_sql X) (l_argon2 X) user pass) s (\<lambda>verdict s.
      case verdict of
        Inr True \<Rightarrow>
          with_db (session_create (l_sql X) (dr_session_token d) (dr_csrf_token d) (int (dr_now d)) user) s (\<lambda>res s.
          case res of
            Inr token \<Rightarrow>
              (s, rb_empty (l_http X)
                 (rb_header ''set-cookie'' (session_cookie cookie_secure token)
                 (rb_header ''location'' ''/ui/items'' (rb_new 302))))
          | Inl e \<Rightarrow> (s, rb_empty (l_http X) internal_error))
      | Inr False \<Rightarrow>
          (s, template_render (l_http X) (l_tera X) engine ''login.html''
             [''flash'' \<mapsto> CtxText ''Invalid username or password.'', ''flash_type'' \<mapsto> CtxText ''error''])
      | Inl e \<Rightarrow> (s, rb_empty (l_http X) internal_error)))"

definition csrf_failed :: "'h http_lib \<Rightarrow> 'h http_response" where
  "csrf_failed L = rb_text L (''CSRF validation failed'' @ newline) (rb_new 403)"

definition redirect_to :: "'h http_lib \<Rightarrow> string \<Rightarrow> 'h http_response" where
  "redirect_to L loc = rb_empty L (rb_header ''location'' loc (rb_new 302))"

definition h_ui_logout ::
    "('h, 'db, 'ph, 'ek, 'dk, 't, 'f) app_libs \<Rightarrow> draws \<Rightarrow> ('h, 'db) route_handler" where
  "h_ui_logout X d req s =
     (let token = session_token (l_http X) req in
      with_db (current_session (l_sql X) (dr_now d) token) s (\<lambda>session s.
      let csrf = csrf_field req;
          gone = rb_empty (l_http X)
            (rb_header ''set-cookie'' ''session=; Max-Age=0; Path=/''
            (rb_header ''location'' ''/ui/login'' (rb_new 302))) in
      if (case session of None \<Rightarrow> True | Some x \<Rightarrow> csrf_token x \<noteq> csrf) then (s, csrf_failed (l_http X))
      else (case token of
              Some t \<Rightarrow> with_db (session_remove (l_sql X) t) s (\<lambda>_ s. (s, gone))
            | None \<Rightarrow> (s, gone))))"

definition h_ui_items ::
    "('h, 'db, 'ph, 'ek, 'dk, 't, 'f) app_libs \<Rightarrow> 't \<Rightarrow> draws \<Rightarrow> ('h, 'db) route_handler" where
  "h_ui_items X engine d req s =
     (let token = session_token (l_http X) req in
      with_db (current_session (l_sql X) (dr_now d) token) s (\<lambda>session s.
      with_db (list_items (l_sql X)) s (\<lambda>res s.
      let items = unwrap_or (result_ok res) [];
          ctx = (session_context session)(''items'' \<mapsto> CtxItems items);
          ctx = (case query_param req ''flash'' of Some msg \<Rightarrow> ctx(''flash'' \<mapsto> CtxText msg) | None \<Rightarrow> ctx) in
      (s, template_render (l_http X) (l_tera X) engine ''items.html'' ctx))))"

definition h_ui_create ::
    "('h, 'db, 'ph, 'ek, 'dk, 't, 'f) app_libs \<Rightarrow> 't \<Rightarrow> draws \<Rightarrow> ('h, 'db) route_handler" where
  "h_ui_create X engine d req s =
     (let token = session_token (l_http X) req in
      with_db (current_session (l_sql X) (dr_now d) token) s (\<lambda>session s.
      let csrf = csrf_field req in
      case session of
        None \<Rightarrow> (s, redirect_to (l_http X) ''/ui/login'')
      | Some x \<Rightarrow>
          if csrf_token x \<noteq> csrf then (s, csrf_failed (l_http X))
          else
            (let (name, description) = item_form (l_percent_decode_lossy X) (req_body req) in
             with_db (create_item (l_sql X) (dr_item_id d) name description) s (\<lambda>res s.
             case res of
               Inr it \<Rightarrow> (s, redirect_to (l_http X) ''/ui/items?flash=Item+created'')
             | Inl e \<Rightarrow>
                 with_db (list_items (l_sql X)) s (\<lambda>res s.
                 (s, template_render (l_http X) (l_tera X) engine ''items.html''
                    [''items'' \<mapsto> CtxItems (unwrap_or (result_ok res) []),
                     ''flash'' \<mapsto> CtxText ''Failed to create item.'', ''flash_type'' \<mapsto> CtxText ''error'']))))))"

definition h_ui_delete ::
    "('h, 'db, 'ph, 'ek, 'dk, 't, 'f) app_libs \<Rightarrow> draws \<Rightarrow> ('h, 'db) route_handler" where
  "h_ui_delete X d req s =
     (let token = session_token (l_http X) req in
      with_db (current_session (l_sql X) (dr_now d) token) s (\<lambda>session s.
      let csrf = csrf_field req in
      case session of
        None \<Rightarrow> (s, redirect_to (l_http X) ''/ui/login'')
      | Some x \<Rightarrow>
          if csrf_token x \<noteq> csrf then (s, csrf_failed (l_http X))
          else
            (let i = unwrap_or (path_param req ''id'') [] in
             with_db (delete_item (l_sql X) i) s (\<lambda>res s.
             case res of
               Inr _ \<Rightarrow> (s, redirect_to (l_http X) ''/ui/items?flash=Item+deleted'')
             | Inl e \<Rightarrow> (s, redirect_to (l_http X) ''/ui/items'')))))"

definition h_ui_metrics ::
    "('h, 'db, 'ph, 'ek, 'dk, 't, 'f) app_libs \<Rightarrow> 't \<Rightarrow> draws \<Rightarrow> ('h, 'db) route_handler" where
  "h_ui_metrics X engine d req s =
     (let token = session_token (l_http X) req in
      with_db (current_session (l_sql X) (dr_now d) token) s (\<lambda>session s.
      let m = sh_metrics s;
          ctx = (session_context session)
            (''requests_total'' \<mapsto> CtxCount (requests_total m),
             ''requests_active'' \<mapsto> CtxCount (requests_active m),
             ''responses_2xx'' \<mapsto> CtxCount (responses_2xx m),
             ''responses_4xx'' \<mapsto> CtxCount (responses_4xx m),
             ''responses_5xx'' \<mapsto> CtxCount (responses_5xx m),
             ''rate_limited'' \<mapsto> CtxCount (rate_limited m),
             ''concurrency_limited'' \<mapsto> CtxCount (concurrency_limited m),
             ''timed_out'' \<mapsto> CtxCount (timed_out m),
             ''connections_accepted'' \<mapsto> CtxCount (connections_accepted m),
             ''connections_rejected_ip'' \<mapsto> CtxCount (connections_rejected_ip m)) in
      (s, template_render (l_http X) (l_tera X) engine ''metrics.html'' ctx)))"

end
