(* ===== verification/Route_Table.thy ===== *)
theory Route_Table
  imports Api_Routes Ui_Routes Config
begin

text \<open>
  \<^verbatim>\<open>build_router\<close> of \<^verbatim>\<open>src/server/connection.rs\<close>: the routes in the order of registration.

  The specification is a table, from the segments of a path to the methods it answers and what each of them does.
  \<open>build_router\<close> followed by \<open>dispatch\<close> decides exactly as the table does (\<open>dispatch_table\<close>).
\<close>

definition ui_routes ::
    "('h, 'db, 'ph, 'ek, 'dk, 't, 'f) app_libs \<Rightarrow> server_config \<Rightarrow> draws \<Rightarrow> 't \<Rightarrow>
     ('h, 'db app_shared) router \<Rightarrow> ('h, 'db app_shared) router" where
  "ui_routes X cfg d engine r =
     (let cookie_secure = (cfg_tls_cert_path cfg \<noteq> None \<and> cfg_tls_key_path cfg \<noteq> None);
          r = router_get ''/ui'' (h_ui_root X) r;
          r = router_get ''/ui/index'' (h_ui_index X engine d) r;
          r = router_get ''/ui/login'' (h_ui_login_page X engine) r;
          r = router_post ''/ui/login'' (h_ui_login X engine cookie_secure d) r;
          r = router_post ''/ui/logout'' (h_ui_logout X d) r;
          r = router_get ''/ui/items'' (h_ui_items X engine d) r;
          r = router_post ''/ui/items'' (h_ui_create X engine d) r;
          r = router_post ''/ui/items/:id/delete'' (h_ui_delete X d) r;
          r = router_get ''/ui/metrics'' (h_ui_metrics X engine d) r
      in r)"

definition build_router ::
    "('h, 'db, 'ph, 'ek, 'dk, 't, 'f) app_libs \<Rightarrow> server_config \<Rightarrow> ('ek, 'dk, 't, 'h) app_state \<Rightarrow> draws \<Rightarrow>
     ('h, 'db app_shared) router" where
  "build_router X cfg st d =
     (let jwt = st_jwt st;
          r = router_new;
          r = router_get ''/'' (h_root X) r;
          r = router_get ''/health'' (h_health X) r;
          r = router_get ''/echo/:message'' (h_echo X) r;
          r = router_get ''/fib/:n'' (h_fib X) r;
          r = router_get ''/static/*filepath'' (h_static X (cfg_static_dir cfg)) r;
          r = router_post ''/auth/token'' (h_auth_token X jwt d) r;
          r = router_get ''/api/items'' (h_list_items X) r;
          r = router_get ''/api/items/:id'' (h_get_item X) r;
          r = router_post ''/api/admin/items'' (h_admin_create X jwt d) r;
          r = router_delete ''/api/admin/items/:id'' (h_admin_delete X jwt d) r;
          r = (case st_template_engine st of Some engine \<Rightarrow> ui_routes X cfg d engine r | None \<Rightarrow> r);
          r = router_get ''/metrics'' (h_metrics X) r;
          r = (case (st_proxy_client st, cfg_proxy_upstream cfg) of
                 (Some client, Some upstream) \<Rightarrow>
                   router_any ''/*path'' (h_proxy X client upstream (cfg_proxy_strip_prefix cfg)) r
               | _ \<Rightarrow> r)
      in r)"

subsection \<open>Routing\<close>

lemmas router_defs = router_get_def router_post_def router_delete_def router_any_def add_route_def router_new_def

lemma route_patterns:
  "parse_pattern ''/'' = []"
  "parse_pattern ''/health'' = [Literal ''health'']"
  "parse_pattern ''/echo/:message'' = [Literal ''echo'', Param ''message'']"
  "parse_pattern ''/fib/:n'' = [Literal ''fib'', Param ''n'']"
  "parse_pattern ''/static/*filepath'' = [Literal ''static'', Wildcard ''filepath'']"
  "parse_pattern ''/auth/token'' = [Literal ''auth'', Literal ''token'']"
  "parse_pattern ''/api/items'' = [Literal ''api'', Literal ''items'']"
  "parse_pattern ''/api/items/:id'' = [Literal ''api'', Literal ''items'', Param ''id'']"
  "parse_pattern ''/api/admin/items'' = [Literal ''api'', Literal ''admin'', Literal ''items'']"
  "parse_pattern ''/api/admin/items/:id'' = [Literal ''api'', Literal ''admin'', Literal ''items'', Param ''id'']"
  by (simp_all add: parse_pattern_def path_segments_def parse_segment_def)

lemma ui_patterns:
  "parse_pattern ''/ui'' = [Literal ''ui'']"
  "parse_pattern ''/ui/index'' = [Literal ''ui'', Literal ''index'']"
  "parse_pattern ''/ui/login'' = [Literal ''ui'', Literal ''login'']"
  "parse_pattern ''/ui/logout'' = [Literal ''ui'', Literal ''logout'']"
  "parse_pattern ''/ui/items'' = [Literal ''ui'', Literal ''items'']"
  "parse_pattern ''/ui/items/:id/delete'' = [Literal ''ui'', Literal ''items'', Param ''id'', Literal ''delete'']"
  "parse_pattern ''/ui/metrics'' = [Literal ''ui'', Literal ''metrics'']"
  "parse_pattern ''/metrics'' = [Literal ''metrics'']"
  "parse_pattern ''/*path'' = [Wildcard ''path'']"
  by (simp_all add: parse_pattern_def path_segments_def parse_segment_def)

abbreviation entry :: "string \<Rightarrow> path_segment list \<Rightarrow> ('h, 's) handler \<Rightarrow> ('h, 's) route_entry" where
  "entry meth segs h \<equiv> \<lparr>re_method = meth, re_segments = segs, re_handler = h\<rparr>"

subsection \<open>The route table\<close>

datatype action =
  Root | Health | Echo string | Fib string | Static "string list" | Token | ListItems | GetItem string | CreateItem
| RemoveItem string | UiRoot | UiIndex | UiLoginPage | UiLogin | UiLogout | UiItems | UiCreate | UiDelete string
| UiMetrics | MetricsText | Forward | MethodNotAllowed | NotFoundHere

text \<open>The pages exist only when the templates were loaded.\<close>

definition ui_methods :: "string list \<Rightarrow> (string \<times> action) list" where
  "ui_methods rest =
     (case rest of
        [] \<Rightarrow> [(''GET'', UiRoot)]
      | [a] \<Rightarrow>
          if a = ''index'' then [(''GET'', UiIndex)]
          else if a = ''login'' then [(''GET'', UiLoginPage), (''POST'', UiLogin)]
          else if a = ''logout'' then [(''POST'', UiLogout)]
          else if a = ''items'' then [(''GET'', UiItems), (''POST'', UiCreate)]
          else if a = ''metrics'' then [(''GET'', UiMetrics)]
          else []
      | [a, i, b] \<Rightarrow> if a = ''items'' \<and> b = ''delete'' then [(''POST'', UiDelete i)] else []
      | _ \<Rightarrow> [])"

definition api_methods :: "string list \<Rightarrow> (string \<times> action) list" where
  "api_methods rest =
     (case rest of
        [a] \<Rightarrow> if a = ''items'' then [(''GET'', ListItems)] else []
      | [a, b] \<Rightarrow>
          if a = ''items'' then [(''GET'', GetItem b)]
          else if a = ''admin'' \<and> b = ''items'' then [(''POST'', CreateItem)] else []
      | [a, b, i] \<Rightarrow> if a = ''admin'' \<and> b = ''items'' then [(''DELETE'', RemoveItem i)] else []
      | _ \<Rightarrow> [])"

definition methods_at :: "bool \<Rightarrow> string list \<Rightarrow> (string \<times> action) list" where
  "methods_at ui segs =
     (case segs of
        [] \<Rightarrow> [(''GET'', Root)]
      | a # rest \<Rightarrow>
          if a = ''static'' then [(''GET'', Static rest)]
          else if a = ''api'' then api_methods rest
          else if a = ''ui'' then if ui then ui_methods rest else []
          else (case rest of
                  [] \<Rightarrow> if a = ''health'' then [(''GET'', Health)]
                    else if a = ''metrics'' then [(''GET'', MetricsText)] else []
                | [b] \<Rightarrow> if a = ''echo'' then [(''GET'', Echo b)]
                    else if a = ''fib'' then [(''GET'', Fib b)]
                    else if a = ''auth'' \<and> b = ''token'' then [(''POST'', Token)] else []
                | _ \<Rightarrow> []))"

definition route_of :: "bool \<Rightarrow> bool \<Rightarrow> string \<Rightarrow> string list \<Rightarrow> action" where
  "route_of ui proxy meth segs =
     (case map_of (methods_at ui segs) meth of
        Some act \<Rightarrow> act
      | None \<Rightarrow> if proxy then Forward else if methods_at ui segs = [] then NotFoundHere else MethodNotAllowed)"

definition with_params :: "(string \<times> string) list \<Rightarrow> 'h http_request \<Rightarrow> 'h http_request" where
  "with_params ps req = req\<lparr>req_path_params := map_of ps\<rparr>"

fun perform ::
    "('h, 'db, 'ph, 'ek, 'dk, 't, 'f) app_libs \<Rightarrow> server_config \<Rightarrow> ('ek, 'dk, 't, 'h) app_state \<Rightarrow> draws \<Rightarrow> action \<Rightarrow>
     ('h, 'db) route_handler" where
  "perform X cfg st d Root req s = h_root X (with_params [] req) s"
| "perform X cfg st d Health req s = h_health X (with_params [] req) s"
| "perform X cfg st d (Echo m) req s = h_echo X (with_params [(''message'', m)] req) s"
| "perform X cfg st d (Fib n) req s = h_fib X (with_params [(''n'', n)] req) s"
| "perform X cfg st d (Static p) req s =
     h_static X (cfg_static_dir cfg) (with_params (if p = [] then [] else [(''filepath'', join ''/'' p)]) req) s"
| "perform X cfg st d Token req s = h_auth_token X (st_jwt st) d (with_params [] req) s"
| "perform X cfg st d ListItems req s = h_list_items X (with_params [] req) s"
| "perform X cfg st d (GetItem i) req s = h_get_item X (with_params [(''id'', i)] req) s"
| "perform X cfg st d CreateItem req s = h_admin_create X (st_jwt st) d (with_params [] req) s"
| "perform X cfg st d (RemoveItem i) req s = h_admin_delete X (st_jwt st) d (with_params [(''id'', i)] req) s"
| "perform X cfg st d UiRoot req s = h_ui_root X (with_params [] req) s"
| "perform X cfg st d UiIndex req s = h_ui_index X (the (st_template_engine st)) d (with_params [] req) s"
| "perform X cfg st d UiLoginPage req s = h_ui_login_page X (the (st_template_engine st)) (with_params [] req) s"
| "perform X cfg st d UiLogin req s =
     h_ui_login X (the (st_template_engine st)) (cfg_tls_cert_path cfg \<noteq> None \<and> cfg_tls_key_path cfg \<noteq> None) d
       (with_params [] req) s"
| "perform X cfg st d UiLogout req s = h_ui_logout X d (with_params [] req) s"
| "perform X cfg st d UiItems req s = h_ui_items X (the (st_template_engine st)) d (with_params [] req) s"
| "perform X cfg st d UiCreate req s = h_ui_create X (the (st_template_engine st)) d (with_params [] req) s"
| "perform X cfg st d (UiDelete i) req s = h_ui_delete X d (with_params [(''id'', i)] req) s"
| "perform X cfg st d UiMetrics req s = h_ui_metrics X (the (st_template_engine st)) d (with_params [] req) s"
| "perform X cfg st d MetricsText req s = h_metrics X (with_params [] req) s"
| "perform X cfg st d Forward req s =
     h_proxy X (the (st_proxy_client st)) (the (cfg_proxy_upstream cfg)) (cfg_proxy_strip_prefix cfg)
       (with_params (if path_segments (path req) = [] then [] else [(''path'', join ''/'' (path_segments (path req)))]) req) s"
| "perform X cfg st d MethodNotAllowed req s = (s, rb_empty (l_http X) method_not_allowed)"
| "perform X cfg st d NotFoundHere req s = (s, rb_text (l_http X) (''404 Not Found'' @ newline) not_found)"

lemma with_params_simps [simp]:
  "req_body (with_params ps req) = req_body req"
  "header L (with_params ps req) k = header L req k"
  "session_token L (with_params ps req) = session_token L req"
  "csrf_field (with_params ps req) = csrf_field req"
  "query_param (with_params ps req) k = query_param req k"
  "path_param (with_params ps req) k = map_of ps k"
  by (simp_all add: with_params_def header_def session_token_def csrf_field_def form_param_def query_param_def path_param_def)

lemma require_bearer_params [simp]: "require_bearer X jwt now (with_params ps req) = require_bearer X jwt now req"
  by (simp add: require_bearer_def)

abbreviation has_ui :: "('ek, 'dk, 't, 'h) app_state \<Rightarrow> bool" where
  "has_ui st \<equiv> st_template_engine st \<noteq> None"

abbreviation has_proxy :: "server_config \<Rightarrow> ('ek, 'dk, 't, 'h) app_state \<Rightarrow> bool" where
  "has_proxy cfg st \<equiv> st_proxy_client st \<noteq> None \<and> cfg_proxy_upstream cfg \<noteq> None"

subsection \<open>The table and the router agree\<close>

text \<open>The routes in three blocks: those that are always there, the pages, and the last two.\<close>

definition base_entries ::
    "('h, 'db, 'ph, 'ek, 'dk, 't, 'f) app_libs \<Rightarrow> server_config \<Rightarrow> ('ek, 'dk, 't, 'h) app_state \<Rightarrow> draws \<Rightarrow>
     ('h, 'db app_shared) route_entry list" where
  "base_entries X cfg st d =
     [entry ''GET'' [] (h_root X), entry ''GET'' [Literal ''health''] (h_health X),
      entry ''GET'' [Literal ''echo'', Param ''message''] (h_echo X),
      entry ''GET'' [Literal ''fib'', Param ''n''] (h_fib X),
      entry ''GET'' [Literal ''static'', Wildcard ''filepath''] (h_static X (cfg_static_dir cfg)),
      entry ''POST'' [Literal ''auth'', Literal ''token''] (h_auth_token X (st_jwt st) d),
      entry ''GET'' [Literal ''api'', Literal ''items''] (h_list_items X),
      entry ''GET'' [Literal ''api'', Literal ''items'', Param ''id''] (h_get_item X),
      entry ''POST'' [Literal ''api'', Literal ''admin'', Literal ''items''] (h_admin_create X (st_jwt st) d),
      entry ''DELETE'' [Literal ''api'', Literal ''admin'', Literal ''items'', Param ''id'']
        (h_admin_delete X (st_jwt st) d)]"

definition ui_entries ::
    "('h, 'db, 'ph, 'ek, 'dk, 't, 'f) app_libs \<Rightarrow> server_config \<Rightarrow> 't \<Rightarrow> draws \<Rightarrow> ('h, 'db app_shared) route_entry list" where
  "ui_entries X cfg engine d =
     [entry ''GET'' [Literal ''ui''] (h_ui_root X),
      entry ''GET'' [Literal ''ui'', Literal ''index''] (h_ui_index X engine d),
      entry ''GET'' [Literal ''ui'', Literal ''login''] (h_ui_login_page X engine),
      entry ''POST'' [Literal ''ui'', Literal ''login'']
        (h_ui_login X engine (cfg_tls_cert_path cfg \<noteq> None \<and> cfg_tls_key_path cfg \<noteq> None) d),
      entry ''POST'' [Literal ''ui'', Literal ''logout''] (h_ui_logout X d),
      entry ''GET'' [Literal ''ui'', Literal ''items''] (h_ui_items X engine d),
      entry ''POST'' [Literal ''ui'', Literal ''items''] (h_ui_create X engine d),
      entry ''POST'' [Literal ''ui'', Literal ''items'', Param ''id'', Literal ''delete''] (h_ui_delete X d),
      entry ''GET'' [Literal ''ui'', Literal ''metrics''] (h_ui_metrics X engine d)]"

lemma routes_blocks:
  "routes (build_router X cfg st d) =
     base_entries X cfg st d @
     (case st_template_engine st of Some engine \<Rightarrow> ui_entries X cfg engine d | None \<Rightarrow> []) @
     entry ''GET'' [Literal ''metrics''] (h_metrics X) #
     (case (st_proxy_client st, cfg_proxy_upstream cfg) of
        (Some client, Some upstream) \<Rightarrow>
          [entry ''*'' [Wildcard ''path''] (h_proxy X client upstream (cfg_proxy_strip_prefix cfg))]
      | _ \<Rightarrow> [])"
  by (cases "st_template_engine st"; cases "st_proxy_client st"; cases "cfg_proxy_upstream cfg")
    (simp_all add: build_router_def ui_routes_def router_defs Let_def route_patterns ui_patterns
      base_entries_def ui_entries_def)


text \<open>The routes that match the path of a request, each with its method and what its handler returns.\<close>

definition hits :: "'h http_request \<Rightarrow> 's \<Rightarrow> ('h, 's) route_entry list \<Rightarrow> (string \<times> 's \<times> 'h http_response) list" where
  "hits req s rs =
     concat (map (\<lambda>r. case match_path r (path req) of
                       Some ps \<Rightarrow> [(re_method r, re_handler r (req\<lparr>req_path_params := ps\<rparr>) s)]
                     | None \<Rightarrow> []) rs)"

lemma hits_simps [simp]:
  "hits req s [] = []"
  "hits req s (r # rs) =
     (case match_path r (path req) of
        Some ps \<Rightarrow> (re_method r, re_handler r (req\<lparr>req_path_params := ps\<rparr>) s) # hits req s rs
      | None \<Rightarrow> hits req s rs)"
  "hits req s (rs @ rs') = hits req s rs @ hits req s rs'"
  by (simp_all add: hits_def split: option.split)

lemma dispatch_hits:
  "dispatch_loop L req b rs s =
     (case find (\<lambda>(m, _). m = ''*'' \<or> m = req_method req) (hits req s rs) of
        Some (_, out) \<Rightarrow> out
      | None \<Rightarrow> (s, if b \<or> hits req s rs \<noteq> [] then rb_empty L method_not_allowed
                    else rb_text L (''404 Not Found'' @ newline) not_found))"
  by (induction L req b rs s rule: dispatch_loop.induct) (auto simp: method_ok_def split: option.splits)

lemma match_entry:
  "match_path (entry m segs h) p =
     (if fits segs (length (path_segments p)) then match_loop (path_segments p) 0 segs Map.empty else None)"
  by (simp add: match_path_fits)

lemma segs_cases:
  obtains "xs = []" | a where "xs = [a]" | a b where "xs = [a, b]" | a b c where "xs = [a, b, c]"
  | a b c e where "xs = [a, b, c, e]" | a b c e f g where "xs = a # b # c # e # f # g"
  by (cases xs rule: remdups_adj.cases) (metis list.exhaust)+

abbreviation outcomes ::
    "('h, 'db, 'ph, 'ek, 'dk, 't, 'f) app_libs \<Rightarrow> server_config \<Rightarrow> ('ek, 'dk, 't, 'h) app_state \<Rightarrow> draws \<Rightarrow>
     'h http_request \<Rightarrow> 'db app_shared \<Rightarrow> (string \<times> action) list \<Rightarrow>
     (string \<times> 'db app_shared \<times> 'h http_response) list" where
  "outcomes X cfg st d req s ms \<equiv> map (\<lambda>(m, act). (m, perform X cfg st d act req s)) ms"

lemma hits_base:
  "hits req s (base_entries X cfg st d) =
     (if path_segments (path req) = [''metrics''] then []
      else outcomes X cfg st d req s (methods_at False (path_segments (path req))))"
  by (cases "path_segments (path req)" rule: segs_cases)
    (auto simp: base_entries_def match_entry methods_at_def api_methods_def with_params_def)

lemma hits_ui:
  assumes "st_template_engine st = Some engine"
  shows "hits req s (ui_entries X cfg engine d) =
     (case path_segments (path req) of
        a # rest \<Rightarrow> if a = ''ui'' then outcomes X cfg st d req s (ui_methods rest) else []
      | [] \<Rightarrow> [])"
  using assms
  by (cases "path_segments (path req)" rule: segs_cases)
    (auto simp: ui_entries_def match_entry ui_methods_def with_params_def)

lemma methods_at_blocks:
  "methods_at ui segs =
     (if segs = [''metrics''] then [] else methods_at False segs) @
     (case segs of a # rest \<Rightarrow> if ui \<and> a = ''ui'' then ui_methods rest else [] | [] \<Rightarrow> []) @
     (if segs = [''metrics''] then [(''GET'', MetricsText)] else [])"
  by (auto simp: methods_at_def split: list.splits)

lemma hits_metrics:
  "hits req s [entry ''GET'' [Literal ''metrics''] (h_metrics X)] =
     (if path_segments (path req) = [''metrics''] then outcomes X cfg st d req s [(''GET'', MetricsText)] else [])"
  by (cases "path_segments (path req)" rule: segs_cases) (auto simp: match_entry with_params_def)

lemma hits_proxy:
  "hits req s [entry ''*'' [Wildcard ''path''] (h_proxy X client upstream strip)] =
     [(''*'', h_proxy X client upstream strip
        (with_params (if path_segments (path req) = [] then [] else [(''path'', join ''/'' (path_segments (path req)))])
           req) s)]"
  by (simp add: match_entry with_params_def)

lemma hits_routes:
  "hits req s (routes (build_router X cfg st d)) =
     outcomes X cfg st d req s (methods_at (has_ui st) (path_segments (path req))) @
     (if has_proxy cfg st then [(''*'', perform X cfg st d Forward req s)] else [])"
proof -
  let ?ui = "case st_template_engine st of Some engine \<Rightarrow> ui_entries X cfg engine d | None \<Rightarrow> []"
  let ?px = "case (st_proxy_client st, cfg_proxy_upstream cfg) of
        (Some client, Some upstream) \<Rightarrow>
          [entry ''*'' [Wildcard ''path''] (h_proxy X client upstream (cfg_proxy_strip_prefix cfg))]
      | _ \<Rightarrow> []"
  have ui: "hits req s ?ui = outcomes X cfg st d req s
        (case path_segments (path req) of
           a # rest \<Rightarrow> if has_ui st \<and> a = ''ui'' then ui_methods rest else [] | [] \<Rightarrow> [])"
    by (cases "st_template_engine st") (simp_all add: hits_ui split: list.split)
  have px: "hits req s ?px = (if has_proxy cfg st then [(''*'', perform X cfg st d Forward req s)] else [])"
    by (cases "st_proxy_client st"; cases "cfg_proxy_upstream cfg") (simp_all add: hits_proxy del: hits_simps(2))
  have "hits req s (routes (build_router X cfg st d)) = hits req s (base_entries X cfg st d) @ hits req s ?ui @
      hits req s [entry ''GET'' [Literal ''metrics''] (h_metrics X)] @ hits req s ?px"
    by (simp add: routes_blocks split: option.split del: hits_simps(2)) (simp split: option.split)
  then show ?thesis
    unfolding ui px hits_base hits_metrics [of req s X cfg st d] methods_at_blocks [of "has_ui st"]
    by simp
qed

lemma methods_at_no_star: "(''*'', act) \<notin> set (methods_at ui segs)"
  by (cases segs rule: segs_cases) (auto simp: methods_at_def api_methods_def ui_methods_def)

lemma find_outcomes:
  assumes "\<forall>act. (''*'', act) \<notin> set ms"
  shows "find (\<lambda>(m, _). m = ''*'' \<or> m = meth) (outcomes X cfg st d req s ms @ rest) =
     (case map_of ms meth of
        Some act \<Rightarrow> Some (meth, perform X cfg st d act req s)
      | None \<Rightarrow> find (\<lambda>(m, _). m = ''*'' \<or> m = meth) rest)"
  using assms by (induction ms) auto

lemma dispatch_table:
  "dispatch (l_http X) (build_router X cfg st d) req s =
     perform X cfg st d (route_of (has_ui st) (has_proxy cfg st) (req_method req) (path_segments (path req))) req s"
proof -
  let ?segs = "path_segments (path req)" and ?proxy = "has_proxy cfg st"
  let ?ms = "methods_at (has_ui st) ?segs" and ?hits = "hits req s (routes (build_router X cfg st d))"
  have found: "find (\<lambda>(m, _). m = ''*'' \<or> m = req_method req) ?hits =
      (case map_of ?ms (req_method req) of
         Some act \<Rightarrow> Some (req_method req, perform X cfg st d act req s)
       | None \<Rightarrow> if ?proxy then Some (''*'', perform X cfg st d Forward req s) else None)"
    by (simp add: hits_routes find_outcomes methods_at_no_star cong: option.case_cong del: perform.simps)
  have none: "?hits = [] \<longleftrightarrow> ?ms = [] \<and> \<not> ?proxy"
    by (simp add: hits_routes)
  show ?thesis
    unfolding dispatch_def dispatch_hits found none route_of_def
    by (cases "map_of ?ms (req_method req)"; cases ?proxy; cases "?ms = []")
      (auto simp del: perform.simps(21))
qed

subsection \<open>Properties\<close>

text \<open>
  C6: The router the server builds is its route table.  For every configuration, every request and every state,
  \<^verbatim>\<open>build_router\<close> followed by \<^verbatim>\<open>Router::dispatch\<close> does what the table says for the method and the
  segments of the path: the handler registered for them with its path parameters; else the proxy, with the whole path, when
  one is configured; else \<^verbatim>\<open>405\<close> when the path is served under another method and \<^verbatim>\<open>404\<close> when it is
  not served.  In particular no route is shadowed by an earlier one and the catch-all route of the proxy takes nothing from
  a local route, but it does take every request whose method a local path does not answer.
\<close>

theorem routing_table:
  "dispatch (l_http X) (build_router X cfg st d) req s =
     perform X cfg st d (route_of (has_ui st) (has_proxy cfg st) (req_method req) (path_segments (path req))) req s"
  by (rule dispatch_table)

end
