(* ===== verification/Routes.thy ===== *)
theory Routes
  imports Effects Route_Table
begin

text \<open>
  What the routes of \<^verbatim>\<open>build_router\<close> (\<^verbatim>\<open>src/server/connection.rs\<close>) can do to the data.

  The security contract of a handler is \<open>guarded\<close>: it never changes the users or the metrics, it
  changes the items only for a request with a valid Bearer token or with a live session and that session's
  CSRF token, and it makes a session only for credentials that the stored password hash accepts.
  Every route satisfies it.
\<close>

subsection \<open>Routing\<close>

lemma id_segments:
  assumes "i \<noteq> []" and "CHR ''/'' \<notin> set i"
  shows "path_segments (''/api/items/'' @ i) = [''api'', ''items'', i]"
    and "path_segments (''/api/admin/items/'' @ i) = [''api'', ''admin'', ''items'', i]"
  using assms by (simp_all add: path_segments_def split_on_id)

text \<open>The item API: which handler serves which path and method, with which parameters.\<close>

lemma dispatch_api:
  "path req = ''/api/admin/items'' \<Longrightarrow> req_method req = ''POST'' \<Longrightarrow>
     dispatch (l_http X) (build_router X cfg st d) req s =
       h_admin_create X (st_jwt st) d (req\<lparr>req_path_params := Map.empty\<rparr>) s"
  "path_segments (path req) = [''api'', ''admin'', ''items'', i] \<Longrightarrow> req_method req = ''DELETE'' \<Longrightarrow>
     dispatch (l_http X) (build_router X cfg st d) req s =
       h_admin_delete X (st_jwt st) d (req\<lparr>req_path_params := [''id'' \<mapsto> i]\<rparr>) s"
  "path_segments (path req) = [''api'', ''items'', i] \<Longrightarrow> req_method req = ''GET'' \<Longrightarrow>
     dispatch (l_http X) (build_router X cfg st d) req s = h_get_item X (req\<lparr>req_path_params := [''id'' \<mapsto> i]\<rparr>) s"
  by (simp_all add: dispatch_table route_of_def methods_at_def api_methods_def with_params_def path_segments_def)

subsection \<open>The contract of a handler\<close>

definition bearer_valid ::
    "('h, 'db, 'ph, 'ek, 'dk, 't, 'f) app_libs \<Rightarrow> ('ek, 'dk) jwt_secret \<Rightarrow> nat \<Rightarrow> 'h http_request \<Rightarrow> bool" where
  "bearer_valid X jwt now req \<longleftrightarrow>
     (\<exists>token c. extract_bearer (header (l_http X) req ''authorization'') = Some token \<and>
        verify_token (l_jwt X) now jwt token = Inr c)"

definition session_valid ::
    "('h, 'db, 'ph, 'ek, 'dk, 't, 'f) app_libs \<Rightarrow> nat \<Rightarrow> 'h http_request \<Rightarrow> tables \<Rightarrow> bool" where
  "session_valid X now req t \<longleftrightarrow>
     (\<exists>tok x e. session_token (l_http X) req = Some tok \<and> sessions_of t tok = Some (x, e) \<and> int now < e \<and>
        csrf_field req = csrf_token x)"

definition login_valid ::
    "('h, 'db, 'ph, 'ek, 'dk, 't, 'f) app_libs \<Rightarrow> 'h http_request \<Rightarrow> tables \<Rightarrow> string \<Rightarrow> bool" where
  "login_valid X req t user \<longleftrightarrow>
     (\<exists>pass hash ph. login_form (l_percent_decode_lossy X) (req_body req) = (user, pass) \<and>
        users_of t user = Some hash \<and> argon2_parse_hash (l_argon2 X) hash = Inr ph \<and>
        argon2_verify_password (l_argon2 X) pass ph)"

definition guarded ::
    "('h, 'db, 'ph, 'ek, 'dk, 't, 'f) app_libs \<Rightarrow> ('ek, 'dk) jwt_secret \<Rightarrow> draws \<Rightarrow> ('h, 'db) route_handler \<Rightarrow> bool" where
  "guarded X jwt d h \<longleftrightarrow>
     (\<forall>req s s' resp. h req s = (s', resp) \<longrightarrow> tables_ok (sql_tables (l_sql X) (sh_db s)) \<longrightarrow>
        (let t = sql_tables (l_sql X) (sh_db s); t' = sql_tables (l_sql X) (sh_db s') in
         sh_metrics s' = sh_metrics s \<and> tables_ok t' \<and> tab_users t' = tab_users t \<and>
         (items_of t' \<noteq> items_of t \<longrightarrow> bearer_valid X jwt (dr_now d) req \<or> session_valid X (dr_now d) req t) \<and>
         (\<forall>k x e. sessions_of t' k = Some (x, e) \<longrightarrow>
            (\<exists>e0. sessions_of t k = Some (x, e0)) \<or>
            k = dr_session_token d \<and> csrf_token x = dr_csrf_token d \<and> login_valid X req t (username x))))"

lemma request_update_simps [simp]:
  "bearer_valid X jwt now (req\<lparr>req_path_params := ps\<rparr>) = bearer_valid X jwt now req"
  "session_valid X now (req\<lparr>req_path_params := ps\<rparr>) t = session_valid X now req t"
  "login_valid X (req\<lparr>req_path_params := ps\<rparr>) t u = login_valid X req t u"
  by (simp_all add: bearer_valid_def session_valid_def login_valid_def header_def session_token_def
      csrf_field_def form_param_def)

lemma with_db_eq:
  "with_db f s k = (s', a) \<longleftrightarrow> (\<exists>db r. f (sh_db s) = (db, r) \<and> k r (s\<lparr>sh_db := db\<rparr>) = (s', a))"
  by (auto simp: with_db_def split: prod.splits)

lemma guardedI:
  assumes "\<And>req s s' resp. h req s = (s', resp) \<Longrightarrow> tables_ok (sql_tables (l_sql X) (sh_db s)) \<Longrightarrow>
      sh_metrics s' = sh_metrics s \<and>
      (keeps (sql_tables (l_sql X) (sh_db s)) (sql_tables (l_sql X) (sh_db s')) \<or>
       keeps_but_items (sql_tables (l_sql X) (sh_db s)) (sql_tables (l_sql X) (sh_db s')) \<and>
         (bearer_valid X jwt (dr_now d) req \<or> session_valid X (dr_now d) req (sql_tables (l_sql X) (sh_db s))))"
  shows "guarded X jwt d h"
  unfolding guarded_def Let_def
proof (intro allI impI)
  fix req s s' resp
  assume h: "h req s = (s', resp)" and ok: "tables_ok (sql_tables (l_sql X) (sh_db s))"
  show "sh_metrics s' = sh_metrics s \<and> tables_ok (sql_tables (l_sql X) (sh_db s')) \<and>
    tab_users (sql_tables (l_sql X) (sh_db s')) = tab_users (sql_tables (l_sql X) (sh_db s)) \<and>
    (items_of (sql_tables (l_sql X) (sh_db s')) \<noteq> items_of (sql_tables (l_sql X) (sh_db s)) \<longrightarrow>
       bearer_valid X jwt (dr_now d) req \<or> session_valid X (dr_now d) req (sql_tables (l_sql X) (sh_db s))) \<and>
    (\<forall>k x e. sessions_of (sql_tables (l_sql X) (sh_db s')) k = Some (x, e) \<longrightarrow>
       (\<exists>e0. sessions_of (sql_tables (l_sql X) (sh_db s)) k = Some (x, e0)) \<or>
       k = dr_session_token d \<and> csrf_token x = dr_csrf_token d \<and>
       login_valid X req (sql_tables (l_sql X) (sh_db s)) (username x))"
    using assms [OF h ok] ok
    by (auto simp: keeps_def keeps_but_items_def no_new_sessions_def items_of_def sessions_of_def)
qed

subsection \<open>Every handler keeps the contract\<close>

text \<open>
  \<open>related R\<close> says that the metrics are the same and that the tables are related by \<open>R\<close>; a handler
  is followed through its database operations with \<open>related_with_db\<close>.
\<close>

definition related ::
    "(tables \<Rightarrow> tables \<Rightarrow> bool) \<Rightarrow> 'db sql_engine \<Rightarrow> 'db app_shared \<Rightarrow> 'db app_shared \<Rightarrow> bool" where
  "related R E s s' \<longleftrightarrow> sh_metrics s' = sh_metrics s \<and> R (sql_tables E (sh_db s)) (sql_tables E (sh_db s'))"

lemma related_refl [simp]: "related keeps E s s" "related keeps_but_items E s s"
  by (simp_all add: related_def keeps_but_items_refl)

lemma related_with_db:
  assumes "related R E s s1"
    and "\<And>db r. f (sh_db s1) = (db, r) \<Longrightarrow> R (sql_tables E (sh_db s)) (sql_tables E (sh_db s1)) \<Longrightarrow>
      R (sql_tables E (sh_db s)) (sql_tables E db)"
    and "\<And>r s2. related R E s s2 \<Longrightarrow> related R E s (fst (k r s2))"
  shows "related R E s (fst (with_db f s1 k))"
proof (cases "f (sh_db s1)")
  case (Pair db r)
  then have "related R E s (s1\<lparr>sh_db := db\<rparr>)" using assms(1,2) by (simp add: related_def)
  with Pair assms(3) show ?thesis by (simp add: with_db_def)
qed

lemma related_keeps_but_items: "related keeps E s s' \<Longrightarrow> related keeps_but_items E s s'"
  by (auto simp: related_def keeps_def keeps_but_items_def)

lemma guarded_related:
  assumes "\<And>req s. tables_ok (sql_tables (l_sql X) (sh_db s)) \<Longrightarrow>
    related keeps (l_sql X) s (fst (h req s)) \<or>
    related keeps_but_items (l_sql X) s (fst (h req s)) \<and>
      (bearer_valid X jwt (dr_now d) req \<or> session_valid X (dr_now d) req (sql_tables (l_sql X) (sh_db s)))"
  shows "guarded X jwt d h"
proof (rule guardedI)
  fix req s s' resp
  assume "h req s = (s', resp)" and ok: "tables_ok (sql_tables (l_sql X) (sh_db s))"
  then have "fst (h req s) = s'" by simp
  with assms [OF ok, of req] show "sh_metrics s' = sh_metrics s \<and>
      (keeps (sql_tables (l_sql X) (sh_db s)) (sql_tables (l_sql X) (sh_db s')) \<or>
       keeps_but_items (sql_tables (l_sql X) (sh_db s)) (sql_tables (l_sql X) (sh_db s')) \<and>
         (bearer_valid X jwt (dr_now d) req \<or> session_valid X (dr_now d) req (sql_tables (l_sql X) (sh_db s))))"
    by (auto simp: related_def)
qed

lemma require_bearer_Inr: "require_bearer X jwt now req = Inr c \<Longrightarrow> bearer_valid X jwt now req"
  by (auto simp: require_bearer_def bearer_valid_def split: option.splits sum.splits)

locale application = database "l_sql X" for X :: "('h, 'db, 'ph, 'ek, 'dk, 't, 'f) app_libs"
begin

lemma op_keeps:
  "keeps t (sql_tables (l_sql X) db) \<Longrightarrow> verify_user (l_sql X) A u p db = (db', r1) \<Longrightarrow> keeps t (sql_tables (l_sql X) db')"
  "keeps t (sql_tables (l_sql X) db) \<Longrightarrow> list_items (l_sql X) db = (db', r2) \<Longrightarrow> keeps t (sql_tables (l_sql X) db')"
  "keeps t (sql_tables (l_sql X) db) \<Longrightarrow> get_item (l_sql X) i db = (db', r3) \<Longrightarrow> keeps t (sql_tables (l_sql X) db')"
  "keeps t (sql_tables (l_sql X) db) \<Longrightarrow> current_session (l_sql X) now tok db = (db', r4) \<Longrightarrow>
     keeps t (sql_tables (l_sql X) db')"
  "keeps t (sql_tables (l_sql X) db) \<Longrightarrow> session_remove (l_sql X) tk db = (db', r5) \<Longrightarrow>
     keeps t (sql_tables (l_sql X) db')"
  by (auto dest: verify_user_pure list_items_pure get_item_pure current_session_keeps session_remove_keeps
      intro: keeps_trans)

lemma op_keeps_but_items:
  "keeps_but_items t (sql_tables (l_sql X) db) \<Longrightarrow> list_items (l_sql X) db = (db', r1) \<Longrightarrow>
     keeps_but_items t (sql_tables (l_sql X) db')"
  "keeps t (sql_tables (l_sql X) db) \<Longrightarrow> create_item (l_sql X) u n ds db = (db', r2) \<Longrightarrow>
     keeps_but_items t (sql_tables (l_sql X) db')"
  "keeps t (sql_tables (l_sql X) db) \<Longrightarrow> delete_item (l_sql X) i db = (db', r3) \<Longrightarrow>
     keeps_but_items t (sql_tables (l_sql X) db')"
  by (auto dest: list_items_pure create_item_keeps delete_item_keeps intro: keeps_but_items_trans)

lemma guarded_plain:
  "guarded X jwt d (h_root X)" "guarded X jwt d (h_health X)" "guarded X jwt d (h_echo X)"
  "guarded X jwt d (h_fib X)" "guarded X jwt d (h_static X dir)" "guarded X jwt d (h_metrics X)"
  "guarded X jwt d (h_proxy X client up strip)" "guarded X jwt d (h_ui_root X)"
  "guarded X jwt d (h_ui_login_page X engine)"
  by (rule guarded_related, rule disjI1, simp add: h_root_def h_health_def h_echo_def h_fib_def h_static_def
      h_metrics_def h_proxy_def h_ui_root_def h_ui_login_page_def Let_def split: sum.split)+

lemma guarded_reads:
  "guarded X jwt d (h_auth_token X jwt d)" "guarded X jwt d (h_list_items X)" "guarded X jwt d (h_get_item X)"
  "guarded X jwt d (h_ui_index X engine d)" "guarded X jwt d (h_ui_logout X d)"
  "guarded X jwt d (h_ui_items X engine d)" "guarded X jwt d (h_ui_metrics X engine d)"
  by (rule guarded_related, rule disjI1,
      auto simp: h_auth_token_def h_list_items_def h_get_item_def h_ui_index_def h_ui_logout_def h_ui_items_def
        h_ui_metrics_def Let_def
      split: option.split sum.split bool.split intro!: related_with_db elim: op_keeps)+

lemma related_with_item_op:
  assumes "related keeps (l_sql X) s s1"
    and "\<And>db r. f (sh_db s1) = (db, r) \<Longrightarrow> keeps (sql_tables (l_sql X) (sh_db s)) (sql_tables (l_sql X) (sh_db s1)) \<Longrightarrow>
      keeps_but_items (sql_tables (l_sql X) (sh_db s)) (sql_tables (l_sql X) db)"
    and "\<And>r s2. related keeps_but_items (l_sql X) s s2 \<Longrightarrow> related keeps_but_items (l_sql X) s (fst (k r s2))"
  shows "related keeps_but_items (l_sql X) s (fst (with_db f s1 k))"
proof (cases "f (sh_db s1)")
  case (Pair db r)
  then have "related keeps_but_items (l_sql X) s (s1\<lparr>sh_db := db\<rparr>)"
    using assms(1,2) by (simp add: related_def)
  with Pair assms(3) show ?thesis by (simp add: with_db_def)
qed

lemma guarded_admin:
  "guarded X jwt d (h_admin_create X jwt d)" "guarded X jwt d (h_admin_delete X jwt d)"
proof (rule_tac [!] guarded_related)
  fix req s
  show "related keeps (l_sql X) s (fst (h_admin_create X jwt d req s)) \<or>
      related keeps_but_items (l_sql X) s (fst (h_admin_create X jwt d req s)) \<and>
      (bearer_valid X jwt (dr_now d) req \<or> session_valid X (dr_now d) req (sql_tables (l_sql X) (sh_db s)))"
    by (cases "require_bearer X jwt (dr_now d) req")
      (auto simp: h_admin_create_def dest: require_bearer_Inr split: option.split sum.split
        intro!: related_with_item_op elim: op_keeps_but_items)
  show "related keeps (l_sql X) s (fst (h_admin_delete X jwt d req s)) \<or>
      related keeps_but_items (l_sql X) s (fst (h_admin_delete X jwt d req s)) \<and>
      (bearer_valid X jwt (dr_now d) req \<or> session_valid X (dr_now d) req (sql_tables (l_sql X) (sh_db s)))"
    by (cases "require_bearer X jwt (dr_now d) req")
      (auto simp: h_admin_delete_def Let_def dest: require_bearer_Inr split: option.split sum.split bool.split
        intro!: related_with_item_op elim: op_keeps_but_items)
qed

text \<open>The two forms that change items share their opening: session, then CSRF token, then the operation.\<close>

lemma guarded_form:
  assumes "\<And>req s. h req s =
      with_db (current_session (l_sql X) (dr_now d) (session_token (l_http X) req)) s (\<lambda>session s.
      case session of
        None \<Rightarrow> (s, resp1)
      | Some x \<Rightarrow> if csrf_token x \<noteq> csrf_field req then (s, resp2) else k req s)"
    and "\<And>req s s1. related keeps (l_sql X) s s1 \<Longrightarrow> related keeps_but_items (l_sql X) s (fst (k req s1))"
  shows "guarded X jwt d h"
proof (rule guarded_related)
  fix req and s :: "'db app_shared"
  assume ok: "tables_ok (sql_tables (l_sql X) (sh_db s))"
  obtain db found where cs: "current_session (l_sql X) (dr_now d) (session_token (l_http X) req) (sh_db s) = (db, found)"
    by fastforce
  have rel: "related keeps (l_sql X) s (s\<lparr>sh_db := db\<rparr>)"
    using current_session_keeps [OF cs] by (simp add: related_def)
  show "related keeps (l_sql X) s (fst (h req s)) \<or>
      related keeps_but_items (l_sql X) s (fst (h req s)) \<and>
      (bearer_valid X jwt (dr_now d) req \<or> session_valid X (dr_now d) req (sql_tables (l_sql X) (sh_db s)))"
  proof (cases "found \<noteq> None \<and> csrf_token (the found) = csrf_field req")
    case True
    then obtain x where x: "found = Some x" "csrf_token x = csrf_field req" by auto
    then have "session_valid X (dr_now d) req (sql_tables (l_sql X) (sh_db s))"
      using current_session_Some [OF cs [unfolded x(1)] ok] by (auto simp: session_valid_def)
    with x cs assms(2) [OF rel] show ?thesis by (simp add: assms(1) with_db_def)
  next
    case False
    with cs rel have "related keeps (l_sql X) s (fst (h req s))"
      by (cases found) (auto simp: assms(1) with_db_def)
    then show ?thesis ..
  qed
qed

lemma guarded_ui_forms:
  "guarded X jwt d (h_ui_create X engine d)" "guarded X jwt d (h_ui_delete X d)"
proof -
  show "guarded X jwt d (h_ui_create X engine d)"
    by (rule guarded_form, simp add: h_ui_create_def Let_def)
      (auto simp: Let_def case_prod_beta split: sum.split
        intro!: related_with_item_op related_with_db [where f = "list_items (l_sql X)"] elim: op_keeps_but_items)
  show "guarded X jwt d (h_ui_delete X d)"
    by (rule guarded_form, simp add: h_ui_delete_def Let_def)
      (auto simp: Let_def split: sum.split intro!: related_with_item_op elim: op_keeps_but_items)
qed

lemma guarded_login: "guarded X jwt d (h_ui_login X engine secure d)"
  unfolding guarded_def Let_def
proof (intro allI impI)
  fix req and s s' :: "'db app_shared" and resp
  let ?t = "sql_tables (l_sql X) (sh_db s)" and ?t' = "sql_tables (l_sql X) (sh_db s')"
  assume h: "h_ui_login X engine secure d req s = (s', resp)" and ok: "tables_ok ?t"
  obtain user pass where form: "login_form (l_percent_decode_lossy X) (req_body req) = (user, pass)" by fastforce
  obtain db1 verdict where v: "verify_user (l_sql X) (l_argon2 X) user pass (sh_db s) = (db1, verdict)" by fastforce
  have same: "sql_tables (l_sql X) db1 = ?t" using verify_user_pure [OF v] .
  obtain db2 made where c: "session_create (l_sql X) (dr_session_token d) (dr_csrf_token d) (int (dr_now d)) user db1 = (db2, made)"
    by fastforce
  note create = session_create_effect [OF c, unfolded same]
  show "sh_metrics s' = sh_metrics s \<and> tables_ok ?t' \<and> tab_users ?t' = tab_users ?t \<and>
    (items_of ?t' \<noteq> items_of ?t \<longrightarrow> bearer_valid X jwt (dr_now d) req \<or> session_valid X (dr_now d) req ?t) \<and>
    (\<forall>k x e. sessions_of ?t' k = Some (x, e) \<longrightarrow>
       (\<exists>e0. sessions_of ?t k = Some (x, e0)) \<or>
       k = dr_session_token d \<and> csrf_token x = dr_csrf_token d \<and> login_valid X req ?t (username x))"
  proof (cases "verdict = Inr True")
    case True
    then have "s' = s\<lparr>sh_db := db2\<rparr>"
      using h form v c by (auto simp: h_ui_login_def with_db_def split: sum.splits)
    moreover have "login_valid X req ?t user"
      using verify_user_Inr [OF v [unfolded True] ok] form by (auto simp: login_valid_def)
    moreover have "sessions_of ?t k = Some (x, e) \<or> k = dr_session_token d \<and> csrf_token x = dr_csrf_token d \<and> username x = user"
      if "sessions_of (sql_tables (l_sql X) db2) k = Some (x, e)" for k x e
      using create that by (metis session.select_convs)
    ultimately show ?thesis using create ok by (simp add: items_of_def) metis
  next
    case False
    then have "s' = s\<lparr>sh_db := db1\<rparr>"
      using h form v by (auto simp: h_ui_login_def with_db_def split: sum.splits bool.splits)
    then show ?thesis using same ok by auto
  qed
qed

lemma routes_guarded:
  "list_all (\<lambda>r. guarded X (st_jwt st) d (re_handler r)) (routes (build_router X cfg st d))"
  by (cases "st_template_engine st"; cases "st_proxy_client st"; cases "cfg_proxy_upstream cfg")
    (simp_all add: build_router_def ui_routes_def router_defs Let_def guarded_plain guarded_reads guarded_admin
      guarded_ui_forms guarded_login)

lemma dispatch_guarded: "guarded X (st_jwt st) d (\<lambda>req. dispatch L (build_router X cfg st d) req)"
  unfolding guarded_def
proof (intro allI impI)
  fix req and s s' :: "'db app_shared" and resp
  assume ok: "tables_ok (sql_tables (l_sql X) (sh_db s))"
  let ?contract = "let t = sql_tables (l_sql X) (sh_db s); t' = sql_tables (l_sql X) (sh_db s') in
      sh_metrics s' = sh_metrics s \<and> tables_ok t' \<and> tab_users t' = tab_users t \<and>
      (items_of t' \<noteq> items_of t \<longrightarrow> bearer_valid X (st_jwt st) (dr_now d) req \<or> session_valid X (dr_now d) req t) \<and>
      (\<forall>k x e. sessions_of t' k = Some (x, e) \<longrightarrow>
         (\<exists>e0. sessions_of t k = Some (x, e0)) \<or>
         k = dr_session_token d \<and> csrf_token x = dr_csrf_token d \<and> login_valid X req t (username x))"
  assume "dispatch L (build_router X cfg st d) req s = (s', resp)"
  then show ?contract
  proof (cases rule: dispatch_cases)
    case 1
    with ok show ?thesis by auto
  next
    case (2 r ps)
    then have "guarded X (st_jwt st) d (re_handler r)" using routes_guarded by (simp add: list_all_iff)
    from this [unfolded guarded_def, rule_format, OF 2(2) ok] show ?thesis by simp
  qed
qed

lemma dispatch_items:
  assumes "dispatch L (build_router X cfg st d) req s = (s', resp)" and "tables_ok (sql_tables (l_sql X) (sh_db s))"
  shows "tab_users (sql_tables (l_sql X) (sh_db s')) = tab_users (sql_tables (l_sql X) (sh_db s))"
    and "items_of (sql_tables (l_sql X) (sh_db s')) \<noteq> items_of (sql_tables (l_sql X) (sh_db s)) \<Longrightarrow>
      bearer_valid X (st_jwt st) (dr_now d) req \<or> session_valid X (dr_now d) req (sql_tables (l_sql X) (sh_db s))"
  using dispatch_guarded [unfolded guarded_def Let_def, rule_format, OF assms] by blast+

lemma dispatch_sessions:
  assumes "dispatch L (build_router X cfg st d) req s = (s', resp)" and "tables_ok (sql_tables (l_sql X) (sh_db s))"
    and "sessions_of (sql_tables (l_sql X) (sh_db s')) k = Some (x, e)"
  shows "(\<exists>e0. sessions_of (sql_tables (l_sql X) (sh_db s)) k = Some (x, e0)) \<or>
    k = dr_session_token d \<and> csrf_token x = dr_csrf_token d \<and>
    login_valid X req (sql_tables (l_sql X) (sh_db s)) (username x)"
  using dispatch_guarded [unfolded guarded_def Let_def, rule_format, OF assms(1,2)] assms(3) by blast

lemma respond_json_status:
  assumes "http_crate (l_http X)"
  shows "resp_status (respond_json X v (rb_new n)) = (if l_to_vec X v = None then 500 else n)"
    and "resp_status (rb_empty (l_http X) internal_error) = 500"
  by (simp_all add: respond_json_def rb_json_def rb_text_def rb_empty_def builder_defs
      http_crate.build_ok_eq [OF assms] split: option.split)

lemma admin_create_201:
  assumes "http_crate (l_http X)" and "h_admin_create X jwt d req s = (s', resp)" and "resp_status resp = 201"
  shows "\<exists>p. l_item_from_slice X (req_body req) = Some p \<and>
    items_of (sql_tables (l_sql X) (sh_db s')) =
      (items_of (sql_tables (l_sql X) (sh_db s)))(dr_item_id d \<mapsto> (ci_name p, ci_description p))"
proof -
  note status = respond_json_status [OF assms(1)]
  obtain c where "require_bearer X jwt (dr_now d) req = Inr c"
    using assms by (auto simp: h_admin_create_def require_bearer_def status split: sum.splits option.splits if_splits)
  moreover obtain p where p: "l_item_from_slice X (req_body req) = Some p"
    using assms calculation by (auto simp: h_admin_create_def status split: option.splits if_splits)
  moreover obtain db r where c: "create_item (l_sql X) (dr_item_id d) (ci_name p) (ci_description p) (sh_db s) = (db, r)"
    by fastforce
  ultimately have "\<exists>it. r = Inr it \<and> s' = s\<lparr>sh_db := db\<rparr>"
    using assms by (cases r) (auto simp: h_admin_create_def with_db_def status)
  with p c create_item_Inr(3) show ?thesis by fastforce
qed

lemma admin_delete_200:
  assumes "http_crate (l_http X)" and "h_admin_delete X jwt d req s = (s', resp)" and "resp_status resp = 200"
    and "path_param req ''id'' = Some i"
  shows "items_of (sql_tables (l_sql X) (sh_db s)) i \<noteq> None \<and>
    items_of (sql_tables (l_sql X) (sh_db s')) = (items_of (sql_tables (l_sql X) (sh_db s)))(i := None)"
proof -
  note status = respond_json_status [OF assms(1)]
  obtain c where "require_bearer X jwt (dr_now d) req = Inr c"
    using assms by (auto simp: h_admin_delete_def require_bearer_def status split: sum.splits option.splits if_splits)
  moreover obtain db r where c: "delete_item (l_sql X) i (sh_db s) = (db, r)" by fastforce
  ultimately have "r = Inr True \<and> s' = s\<lparr>sh_db := db\<rparr>"
    using assms by (cases r) (auto simp: h_admin_delete_def with_db_def status split: bool.splits if_splits)
  with c delete_item_Inr show ?thesis by fastforce
qed

lemma get_item_response:
  assumes "h_get_item X req s = (s', resp)" and "path_param req ''id'' = Some i"
    and "tables_ok (sql_tables (l_sql X) (sh_db s))"
  shows "resp = rb_empty (l_http X) internal_error \<or>
    resp = (case items_of (sql_tables (l_sql X) (sh_db s)) i of
       Some (n, ds) \<Rightarrow> respond_json X (json_item \<lparr>item_id = i, item_name = n, item_description = ds\<rparr>) ok
     | None \<Rightarrow> respond_json X (json_error ''item not found'') (rb_new 404))"
proof -
  obtain db r where g: "get_item (l_sql X) i (sh_db s) = (db, r)" by fastforce
  show ?thesis
  proof (cases r)
    case (Inr x)
    from get_item_Inr [OF g [unfolded Inr] assms(3)] assms(1,2) g Inr show ?thesis
      by (cases "items_of (sql_tables (l_sql X) (sh_db s)) i")
        (auto simp: h_get_item_def with_db_def)
  qed (use assms g in \<open>auto simp: h_get_item_def with_db_def\<close>)
qed

lemma dispatch_ok:
  "dispatch L (build_router X cfg st d) req s = (s', resp) \<Longrightarrow> tables_ok (sql_tables (l_sql X) (sh_db s)) \<Longrightarrow>
     tables_ok (sql_tables (l_sql X) (sh_db s'))"
  using dispatch_guarded [unfolded guarded_def Let_def, rule_format] by blast

end

interpretation demo: application demo_libs
  by (simp add: application_def mem.database_axioms)

subsection \<open>Properties\<close>


definition demo_create :: "(string \<times> string) list http_request" where
  "demo_create = demo_request ''POST'' ''/api/admin/items'' [(''authorization'', ''Bearer 3700.k.a'')] ''n:d''"

lemma demo_create_token:
  "extract_bearer (header alist_http (demo_create\<lparr>req_path_params := m\<rparr>) ''authorization'') = Some ''3700.k.a''"
  "verify_token clear_jwt 100 (st_jwt demo_state) ''3700.k.a'' = Inr \<lparr>claim_sub = ''a'', claim_exp = 3700\<rparr>"
proof -
  have "header alist_http demo_create ''authorization'' = Some ''Bearer 3700.k.a''" by code_simp
  then show "extract_bearer (header alist_http (demo_create\<lparr>req_path_params := m\<rparr>) ''authorization'') = Some ''3700.k.a''"
    by (simp add: header_def extract_bearer_def)
  show "verify_token clear_jwt 100 (st_jwt demo_state) ''3700.k.a'' = Inr \<lparr>claim_sub = ''a'', claim_exp = 3700\<rparr>"
    by (simp add: verify_token_def demo_state_def jwt_secret_new_def clear_jwt_def clear_decode_def
        parse_unsigned_def digit_value_def leeway_def)
qed

lemma demo_create_dispatch:
  "dispatch alist_http (build_router demo_libs demo_config demo_state demo_draws) demo_create (demo_shared empty_tables) =
     (\<lparr>sh_db = (empty_tables\<lparr>tab_items := Some [\<lparr>row_id = ''i'', row_name = ''n'', row_description = ''d'', row_created_at = 0\<rparr>]\<rparr>, 1),
       sh_metrics = metrics_new\<rparr>,
      respond_json demo_libs (json_item \<lparr>item_id = ''i'', item_name = ''n'', item_description = ''d''\<rparr>) (rb_new 201))"
proof -
  have "path demo_create = ''/api/admin/items''" and "req_method demo_create = ''POST''"
    by (simp_all add: demo_create_def demo_request_def path_def)
  note d = dispatch_api(1) [where X = demo_libs, OF this, unfolded demo_libs_simps]
  have "l_item_from_slice demo_libs (req_body demo_create) = Some \<lparr>ci_name = ''n'', ci_description = ''d''\<rparr>"
    by (simp add: demo_libs_def demo_create_def demo_request_def)
  then show ?thesis
    by (simp add: d h_admin_create_def require_bearer_def demo_create_token demo_draws_def demo_shared_def with_db_def
        create_item_def execute_def mem_run sql_apply.simps on_table_def empty_tables_def)
qed


text \<open>
  Sessions come from passwords only.  After any dispatched request, every stored session was
  already there for the same user with the same CSRF token, or it is the one fresh session of this
  request: then the request's form holds a user name and a password that the user's stored hash
  accepts, and the session is that user's.
\<close>

lemma sessions_need_login:
  assumes "database (l_sql X)" and "tables_ok (sql_tables (l_sql X) (sh_db s))"
    and "dispatch L (build_router X cfg st d) req s = (s', resp)"
    and "sessions_of (sql_tables (l_sql X) (sh_db s')) k = Some (x, e)"
  shows "(\<exists>e0. sessions_of (sql_tables (l_sql X) (sh_db s)) k = Some (x, e0)) \<or>
    k = dr_session_token d \<and> csrf_token x = dr_csrf_token d \<and>
    (\<exists>pass hash ph. login_form (l_percent_decode_lossy X) (req_body req) = (username x, pass) \<and>
       users_of (sql_tables (l_sql X) (sh_db s)) (username x) = Some hash \<and>
       argon2_parse_hash (l_argon2 X) hash = Inr ph \<and> argon2_verify_password (l_argon2 X) pass ph)"
  using application.dispatch_sessions [OF application.intro [OF assms(1)] assms(3,2,4)]
  by (simp add: login_valid_def)

definition demo_login :: "(string \<times> string) list http_request" where
  "demo_login = demo_request ''POST'' ''/ui/login'' [] ''username=u&password=p''"

definition user_tables :: tables where
  "user_tables = empty_tables\<lparr>tab_users := Some [\<lparr>row_username = ''u'', row_password_hash = ''s$p''\<rparr>]\<rparr>"

lemma demo_login_dispatch:
  "dispatch alist_http (build_router demo_libs demo_config demo_state demo_draws) demo_login s =
     h_ui_login demo_libs () False demo_draws (demo_login\<lparr>req_path_params := Map.empty\<rparr>) s"
proof -
  have "path_segments (path demo_login) = [''ui'', ''login'']" and "req_method demo_login = ''POST''"
    by (simp_all add: demo_login_def demo_request_def path_def path_segments_def)
  then show ?thesis
    using dispatch_table [of demo_libs demo_config demo_state demo_draws demo_login s]
    by (simp add: route_of_def methods_at_def ui_methods_def with_params_def demo_state_def demo_config_def)
qed

lemma demo_login_session:
  "sessions_of (fst (sh_db (fst (h_ui_login demo_libs () False demo_draws (demo_login\<lparr>req_path_params := Map.empty\<rparr>)
     (demo_shared user_tables))))) ''t'' = Some (\<lparr>username = ''u'', csrf_token = ''c''\<rparr>, 3700)"
proof -
  have "login_form lossy_decoder ''username=u&password=p'' = (''u'', ''p'')"
    using lossy.parse_form_encoded [of "''u''" "''p''" "''username''" "''password''"]
    by (simp add: login_form_def percent_encode_def encode_byte_def unreserved_def from_utf8_ok_ascii_Cons byte_def)
  moreover have "req_body demo_login = ''username=u&password=p''"
    by (simp add: demo_login_def demo_request_def)
  moreover have "verify_user mem_engine clear_argon2 ''u'' ''p'' (user_tables, 0) = ((user_tables, 1), Inr True)"
    by (simp add: verify_user_def fetch_optional_def mem_run sql_apply.simps on_table_def user_tables_def empty_tables_def
        clear_argon2_def)
  ultimately show ?thesis
    by (simp add: h_ui_login_def with_db_def demo_shared_def session_create_def execute_def mem_run sql_apply.simps
        on_table_def user_tables_def empty_tables_def demo_draws_def sessions_of_def SESSION_TTL_SECS_def split: sum.split)
qed



end
