(* ===== verification/Cancel.thy ===== *)
theory Cancel
  imports Routes
begin

text \<open>
  Requests that are dropped half-way.  \<^verbatim>\<open>tokio::time::timeout\<close> drops the future of a handler that takes too
  long, and hyper drops it when the client goes away; a future is dropped where it waits, so the handler
  has by then run some of its database statements, and of the one it waits for the effect may or may
  not have happened.

  A dropped run is the run of the same handler over an engine that is cut off: after the given
  number of statements it executes at most one more, whose answer is lost, and nothing after that.  What the handler does
  with the failures it sees from then on has no effect on the database, so the database is as the
  dropped future left it.  The cut engine follows the laws of a database whenever the engine does, so what is
  proved of every database also holds of dropped requests.
\<close>

datatype cutoff = Cut nat bool | Dead

definition lost_reply :: "sqlx_error + sql_reply" where
  "lost_reply = Inl (Sqlx ''dropped'')"

fun cut_exec ::
    "'db sql_engine \<Rightarrow> 'db \<times> cutoff \<Rightarrow> string \<Rightarrow> sql_value list \<Rightarrow> ('db \<times> cutoff) \<times> (sqlx_error + sql_reply)" where
  "cut_exec E (db, Cut (Suc n) applied) text binds =
     (let (db', reply) = sql_exec E db text binds in ((db', Cut n applied), reply))"
| "cut_exec E (db, Cut 0 applied) text binds =
     ((if applied then fst (sql_exec E db text binds) else db, Dead), lost_reply)"
| "cut_exec E (db, Dead) text binds = ((db, Dead), lost_reply)"

definition cut_engine :: "'db sql_engine \<Rightarrow> ('db \<times> cutoff) sql_engine" where
  "cut_engine E = \<lparr>sql_exec = cut_exec E, sql_tables = (\<lambda>(db, c). sql_tables E db)\<rparr>"

text \<open>The libraries with another database engine.\<close>

definition with_engine ::
    "'d sql_engine \<Rightarrow> ('h, 'db, 'ph, 'ek, 'dk, 't, 'f) app_libs \<Rightarrow> ('h, 'd, 'ph, 'ek, 'dk, 't, 'f) app_libs" where
  "with_engine E X =
     \<lparr>l_http = l_http X, l_sql = E, l_argon2 = l_argon2 X, l_jwt = l_jwt X, l_tera = l_tera X,
      l_fs = l_fs X, l_to_vec = l_to_vec X, l_login_from_slice = l_login_from_slice X,
      l_item_from_slice = l_item_from_slice X, l_percent_decode_lossy = l_percent_decode_lossy X,
      l_spawn_blocking = l_spawn_blocking X\<rparr>"

definition cut_libs ::
    "('h, 'db, 'ph, 'ek, 'dk, 't, 'f) app_libs \<Rightarrow> ('h, 'db \<times> cutoff, 'ph, 'ek, 'dk, 't, 'f) app_libs" where
  "cut_libs X = with_engine (cut_engine (l_sql X)) X"

definition dropped_dispatch ::
    "('h, 'db, 'ph, 'ek, 'dk, 't, 'f) app_libs \<Rightarrow> server_config \<Rightarrow> ('ek, 'dk, 't, 'h) app_state \<Rightarrow> draws \<Rightarrow> cutoff \<Rightarrow>
     'h http_request \<Rightarrow> 'db app_shared \<Rightarrow> 'db app_shared" where
  "dropped_dispatch X cfg st d c req s =
     s\<lparr>sh_db := fst (sh_db (fst (dispatch (l_http X) (build_router (cut_libs X) cfg st d) req
       \<lparr>sh_db = (sh_db s, c), sh_metrics = sh_metrics s\<rparr>)))\<rparr>"

lemma with_engine_simps [simp]:
  "l_http (with_engine E X) = l_http X" "l_sql (with_engine E X) = E" "l_argon2 (with_engine E X) = l_argon2 X"
  "l_jwt (with_engine E X) = l_jwt X" "l_percent_decode_lossy (with_engine E X) = l_percent_decode_lossy X"
  "l_login_from_slice (with_engine E X) = l_login_from_slice X" "l_item_from_slice (with_engine E X) = l_item_from_slice X"
  "l_tera (with_engine E X) = l_tera X" "l_fs (with_engine E X) = l_fs X" "l_to_vec (with_engine E X) = l_to_vec X"
  "l_spawn_blocking (with_engine E X) = l_spawn_blocking X"
  by (simp_all add: with_engine_def)

lemma cut_tables [simp]: "sql_tables (cut_engine E) (db, c) = sql_tables E db"
  by (simp add: cut_engine_def)

lemma cut_tables_fst: "sql_tables (cut_engine E) dbc = sql_tables E (fst dbc)"
  by (simp add: cut_engine_def split_beta)

lemma cut_run:
  "sql_run (cut_engine E) st (db, Cut (Suc n) applied) =
     (case sql_run E st db of (db', reply) \<Rightarrow> ((db', Cut n applied), reply))"
  "sql_run (cut_engine E) st (db, Cut 0 applied) = ((if applied then fst (sql_run E st db) else db, Dead), lost_reply)"
  "sql_run (cut_engine E) st (db, Dead) = ((db, Dead), lost_reply)"
  by (simp_all add: sql_run_def cut_engine_def split: prod.splits)

lemma cut_database:
  assumes "database E"
  shows "database (cut_engine E)"
proof
  fix st and dbc dbc' :: "'a \<times> cutoff" and reply
  assume run: "sql_run (cut_engine E) st dbc = (dbc', Inr reply)"
  then show "\<exists>clock. sql_apply clock st (sql_tables (cut_engine E) dbc) = Some (sql_tables (cut_engine E) dbc', reply)"
    using database.run_ok [OF assms]
    by (cases dbc; cases "snd dbc"; cases "case snd dbc of Cut n applied \<Rightarrow> n | Dead \<Rightarrow> 0")
      (auto simp: cut_run lost_reply_def split: prod.splits)
next
  fix st and dbc dbc' :: "'a \<times> cutoff" and e
  assume run: "sql_run (cut_engine E) st dbc = (dbc', Inl e)"
  obtain db c where dbc: "dbc = (db, c)" by (cases dbc)
  obtain db1 r where r: "sql_run E st db = (db1, r)" by fastforce
  note eff = database.run_cases [OF assms r]
  have "sql_tables E (fst dbc') = sql_tables E db \<or>
      (\<exists>clock reply. sql_apply clock st (sql_tables E db) = Some (sql_tables E (fst dbc'), reply))"
  proof (cases "fst dbc' = db")
    case False
    then have "fst dbc' = db1"
      using run r by (cases c; cases "case c of Cut n applied \<Rightarrow> n | Dead \<Rightarrow> 0")
        (auto simp: dbc cut_run split: if_splits)
    with eff show ?thesis by blast
  qed simp
  then show "sql_tables (cut_engine E) dbc' = sql_tables (cut_engine E) dbc \<or>
      (\<exists>clock reply. sql_apply clock st (sql_tables (cut_engine E) dbc) = Some (sql_tables (cut_engine E) dbc', reply))"
    by (simp add: cut_tables_fst dbc)
qed

interpretation cut_mem: database "cut_engine mem_engine"
  by (rule cut_database) (rule mem.database_axioms)

lemma with_engine_contract [simp]:
  "bearer_valid (with_engine E X) jwt now req = bearer_valid X jwt now req"
  "session_valid (with_engine E X) now req t = session_valid X now req t"
  "login_valid (with_engine E X) req t u = login_valid X req t u"
  by (simp_all add: bearer_valid_def session_valid_def login_valid_def)

text \<open>The contract of the handlers, for dropped requests.\<close>

lemma dropped_guarded:
  assumes "database (l_sql X)" and "tables_ok (sql_tables (l_sql X) (sh_db s))"
    and "dropped_dispatch X cfg st d c req s = s2"
  defines "t \<equiv> sql_tables (l_sql X) (sh_db s)" and "t' \<equiv> sql_tables (l_sql X) (sh_db s2)"
  shows "tables_ok t'" and "tab_users t' = tab_users t"
    and "items_of t' \<noteq> items_of t \<Longrightarrow> bearer_valid X (st_jwt st) (dr_now d) req \<or> session_valid X (dr_now d) req t"
    and "sessions_of t' k = Some (x, e) \<Longrightarrow> (\<exists>e0. sessions_of t k = Some (x, e0)) \<or>
      k = dr_session_token d \<and> csrf_token x = dr_csrf_token d \<and> login_valid X req t (username x)"
proof -
  let ?s = "\<lparr>sh_db = (sh_db s, c), sh_metrics = sh_metrics s\<rparr>"
  obtain s' resp where run: "dispatch (l_http X) (build_router (cut_libs X) cfg st d) req ?s = (s', resp)" by fastforce
  have app: "application (cut_libs X)" by (rule application.intro) (simp add: cut_libs_def cut_database assms(1))
  have t': "t' = sql_tables (l_sql X) (fst (sh_db s'))" using assms(3) by (auto simp: t'_def dropped_dispatch_def run)
  note g = application.dispatch_guarded [OF app, unfolded guarded_def Let_def, rule_format, OF run,
      simplified cut_libs_def, simplified, OF assms(2), unfolded cut_tables_fst, folded t' t_def]
  show "tables_ok t'" and "tab_users t' = tab_users t"
    and "items_of t' \<noteq> items_of t \<Longrightarrow> bearer_valid X (st_jwt st) (dr_now d) req \<or> session_valid X (dr_now d) req t"
    and "sessions_of t' k = Some (x, e) \<Longrightarrow> (\<exists>e0. sessions_of t k = Some (x, e0)) \<or>
      k = dr_session_token d \<and> csrf_token x = dr_csrf_token d \<and> login_valid X req t (username x)"
    using g by blast+
qed

end
