(* ===== verification/Connection.thy ===== *)
theory Connection
  imports Cancel Rate_Limiter Concurrency Logging
begin

text \<open>
  \<^verbatim>\<open>handle_connection\<close> of \<^verbatim>\<open>src/server/connection.rs\<close>: the inner service with its counters, body limit and
  timeout, the stack of middleware around it, and the loop that drives a connection.

  Collecting the body is hyper's work, so its outcome is an argument of the inner service: the bytes, or
  an error.  \<^verbatim>\<open>tokio::time::timeout\<close> either lets the handler finish or drops it, which leaves the
  database wherever the handler had brought it: \<open>TimesOut c\<close>, where \<open>c\<close> says how far it got (theory \<open>Cancel\<close>).
  When the client goes away hyper drops the whole request: \<open>inner_dropped\<close> and \<open>serve_dropped\<close>.
\<close>

subsection \<open>The inner service\<close>

definition inner_begin :: "metrics \<Rightarrow> metrics" where
  "inner_begin m = m\<lparr>requests_total := requests_total m + 1, requests_active := requests_active m + 1\<rparr>"

definition inner_timed_out :: "metrics \<Rightarrow> metrics" where
  "inner_timed_out m = m\<lparr>timed_out := timed_out m + 1\<rparr>"

definition inner_end :: "nat \<Rightarrow> metrics \<Rightarrow> metrics" where
  "inner_end sc m =
     (let m = (if sc < 300 then m\<lparr>responses_2xx := responses_2xx m + 1\<rparr>
               else if sc < 500 then m\<lparr>responses_4xx := responses_4xx m + 1\<rparr>
               else m\<lparr>responses_5xx := responses_5xx m + 1\<rparr>) in
      m\<lparr>requests_active := requests_active m - 1\<rparr>)"

definition payload_too_large :: "'h http_lib \<Rightarrow> 'h http_response" where
  "payload_too_large L = rb_text L (''413 Payload Too Large'' @ newline) (rb_new 413)"

definition content_length :: "'h http_lib \<Rightarrow> 'h request_parts \<Rightarrow> nat option" where
  "content_length L parts =
     Option.bind (Option.bind (hm_get L (parts_headers parts) ''content-length'') (value_to_str L)) (parse_unsigned 64)"

definition collect_body ::
    "'h http_lib \<Rightarrow> nat \<Rightarrow> 'h request_parts \<Rightarrow> string + string \<Rightarrow> 'h http_response + string" where
  "collect_body L max_body parts collected =
     (if (case content_length L parts of Some cl \<Rightarrow> max_body < cl | None \<Rightarrow> False)
      then Inl (payload_too_large L)
      else (case collected of
              Inr bytes \<Rightarrow> if max_body < length bytes then Inl (payload_too_large L) else Inr bytes
            | Inl e \<Rightarrow> Inl (rb_empty L bad_request)))"

datatype handling = Completes | TimesOut cutoff

definition timeout_response :: "'h http_lib \<Rightarrow> 'h http_response" where
  "timeout_response L = rb_text L (''503 Service Unavailable: processing timeout'' @ newline) (rb_new 503)"

definition inner_call ::
    "('h, 'db, 'ph, 'ek, 'dk, 't, 'f) app_libs \<Rightarrow> server_config \<Rightarrow> ('ek, 'dk, 't, 'h) app_state \<Rightarrow> draws \<Rightarrow> handling \<Rightarrow>
     'h request_parts \<times> (string + string) \<Rightarrow> 'db app_shared \<Rightarrow> 'db app_shared \<times> 'h http_response" where
  "inner_call X cfg st d handling req s =
     (let (parts, collected) = req;
          s1 = s\<lparr>sh_metrics := inner_begin (sh_metrics s)\<rparr> in
      case collect_body (l_http X) (cfg_max_body_bytes cfg) parts collected of
        Inl resp \<Rightarrow> (s1, resp)
      | Inr body_bytes \<Rightarrow>
          (let (s2, resp) =
             (case handling of
                Completes \<Rightarrow> dispatch (l_http X) (build_router X cfg st d) (from_parts parts body_bytes) s1
              | TimesOut c \<Rightarrow>
                  (let s2 = dropped_dispatch X cfg st d c (from_parts parts body_bytes) s1
                   in (s2\<lparr>sh_metrics := inner_timed_out (sh_metrics s2)\<rparr>, timeout_response (l_http X))))
           in (s2\<lparr>sh_metrics := inner_end (resp_status resp) (sh_metrics s2)\<rparr>, resp)))"

text \<open>The inner service, dropped while it collects the body (\<^const>\<open>None\<close>) or while it dispatches.\<close>

definition inner_dropped ::
    "('h, 'db, 'ph, 'ek, 'dk, 't, 'f) app_libs \<Rightarrow> server_config \<Rightarrow> ('ek, 'dk, 't, 'h) app_state \<Rightarrow> draws \<Rightarrow> cutoff option \<Rightarrow>
     'h request_parts \<times> (string + string) \<Rightarrow> 'db app_shared \<Rightarrow> 'db app_shared" where
  "inner_dropped X cfg st d drop_at req s =
     (let (parts, collected) = req;
          s1 = s\<lparr>sh_metrics := inner_begin (sh_metrics s)\<rparr> in
      case (drop_at, collect_body (l_http X) (cfg_max_body_bytes cfg) parts collected) of
        (Some c, Inr body_bytes) \<Rightarrow> dropped_dispatch X cfg st d c (from_parts parts body_bytes) s1
      | _ \<Rightarrow> s1)"

subsection \<open>The middleware stack\<close>

record ('ip, 'sem, 'db) server_state =
  ss_limiter :: "'ip rate_limiter"
  ss_semaphore :: 'sem
  ss_shared :: "'db app_shared"

record arrival =
  ar_evict_now :: instant
  ar_new_now :: instant
  ar_now :: instant
  ar_uuid :: string
  ar_latency_ms :: nat

definition tower_stack ::
    "'sem semaphore_lib \<Rightarrow> 'h http_lib \<Rightarrow> socket_addr \<Rightarrow> arrival \<Rightarrow>
     ('h request_parts \<times> 'b \<Rightarrow> 'db app_shared \<Rightarrow> 'db app_shared \<times> 'h http_response) \<Rightarrow>
     'h request_parts \<times> 'b \<Rightarrow> (ip_addr, 'sem, 'db) server_state \<Rightarrow>
     (ip_addr, 'sem, 'db) server_state \<times> 'h http_response \<times> socket_addr log_line" where
  "tower_stack S L peer_addr a inner req ss =
     logging_call L peer_addr (ar_uuid a) (ar_latency_ms a)
       (\<lambda>req ss.
          let (limiter, (sem, shared), resp) =
            rate_limiter_call L (ar_evict_now a) (ar_new_now a) (ar_now a) (sa_ip peer_addr)
              (\<lambda>(sem, shared).
                 let (sem', shared', resp) = concurrency_call S L (inner req) sem shared
                 in ((sem', shared'), resp))
              (ss_limiter ss) (ss_semaphore ss, ss_shared ss)
          in (\<lparr>ss_limiter = limiter, ss_semaphore = sem, ss_shared = shared\<rparr>, resp))
       req ss"

definition serve_request ::
    "'sem semaphore_lib \<Rightarrow> ('h, 'db, 'ph, 'ek, 'dk, 't, 'f) app_libs \<Rightarrow> server_config \<Rightarrow> ('ek, 'dk, 't, 'h) app_state \<Rightarrow>
     socket_addr \<Rightarrow> arrival \<Rightarrow> draws \<Rightarrow> handling \<Rightarrow> 'h request_parts \<times> (string + string) \<Rightarrow>
     (ip_addr, 'sem, 'db) server_state \<Rightarrow> (ip_addr, 'sem, 'db) server_state \<times> 'h http_response \<times> socket_addr log_line" where
  "serve_request S X cfg st peer_addr a d handling req ss =
     tower_stack S (l_http X) peer_addr a (inner_call X cfg st d handling) req ss"

text \<open>
  A request that is dropped with its connection while the inner service runs: its permit is released with it, and no log line is
  written.
\<close>

definition serve_dropped ::
    "'sem semaphore_lib \<Rightarrow> ('h, 'db, 'ph, 'ek, 'dk, 't, 'f) app_libs \<Rightarrow> server_config \<Rightarrow> ('ek, 'dk, 't, 'h) app_state \<Rightarrow>
     socket_addr \<Rightarrow> arrival \<Rightarrow> draws \<Rightarrow> cutoff option \<Rightarrow> 'h request_parts \<times> (string + string) \<Rightarrow>
     (ip_addr, 'sem, 'db) server_state \<Rightarrow> (ip_addr, 'sem, 'db) server_state" where
  "serve_dropped S X cfg st peer_addr a d drop_at req ss =
     fst (tower_stack S (l_http X) peer_addr a
       (\<lambda>req s. (inner_dropped X cfg st d drop_at req s, response_new (l_http X) [])) req ss)"

subsection \<open>Driving the connection\<close>

text \<open>
  One iteration of the \<^verbatim>\<open>select!\<close> loop is a \<open>poll\<close>: its time, whether hyper's connection future is
  ready, and the value of the shutdown channel when it has changed.  The branches are tried in
  the order of the source (\<^verbatim>\<open>biased\<close>).  The keep-alive timer is ready from its deadline on, counted from the
  start of the connection.  The loop does not return while nothing is ready: \<open>Open\<close> is the state after the
  given polls.
\<close>

record poll =
  poll_time :: nat
  poll_conn_ready :: bool
  poll_shutdown :: "bool option"

datatype conn_end = Closed | KeepAliveTimeout | Open bool

fun conn_loop :: "nat \<Rightarrow> bool \<Rightarrow> poll list \<Rightarrow> conn_end" where
  "conn_loop deadline graceful [] = Open graceful"
| "conn_loop deadline graceful (p # ps) =
     (if poll_conn_ready p then Closed
      else if \<not> graceful \<and> poll_shutdown p \<noteq> None then
        conn_loop deadline (if poll_shutdown p = Some True then True else graceful) ps
      else if \<not> graceful \<and> deadline \<le> poll_time p then KeepAliveTimeout
      else conn_loop deadline graceful ps)"

definition drive_connection :: "server_config \<Rightarrow> nat \<Rightarrow> poll list \<Rightarrow> conn_end" where
  "drive_connection cfg start polls = conn_loop (start + cfg_keep_alive_timeout_secs cfg) False polls"

subsection \<open>Body limit\<close>

lemmas response_defs = payload_too_large_def timeout_response_def rb_text_def rb_empty_def

definition too_large :: "'h http_lib \<Rightarrow> nat \<Rightarrow> 'h request_parts \<Rightarrow> string + string \<Rightarrow> bool" where
  "too_large L max_body parts collected \<longleftrightarrow>
     (\<exists>cl. content_length L parts = Some cl \<and> max_body < cl) \<or> (\<exists>b. collected = Inr b \<and> max_body < length b)"

lemma collect_body_eq:
  "collect_body L max_body parts (Inr b) =
     (if too_large L max_body parts (Inr b) then Inl (payload_too_large L) else Inr b)"
  "collect_body L max_body parts (Inl e) =
     Inl (if too_large L max_body parts (Inl e) then payload_too_large L else rb_empty L bad_request)"
  by (auto simp: collect_body_def too_large_def split: option.splits)

text \<open>
  C23: The body limit.  A request whose \<open>content-length\<close> announces more than the configured maximum, or whose
  body turns out longer, gets a \<open>413\<close> and the database is not touched; one whose body cannot be
  read gets a \<open>400\<close> and the database is not touched.  Every other request that is not timed out is dispatched with exactly its body, which is within
  the limit, and the client gets the response of the router.
\<close>

theorem body_limit:
  assumes "http_crate (l_http X)"
    and "inner_call X cfg st d handling (parts, collected) s = (s', resp)"
  shows "if too_large (l_http X) (cfg_max_body_bytes cfg) parts collected
    then resp_status resp = 413 \<and> sh_db s' = sh_db s
    else case collected of
      Inl e \<Rightarrow> resp_status resp = 400 \<and> sh_db s' = sh_db s
    | Inr bytes \<Rightarrow> length bytes \<le> cfg_max_body_bytes cfg \<and>
        (case handling of
           Completes \<Rightarrow> \<exists>s2. dispatch (l_http X) (build_router X cfg st d) (from_parts parts bytes)
               (s\<lparr>sh_metrics := inner_begin (sh_metrics s)\<rparr>) = (s2, resp) \<and> sh_db s' = sh_db s2
         | TimesOut c \<Rightarrow> resp_status resp = 503 \<and>
             sh_db s' = sh_db (dropped_dispatch X cfg st d c (from_parts parts bytes)
               (s\<lparr>sh_metrics := inner_begin (sh_metrics s)\<rparr>)))"
proof -
  note status = http_crate.build_ok_eq(1) [OF assms(1)]
  show ?thesis
  proof (cases collected)
    case (Inl e)
    with assms(2) show ?thesis
      by (auto simp: inner_call_def collect_body_eq response_defs builder_defs status)
  next
    case (Inr bytes)
    show ?thesis
    proof (cases "too_large (l_http X) (cfg_max_body_bytes cfg) parts collected")
      case True
      with Inr assms(2) show ?thesis
        by (auto simp: inner_call_def collect_body_eq response_defs builder_defs status)
    next
      case False
      then have "length bytes \<le> cfg_max_body_bytes cfg" using Inr by (auto simp: too_large_def)
      with False Inr assms(2) show ?thesis
        by (cases handling)
          (auto simp: inner_call_def collect_body_eq response_defs builder_defs status Let_def split: prod.splits)
    qed
  qed
qed

theorem body_limit_witness:
  "resp_status (snd (inner_call demo_libs demo_config demo_state demo_draws Completes
     (\<lparr>parts_method = ''POST'', parts_uri = \<lparr>uri_path = ''/'', uri_query = None, uri_path_and_query = None\<rparr>,
       parts_headers = []\<rparr>, Inr ''12345'') (demo_shared empty_tables))) = 413"
proof -
  let ?parts = "\<lparr>parts_method = ''POST'', parts_uri = \<lparr>uri_path = ''/'', uri_query = None, uri_path_and_query = None\<rparr>,
    parts_headers = []\<rparr>"
  obtain s' resp where run: "inner_call demo_libs demo_config demo_state demo_draws Completes (?parts, Inr ''12345'')
      (demo_shared empty_tables) = (s', resp)" by fastforce
  have "too_large alist_http (cfg_max_body_bytes demo_config) ?parts (Inr ''12345'')"
    by (simp add: too_large_def demo_config_def)
  with body_limit [OF _ run] run show ?thesis by (simp add: alist.http_crate_axioms)
qed

subsection \<open>The counters under overlapping requests\<close>

text \<open>
  The requests of all connections share the counters.  A request begins; then it returns early (the two
  \<open>413\<close> and the \<open>400\<close>), or it is dropped with its connection, or it ends with a status.
  \<open>meter_run\<close> relates a sequence of such events to the counters and the requests still in progress.
\<close>

datatype 'r meter_event = Begin 'r | EarlyReturn 'r | Dropped 'r | Finish 'r nat bool

inductive meter_run :: "'r meter_event list \<Rightarrow> metrics \<Rightarrow> 'r set \<Rightarrow> bool" where
  idle: "meter_run [] metrics_new {}"
| begins: "meter_run es m R \<Longrightarrow> r \<notin> R \<Longrightarrow> meter_run (es @ [Begin r]) (inner_begin m) (insert r R)"
| returns: "meter_run es m R \<Longrightarrow> r \<in> R \<Longrightarrow> meter_run (es @ [EarlyReturn r]) m (R - {r})"
| dropped: "meter_run es m R \<Longrightarrow> r \<in> R \<Longrightarrow> meter_run (es @ [Dropped r]) m (R - {r})"
| finishes: "meter_run es m R \<Longrightarrow> r \<in> R \<Longrightarrow>
    meter_run (es @ [Finish r sc late]) (inner_end sc (if late then inner_timed_out m else m)) (R - {r})"

fun is_begin :: "'r meter_event \<Rightarrow> bool" where
  "is_begin (Begin r) = True"
| "is_begin e = False"

fun is_lost :: "'r meter_event \<Rightarrow> bool" where
  "is_lost (EarlyReturn r) = True"
| "is_lost (Dropped r) = True"
| "is_lost e = False"

fun is_late :: "'r meter_event \<Rightarrow> bool" where
  "is_late (Finish r sc late) = late"
| "is_late e = False"

fun finished_with :: "(nat \<Rightarrow> bool) \<Rightarrow> 'r meter_event \<Rightarrow> bool" where
  "finished_with P (Finish r sc late) = P sc"
| "finished_with P e = False"

abbreviation events :: "('r meter_event \<Rightarrow> bool) \<Rightarrow> 'r meter_event list \<Rightarrow> 64 word" where
  "events P es \<equiv> of_nat (length (filter P es))"

lemma inner_begin_simps [simp]:
  "requests_total (inner_begin m) = requests_total m + 1" "requests_active (inner_begin m) = requests_active m + 1"
  "responses_2xx (inner_begin m) = responses_2xx m" "responses_4xx (inner_begin m) = responses_4xx m"
  "responses_5xx (inner_begin m) = responses_5xx m" "timed_out (inner_begin m) = timed_out m"
  "rate_limited (inner_begin m) = rate_limited m" "concurrency_limited (inner_begin m) = concurrency_limited m"
  by (simp_all add: inner_begin_def)

lemma inner_end_simps [simp]:
  "requests_total (inner_end sc m) = requests_total m" "requests_active (inner_end sc m) = requests_active m - 1"
  "responses_2xx (inner_end sc m) = responses_2xx m + (if sc < 300 then 1 else 0)"
  "responses_4xx (inner_end sc m) = responses_4xx m + (if 300 \<le> sc \<and> sc < 500 then 1 else 0)"
  "responses_5xx (inner_end sc m) = responses_5xx m + (if 500 \<le> sc then 1 else 0)"
  "timed_out (inner_end sc m) = timed_out m" "rate_limited (inner_end sc m) = rate_limited m"
  "concurrency_limited (inner_end sc m) = concurrency_limited m"
  by (simp_all add: inner_end_def Let_def)

lemma inner_timed_out_simps [simp]:
  "requests_total (inner_timed_out m) = requests_total m" "requests_active (inner_timed_out m) = requests_active m"
  "responses_2xx (inner_timed_out m) = responses_2xx m" "responses_4xx (inner_timed_out m) = responses_4xx m"
  "responses_5xx (inner_timed_out m) = responses_5xx m" "timed_out (inner_timed_out m) = timed_out m + 1"
  "rate_limited (inner_timed_out m) = rate_limited m" "concurrency_limited (inner_timed_out m) = concurrency_limited m"
  by (simp_all add: inner_timed_out_def)

lemma meter_finite: "meter_run es m R \<Longrightarrow> finite R"
  by (induction rule: meter_run.induct) auto

lemma card_remove_word: "finite R \<Longrightarrow> r \<in> R \<Longrightarrow> (of_nat (card R) :: 64 word) = of_nat (card (R - {r})) + 1"
  by (subst card.remove [of R r]) (simp_all add: add.commute)



text \<open>The inner service produces these events: a beginning, then an early return or an end.\<close>

lemma inner_call_events:
  assumes "database (l_sql X)" and "tables_ok (sql_tables (l_sql X) (sh_db s))"
    and "inner_call X cfg st d handling (parts, collected) s = (s', resp)"
    and "meter_run es (sh_metrics s) R" and "r \<notin> R"
  shows "\<exists>e \<in> {EarlyReturn r, Finish r (resp_status resp) False, Finish r (resp_status resp) True}.
    meter_run (es @ [Begin r, e]) (sh_metrics s') R"
proof -
  let ?s1 = "s\<lparr>sh_metrics := inner_begin (sh_metrics s)\<rparr>"
  have R: "insert r R - {r} = R" using assms(5) by auto
  note begun = meter_run.begins [OF assms(4,5)]
  note ends = meter_run.returns [OF begun, of r] meter_run.finishes [OF begun, of r]
  show ?thesis
  proof (cases "collect_body (l_http X) (cfg_max_body_bytes cfg) parts collected")
    case (Inl resp')
    then have "sh_metrics s' = inner_begin (sh_metrics s)" using assms(3) by (auto simp: inner_call_def)
    then show ?thesis using ends(1) R by auto
  next
    case (Inr bytes)
    show ?thesis
    proof (cases handling)
      case Completes
      obtain s2 resp' where run: "dispatch (l_http X) (build_router X cfg st d) (from_parts parts bytes) ?s1 = (s2, resp')"
        by fastforce
      have "sh_metrics s2 = inner_begin (sh_metrics s)"
        using application.dispatch_guarded [OF application.intro [OF assms(1)], unfolded guarded_def Let_def,
            rule_format, OF run] assms(2) by simp
      then have "sh_metrics s' = inner_end (resp_status resp) (inner_begin (sh_metrics s))"
        using assms(3) Inr Completes run by (auto simp: inner_call_def)
      then show ?thesis using ends(2) [of "resp_status resp" False] R by simp
    next
      case (TimesOut c)
      then have "sh_metrics s' = inner_end (resp_status resp) (inner_timed_out (inner_begin (sh_metrics s)))"
        using assms(3) Inr by (auto simp: inner_call_def dropped_dispatch_def Let_def)
      then show ?thesis using ends(2) [of "resp_status resp" True] R by simp
    qed
  qed
qed

subsection \<open>What the stack lets through\<close>

lemma canned_status:
  assumes "http_crate L"
  shows "resp_status (too_many_requests L) = 429" and "resp_status (service_unavailable L) = 503"
  by (simp_all add: too_many_requests_def service_unavailable_def rb_text_def builder_defs
      http_crate.build_ok_eq [OF assms] header_ok_def header_name_ok_def token_char_def)

text \<open>
  C12: The order of the middleware.  The rate limiter sees every request.  A request over its limit gets a
  \<open>429\<close>, takes no permit and does not reach the inner service: neither the database nor a counter
  changes.  Otherwise, when all permits are taken, it gets a \<open>503\<close>, again without
  reaching the inner service.  Otherwise the inner service runs once, on the request with only its
  request id set, its status and body are the client's, and the permit is given back.  Every response, rejections included,
  is logged with its status and carries the request id.
\<close>

theorem stack_gates:
  assumes "http_crate L" and "tokio_semaphore S" and "visible_ascii (ar_uuid a)"
    and "sem_available S (ss_semaphore ss) \<le> MAX_PERMITS"
    and "tower_stack S L peer a inner (parts, body) ss = (ss', resp, line)"
  shows "let (rl, allowed) = limiter_check (ar_evict_now a) (ar_new_now a) (ar_now a) (sa_ip peer) (ss_limiter ss);
      rid = request_id L (ar_uuid a) parts in
    ss_limiter ss' = rl \<and> sem_available S (ss_semaphore ss') = sem_available S (ss_semaphore ss) \<and>
    log_status line = resp_status resp \<and> log_request_id line = rid \<and>
    hm_get_all L (resp_headers resp) ''x-request-id'' = [rid] \<and>
    (if \<not> allowed then resp_status resp = 429 \<and> ss_shared ss' = ss_shared ss
     else if sem_available S (ss_semaphore ss) = 0 then resp_status resp = 503 \<and> ss_shared ss' = ss_shared ss
     else \<exists>resp0. inner (parts\<lparr>parts_headers := set_request_id L rid (parts_headers parts)\<rparr>, body) (ss_shared ss)
         = (ss_shared ss', resp0) \<and> resp_status resp = resp_status resp0 \<and> resp_body resp = resp_body resp0)"
proof -
  let ?rid = "request_id L (ar_uuid a) parts"
  let ?parts = "parts\<lparr>parts_headers := set_request_id L ?rid (parts_headers parts)\<rparr>"
  obtain rl allowed where chk: "limiter_check (ar_evict_now a) (ar_new_now a) (ar_now a) (sa_ip peer) (ss_limiter ss)
      = (rl, allowed)" by fastforce
  obtain shared' resp0 where inn: "inner (?parts, body) (ss_shared ss) = (shared', resp0)" by fastforce
  have set: "hm_get_all L (set_request_id L ?rid h) ''x-request-id'' = [?rid]" for h
    using http_crate.set_request_id_get_all [OF assms(1) http_crate.request_id_visible [OF assms(1,3)]]
    by (simp add: lowercase_def ascii_lower_def)
  note status = canned_status [OF assms(1)]
  show ?thesis
  proof (cases "allowed \<and> sem_available S (ss_semaphore ss) \<noteq> 0")
    case True
    then obtain sem' where adm: "concurrency_admit S L (ss_semaphore ss) = Admitted sem'"
      using tokio_semaphore.admit_iff(1) [OF assms(2), of L "ss_semaphore ss"]
      by (cases "concurrency_admit S L (ss_semaphore ss)") auto
    have "sem_available S (ss_semaphore ss) = Suc (sem_available S sem')"
      using tokio_semaphore.admit_iff(2) [OF assms(2) adm] .
    then have "sem_available S (sem_release S sem') = sem_available S (ss_semaphore ss)"
      using tokio_semaphore.available_release [OF assms(2), of sem'] assms(4) by simp
    with True chk inn adm assms(5) set show ?thesis
      by (auto simp: tower_stack_def logging_call_def rate_limiter_call_def concurrency_call_def Let_def)
  next
    case False
    then have "allowed \<Longrightarrow> concurrency_admit S L (ss_semaphore ss) = Rejected (service_unavailable L)"
      using tokio_semaphore.admit_iff(1) [OF assms(2)] by auto
    with False chk assms(5) set status show ?thesis
      by (auto simp: tower_stack_def logging_call_def rate_limiter_call_def concurrency_call_def Let_def)
  qed
qed

theorem stack_gates_witness:
  "\<exists>ss' resp line.
     tower_stack counting_semaphore alist_http \<lparr>sa_ip = V4 [10, 0, 0, 1], sa_port = 9, sa_scope_id = 0\<rparr>
       \<lparr>ar_evict_now = 0, ar_new_now = 0, ar_now = 0, ar_uuid = ''u-1'', ar_latency_ms = 0\<rparr>
       (\<lambda>req s. (s\<lparr>sh_db := Suc (sh_db s)\<rparr>, rb_text alist_http ''ok'' ok))
       (\<lparr>parts_method = ''GET'', parts_uri = \<lparr>uri_path = ''/'', uri_query = None, uri_path_and_query = None\<rparr>,
         parts_headers = []\<rparr>, ())
       \<lparr>ss_limiter = limiter_new 5, ss_semaphore = 0, ss_shared = \<lparr>sh_db = 0 :: nat, sh_metrics = metrics_new\<rparr>\<rparr>
     = (ss', resp, line) \<and> sh_db (ss_shared ss') = 0 \<and> log_status line = resp_status resp \<and> resp_status resp \<in> {429, 503}"
proof -
  define a where "a = \<lparr>ar_evict_now = 0, ar_new_now = 0, ar_now = 0, ar_uuid = ''u-1'', ar_latency_ms = 0\<rparr>"
  define peer where "peer = \<lparr>sa_ip = V4 [10, 0, 0, 1], sa_port = 9, sa_scope_id = 0\<rparr>"
  define parts where "parts = \<lparr>parts_method = ''GET'',
    parts_uri = \<lparr>uri_path = ''/'', uri_query = None, uri_path_and_query = None\<rparr>, parts_headers = [] :: (string \<times> string) list\<rparr>"
  define inner where "inner = (\<lambda>(req :: (string \<times> string) list request_parts \<times> unit) (s :: nat app_shared).
    (s\<lparr>sh_db := Suc (sh_db s)\<rparr>, rb_text alist_http ''ok'' ok))"
  define ss where "ss = \<lparr>ss_limiter = limiter_new 5 :: ip_addr rate_limiter, ss_semaphore = 0 :: nat,
    ss_shared = \<lparr>sh_db = 0 :: nat, sh_metrics = metrics_new\<rparr>\<rparr>"
  obtain ss' resp line where run: "tower_stack counting_semaphore alist_http peer a inner (parts, ()) ss = (ss', resp, line)"
    by (rule prod_cases3)
  obtain rl allowed where chk: "limiter_check (ar_evict_now a) (ar_new_now a) (ar_now a) (sa_ip peer) (ss_limiter ss)
      = (rl, allowed)" by (rule prod.exhaust)
  have vis: "visible_ascii (ar_uuid a)" by (simp add: a_def visible_ascii_def)
  have avail: "sem_available counting_semaphore (ss_semaphore ss) = 0" by (simp add: ss_def counting_semaphore_def)
  then have "sem_available counting_semaphore (ss_semaphore ss) \<le> MAX_PERMITS" by simp
  note gates0 = stack_gates [OF alist.http_crate_axioms counting.tokio_semaphore_axioms vis this run,
      unfolded chk Let_def prod.case avail]
  have gates: "ss_shared ss' = ss_shared ss" "log_status line = resp_status resp" "resp_status resp \<in> {429, 503}"
    using gates0 by (simp_all split: if_splits)
  have zero: "sh_db (ss_shared ss') = 0" by (simp add: gates(1) ss_def)
  show ?thesis
    using run zero gates(2,3) unfolding a_def peer_def parts_def inner_def ss_def by blast
qed

subsection \<open>The end of a connection\<close>

definition quiet :: "nat \<Rightarrow> poll \<Rightarrow> bool" where
  "quiet deadline p \<longleftrightarrow> \<not> poll_conn_ready p \<and> poll_shutdown p \<noteq> Some True \<and>
     (poll_shutdown p = None \<longrightarrow> poll_time p < deadline)"

lemma conn_loop_quiet: "list_all (quiet dl) pre \<Longrightarrow> conn_loop dl False (pre @ ps) = conn_loop dl False ps"
  by (induction pre) (auto simp: quiet_def)

lemma conn_loop_graceful: "conn_loop dl True ps = (if list_ex poll_conn_ready ps then Closed else Open True)"
  by (induction ps) auto

lemma conn_loop_timeout:
  assumes "conn_loop dl False ps = KeepAliveTimeout"
  shows "\<exists>pre p post. ps = pre @ p # post \<and> list_all (quiet dl) pre \<and>
    \<not> poll_conn_ready p \<and> poll_shutdown p = None \<and> dl \<le> poll_time p"
  using assms
proof (induction ps)
  case (Cons p ps)
  show ?case
  proof (cases "quiet dl p")
    case True
    then have "conn_loop dl False ps = KeepAliveTimeout"
      using Cons.prems conn_loop_quiet [of dl "[p]" ps] by simp
    then obtain pre q post where "ps = pre @ q # post" "list_all (quiet dl) pre"
        "\<not> poll_conn_ready q" "poll_shutdown q = None" "dl \<le> poll_time q"
      using Cons.IH by blast
    with True show ?thesis by (intro exI [of _ "p # pre"] exI [of _ q] exI [of _ post]) simp
  next
    case False
    then have "\<not> poll_conn_ready p \<and> poll_shutdown p = None \<and> dl \<le> poll_time p"
      using Cons.prems by (auto simp: quiet_def conn_loop_graceful split: if_splits)
    then show ?thesis by (intro exI [of _ "[]"] exI [of _ p] exI [of _ ps]) simp
  qed
qed simp

text \<open>
  C31: How a connection ends.  The server closes it for its keep-alive timeout exactly when, before hyper
  finished with it and before a shutdown was announced, a poll comes at or after the deadline, which is fixed when the
  connection starts: nothing a request does moves it.  Once the shutdown has been seen the timeout is off,
  and the loop ends only when hyper has finished with the connection.
\<close>

theorem connection_end:
  "(drive_connection cfg start polls = KeepAliveTimeout \<longleftrightarrow>
      (\<exists>pre p post. polls = pre @ p # post \<and>
         list_all (quiet (start + cfg_keep_alive_timeout_secs cfg)) pre \<and>
         \<not> poll_conn_ready p \<and> poll_shutdown p = None \<and> start + cfg_keep_alive_timeout_secs cfg \<le> poll_time p)) \<and>
   (list_all (quiet (start + cfg_keep_alive_timeout_secs cfg)) pre \<and> \<not> poll_conn_ready p \<and> poll_shutdown p = Some True \<longrightarrow>
      drive_connection cfg start (pre @ p # post) = (if list_ex poll_conn_ready post then Closed else Open True))"
  using conn_loop_timeout
  by (auto simp: drive_connection_def conn_loop_quiet conn_loop_graceful)

theorem connection_end_witness:
  "drive_connection demo_config 10 [\<lparr>poll_time = 20, poll_conn_ready = False, poll_shutdown = None\<rparr>,
      \<lparr>poll_time = 85, poll_conn_ready = False, poll_shutdown = None\<rparr>] = KeepAliveTimeout"
proof -
  let ?p = "\<lparr>poll_time = 20, poll_conn_ready = False, poll_shutdown = None\<rparr>"
  let ?q = "\<lparr>poll_time = 85, poll_conn_ready = False, poll_shutdown = None\<rparr>"
  have "[?p, ?q] = [?p] @ ?q # []" and "list_all (quiet (10 + cfg_keep_alive_timeout_secs demo_config)) [?p]"
    and "10 + cfg_keep_alive_timeout_secs demo_config \<le> poll_time ?q"
    by (simp_all add: quiet_def demo_config_def)
  then show ?thesis
    by (intro connection_end [THEN conjunct1, THEN iffD2] exI [of _ "[?p]"] exI [of _ ?q] exI [of _ "[]"]) simp_all
qed

end
