(* ===== verification/Server.thy ===== *)
theory Server
  imports Connection Tls
begin

text \<open>
  \<^verbatim>\<open>src/server/mod.rs\<close>: start-up of the server, up to the accept loop (theory \<open>Accept_Loop\<close>), and the
  redirect listener.

  Start-up is a function of the configuration and the libraries; a panic of the source is a value.
  The variable \<^verbatim>\<open>AUTH_PASSWORD_HASH\<close>, the fresh salt and the address of the listener are arguments.
\<close>

subsection \<open>Start-up\<close>

datatype server_error = Bind socket_addr io_error | Io io_error | TlsFailed tls_error | DbFailed db_error

datatype start_error = Failed server_error | Panicked string

record ('sem, 'db, 'conf, 'ek, 'dk, 't, 'h) started =
  sr_addr :: socket_addr
  sr_tls :: "'conf tls_acceptor option"
  sr_connection_limit :: 'sem
  sr_state :: "(ip_addr, 'sem, 'db) server_state"
  sr_app :: "('ek, 'dk, 't, 'h) app_state"

definition load_tls ::
    "('g, 'cert, 'key, 'builder, 'conf) tls_lib \<Rightarrow> server_config \<Rightarrow> start_error + 'conf tls_acceptor option" where
  "load_tls T cfg =
     (case (cfg_tls_cert_path cfg, cfg_tls_key_path cfg) of
        (Some cert, Some key) \<Rightarrow>
          result_bind (map_error (\<lambda>e. Failed (TlsFailed e)) (load_tls_acceptor T cert key)) (\<lambda>acc. Inr (Some acc))
      | _ \<Rightarrow> Inr None)"

text \<open>\<^verbatim>\<open>Semaphore::new\<close> panics above the maximum number of permits.\<close>

definition new_semaphore :: "'sem semaphore_lib \<Rightarrow> nat \<Rightarrow> start_error + 'sem" where
  "new_semaphore S n =
     (if MAX_PERMITS < n then Inl (Panicked ''a semaphore may not have more than MAX_PERMITS permits'')
      else Inr (sem_new S n))"

definition bootstrap_admin ::
    "('h, 'db, 'ph, 'ek, 'dk, 't, 'f) app_libs \<Rightarrow> server_config \<Rightarrow> string option \<Rightarrow> string \<Rightarrow> 'db \<Rightarrow> start_error + 'db" where
  "bootstrap_admin X cfg password_hash salt db =
     (case (case password_hash of
              Some hash \<Rightarrow>
                create_user_with_hash_if_missing (l_sql X) (l_argon2 X) (cfg_auth_username cfg) hash db
            | None \<Rightarrow>
                create_user_if_missing (l_sql X) (l_argon2 X) salt (cfg_auth_username cfg) (cfg_auth_password cfg) db) of
        (db', Inl e) \<Rightarrow> Inl (Failed (DbFailed (DbSqlx e)))
      | (db', Inr _) \<Rightarrow> Inr db')"

definition start_proxy_client ::
    "(nat \<Rightarrow> 'h proxy_client option) \<Rightarrow> server_config \<Rightarrow> start_error + 'h proxy_client option" where
  "start_proxy_client build_client cfg =
     (case cfg_proxy_upstream cfg of
        None \<Rightarrow> Inr None
      | Some upstream \<Rightarrow>
          (case build_client (cfg_request_timeout_secs cfg) of
             Some client \<Rightarrow> Inr (Some client)
           | None \<Rightarrow> Inl (Panicked ''failed to build reverse-proxy HTTP client'')))"

definition start_server ::
    "'sem semaphore_lib \<Rightarrow> ('h, 'db, 'ph, 'ek, 'dk, 't, 'f) app_libs \<Rightarrow> ('opts, 'db) pool_lib \<Rightarrow> bool \<Rightarrow>
     ('g, 'cert, 'key, 'builder, 'conf) tls_lib \<Rightarrow> (nat \<Rightarrow> 'h proxy_client option) \<Rightarrow> server_config \<Rightarrow>
     string option \<Rightarrow> string \<Rightarrow> io_error + socket_addr \<Rightarrow>
     start_error + ('sem, 'db, 'conf, 'ek, 'dk, 't, 'h) started" where
  "start_server S X P postgres T build_client cfg password_hash salt local_addr =
     result_bind (map_error (\<lambda>e. Failed (Io e)) local_addr) (\<lambda>addr.
     result_bind (load_tls T cfg) (\<lambda>tls.
     result_bind (new_semaphore S (cfg_max_connections cfg)) (\<lambda>connection_limit.
     result_bind (new_semaphore S (cfg_max_concurrent_requests cfg)) (\<lambda>concurrency_limiter.
     let limiter = limiter_new (of_nat (cfg_rate_limit_rps cfg)) in
     result_bind (map_error (\<lambda>e. Failed (DbFailed e))
       (init_pool P (l_sql X) postgres (cfg_db_url cfg) (of_nat (cfg_db_pool_size cfg)))) (\<lambda>pool.
     result_bind (bootstrap_admin X cfg password_hash salt pool) (\<lambda>db.
     let jwt = jwt_secret_new (l_jwt X) (cfg_jwt_secret cfg);
         tmpl = template_engine_new (l_tera X) ''templates'' in
     result_bind (start_proxy_client build_client cfg) (\<lambda>proxy.
     Inr \<lparr>sr_addr = addr, sr_tls = tls, sr_connection_limit = connection_limit,
       sr_state = \<lparr>ss_limiter = limiter, ss_semaphore = concurrency_limiter,
         ss_shared = \<lparr>sh_db = db, sh_metrics = metrics_new\<rparr>\<rparr>,
       sr_app = \<lparr>st_jwt = jwt, st_template_engine = tmpl, st_proxy_client = proxy\<rparr>\<rparr>)))))))"

text \<open>Where the redirect listener is bound and the port it redirects to, when there is one.\<close>

definition redirect_listener ::
    "('sem, 'db, 'conf, 'ek, 'dk, 't, 'h) started \<Rightarrow> server_config \<Rightarrow> (socket_addr \<times> nat) option" where
  "redirect_listener st cfg =
     (if sr_tls st \<noteq> None then
        (case cfg_http_redirect_port cfg of
           Some redirect_port \<Rightarrow>
             Some (\<lparr>sa_ip = sa_ip (sr_addr st), sa_port = redirect_port, sa_scope_id = 0\<rparr>, sa_port (sr_addr st))
         | None \<Rightarrow> None)
      else None)"

text \<open>
  The address that is sent to the caller of \<open>run_on_listener\<close>, when a channel was given: as soon as the TLS material is loaded.
\<close>

definition notify_ready ::
    "('g, 'cert, 'key, 'builder, 'conf) tls_lib \<Rightarrow> server_config \<Rightarrow> io_error + socket_addr \<Rightarrow> bool \<Rightarrow> socket_addr option" where
  "notify_ready T cfg local_addr ready_tx =
     (case result_bind (map_error (\<lambda>e. Failed (Io e)) local_addr) (\<lambda>addr.
           result_bind (load_tls T cfg) (\<lambda>_. Inr addr)) of
        Inr addr \<Rightarrow> if ready_tx then Some addr else None
      | Inl _ \<Rightarrow> None)"

text \<open>
  The three entry points.  They differ in who binds the listener and in the future that ends the accept loop.
\<close>

definition run_server ::
    "(socket_addr \<Rightarrow> io_error + 'l) \<Rightarrow> server_config \<Rightarrow> ('l \<Rightarrow> 'tx option \<Rightarrow> 'fut \<Rightarrow> start_error + 'a) \<Rightarrow> 'fut \<Rightarrow> start_error + 'a" where
  "run_server tcp_bind cfg accept_loop shutdown_signal =
     result_bind (map_error (\<lambda>e. Failed (Bind (cfg_addr cfg) e)) (tcp_bind (cfg_addr cfg))) (\<lambda>listener.
     accept_loop listener None shutdown_signal)"

definition run_with_shutdown ::
    "(socket_addr \<Rightarrow> io_error + 'l) \<Rightarrow> server_config \<Rightarrow> ('l \<Rightarrow> 'tx option \<Rightarrow> 'fut \<Rightarrow> start_error + 'a) \<Rightarrow> 'fut \<Rightarrow> start_error + 'a" where
  "run_with_shutdown tcp_bind cfg accept_loop shutdown =
     result_bind (map_error (\<lambda>e. Failed (Bind (cfg_addr cfg) e)) (tcp_bind (cfg_addr cfg))) (\<lambda>listener.
     accept_loop listener None shutdown)"

definition run_on_listener ::
    "('l \<Rightarrow> 'tx option \<Rightarrow> 'fut \<Rightarrow> start_error + 'a) \<Rightarrow> 'l \<Rightarrow> 'tx option \<Rightarrow> 'fut \<Rightarrow> start_error + 'a" where
  "run_on_listener accept_loop listener ready_tx shutdown = accept_loop listener ready_tx shutdown"

text \<open>A caller that waits for the address may get it from a server that then fails to open its database.\<close>

lemma ready_before_database:
  assumes "local_addr = Inr addr" and "load_tls T cfg = Inr tls"
    and "cfg_max_connections cfg \<le> MAX_PERMITS" and "cfg_max_concurrent_requests cfg \<le> MAX_PERMITS"
    and "init_pool P (l_sql X) postgres (cfg_db_url cfg) (of_nat (cfg_db_pool_size cfg)) = Inl e"
  shows "notify_ready T cfg local_addr True = Some addr" and
    "start_server S X P postgres T build_client cfg password_hash salt local_addr = Inl (Failed (DbFailed e))"
  using assms by (simp_all add: notify_ready_def start_server_def new_semaphore_def map_error_def Let_def)

subsection \<open>The redirect listener\<close>

definition bare_host :: "string \<Rightarrow> string" where
  "bare_host host =
     (if starts_with ''['' host then
        (case split_once CHR '']'' host of Some (a, b) \<Rightarrow> a @ '']'' | None \<Rightarrow> host)
      else (case rsplit_once CHR '':'' host of Some (a, b) \<Rightarrow> a | None \<Rightarrow> host))"

definition redirect_location :: "nat \<Rightarrow> string \<Rightarrow> string \<Rightarrow> string" where
  "redirect_location https_port host path_and_query =
     (if https_port = 443 then ''https://'' @ bare_host host @ path_and_query
      else ''https://'' @ bare_host host @ '':'' @ show_nat https_port @ path_and_query)"

text \<open>The response of the redirect service; \<^const>\<open>None\<close> is the panic of \<^verbatim>\<open>unwrap\<close>.\<close>

definition redirect_response :: "'h http_lib \<Rightarrow> nat \<Rightarrow> 'h request_parts \<Rightarrow> 'h http_response option" where
  "redirect_response L https_port parts =
     (let host = unwrap_or (Option.bind (hm_get L (parts_headers parts) ''host'') (value_to_str L)) ''localhost'';
          path_and_query = unwrap_or (uri_path_and_query (parts_uri parts)) ''/'';
          location = redirect_location https_port host path_and_query in
      map_option (\<lambda>h. \<lparr>resp_status = 308, resp_headers = h, resp_body = []\<rparr>)
        (build_headers L [(''Location'', location), (''Content-Length'', ''0'')]))"

datatype 'c redirect_event = RedirectShutdown bool | RedirectAccept 'c | RedirectAcceptError

text \<open>The connections the listener spawns a task for, until the shutdown is announced.\<close>

fun redirect_loop :: "'c redirect_event list \<Rightarrow> 'c list" where
  "redirect_loop [] = []"
| "redirect_loop (RedirectShutdown v # es) = (if v then [] else redirect_loop es)"
| "redirect_loop (RedirectAccept c # es) = c # redirect_loop es"
| "redirect_loop (RedirectAcceptError # es) = redirect_loop es"

definition run_http_redirect :: "io_error + unit \<Rightarrow> 'c redirect_event list \<Rightarrow> 'c list" where
  "run_http_redirect bound es = (case bound of Inl e \<Rightarrow> [] | Inr _ \<Rightarrow> redirect_loop es)"

subsection \<open>Start-up, stage by stage\<close>

lemma load_tls_Inr: "load_tls T cfg = Inr tls \<Longrightarrow> tls \<noteq> None \<longleftrightarrow> cfg_tls_cert_path cfg \<noteq> None \<and> cfg_tls_key_path cfg \<noteq> None"
  by (auto simp: load_tls_def result_bind_Inr_iff split: option.splits)

lemma start_proxy_client_Inr: "start_proxy_client build_client cfg = Inr c \<Longrightarrow> c \<noteq> None \<longleftrightarrow> cfg_proxy_upstream cfg \<noteq> None"
  by (cases "cfg_proxy_upstream cfg"; cases "build_client (cfg_request_timeout_secs cfg)")
    (auto simp: start_proxy_client_def)

lemma new_semaphore_Inr: "new_semaphore S n = Inr q \<longleftrightarrow> n \<le> MAX_PERMITS \<and> q = sem_new S n"
  by (auto simp: new_semaphore_def)

lemma user_stmt_frame:
  "sql_apply clock (SelectUsername u) t = Some (t', reply) \<Longrightarrow> t' = t"
  "sql_apply clock (InsertUser u h) t = Some (t', reply) \<Longrightarrow>
     tab_items t' = tab_items t \<and> tab_sessions t' = tab_sessions t \<and> tab_users t' \<noteq> None"
  by (auto simp: sql_apply.simps on_table_eq_Some split: if_splits)

context database
begin

lemma create_user_with_hash_frame:
  assumes "create_user_with_hash_if_missing E A u h db = (db', Inr ())"
  shows "tab_items (sql_tables E db') = tab_items (sql_tables E db)"
    and "tab_sessions (sql_tables E db') = tab_sessions (sql_tables E db)"
    and "tab_users (sql_tables E db) \<noteq> None \<Longrightarrow> tab_users (sql_tables E db') \<noteq> None"
  using assms
  by (auto simp: create_user_with_hash_if_missing_def try_then_Inr
      split: sum.splits if_splits elim!: fetch_optional_Inr execute_Inr dest!: user_stmt_frame)

end

text \<open>The hash the administrator is created with: the one of the environment, or the hash of the password.\<close>

definition bootstrap_hash :: "'ph argon2_lib \<Rightarrow> server_config \<Rightarrow> string option \<Rightarrow> string \<Rightarrow> string + string" where
  "bootstrap_hash A cfg password_hash salt =
     (case password_hash of Some hash \<Rightarrow> Inr hash | None \<Rightarrow> argon2_hash_password A (cfg_auth_password cfg) salt)"

lemma bootstrap_admin_Inr:
  assumes "bootstrap_admin X cfg ph salt db = Inr db'"
  obtains h where "bootstrap_hash (l_argon2 X) cfg ph salt = Inr h"
    "create_user_with_hash_if_missing (l_sql X) (l_argon2 X) (cfg_auth_username cfg) h db = (db', Inr ())"
  using assms
  by (auto simp: bootstrap_admin_def bootstrap_hash_def create_user_if_missing_def
      split: option.splits prod.splits sum.splits)

lemma start_server_Inr:
  assumes "start_server S X P postgres T build_client cfg ph salt la = Inr st"
  obtains pool where "la = Inr (sr_addr st)" "load_tls T cfg = Inr (sr_tls st)"
    "new_semaphore S (cfg_max_connections cfg) = Inr (sr_connection_limit st)"
    "new_semaphore S (cfg_max_concurrent_requests cfg) = Inr (ss_semaphore (sr_state st))"
    "init_pool P (l_sql X) postgres (cfg_db_url cfg) (of_nat (cfg_db_pool_size cfg)) = Inr pool"
    "bootstrap_admin X cfg ph salt pool = Inr (sh_db (ss_shared (sr_state st)))"
    "start_proxy_client build_client cfg = Inr (st_proxy_client (sr_app st))"
  using assms by (auto simp: start_server_def result_bind_Inr_iff Let_def)

text \<open>The tables of a server that started, from those of the database that was opened.\<close>

definition started_from :: "tables \<Rightarrow> string \<Rightarrow> string \<Rightarrow> tables \<Rightarrow> bool" where
  "started_from t0 u h t \<longleftrightarrow>
     tab_items t = Some (unwrap_or (tab_items t0) []) \<and> tab_sessions t = Some (unwrap_or (tab_sessions t0) []) \<and>
     tab_users t \<noteq> None \<and> users_of t = (if users_of t0 u = None then (users_of t0)(u \<mapsto> h) else users_of t0) \<and>
     (tables_ok t0 \<longrightarrow> tables_ok t)"

lemma started_tables:
  assumes "database (l_sql X)"
    and "start_server S X P postgres T build_client cfg password_hash salt local_addr = Inr st"
  obtains db0 h where "is_postgres (cfg_db_url cfg) = postgres"
    "open_pool P postgres (cfg_db_url cfg) (of_nat (cfg_db_pool_size cfg)) = Inr db0"
    "bootstrap_hash (l_argon2 X) cfg password_hash salt = Inr h"
    "started_from (sql_tables (l_sql X) db0) (cfg_auth_username cfg) h (sql_tables (l_sql X) (sh_db (ss_shared (sr_state st))))"
proof -
  let ?db = "sh_db (ss_shared (sr_state st))"
  from assms(2) obtain pool where
    "init_pool P (l_sql X) postgres (cfg_db_url cfg) (of_nat (cfg_db_pool_size cfg)) = Inr pool"
    "bootstrap_admin X cfg password_hash salt pool = Inr ?db"
    by (elim start_server_Inr)
  then obtain h where h: "bootstrap_hash (l_argon2 X) cfg password_hash salt = Inr h"
      "create_user_with_hash_if_missing (l_sql X) (l_argon2 X) (cfg_auth_username cfg) h pool = (?db, Inr ())"
    and init: "is_postgres (cfg_db_url cfg) = postgres" "\<exists>db0.
      open_pool P postgres (cfg_db_url cfg) (of_nat (cfg_db_pool_size cfg)) = Inr db0 \<and>
      tab_items (sql_tables (l_sql X) pool) = Some (unwrap_or (tab_items (sql_tables (l_sql X) db0)) []) \<and>
      tab_users (sql_tables (l_sql X) pool) = Some (unwrap_or (tab_users (sql_tables (l_sql X) db0)) []) \<and>
      tab_sessions (sql_tables (l_sql X) pool) = Some (unwrap_or (tab_sessions (sql_tables (l_sql X) db0)) [])"
    using init_pool_migrates [OF assms(1), where P = P and postgres = postgres and url = "cfg_db_url cfg"
        and n = "of_nat (cfg_db_pool_size cfg)"]
    by (elim bootstrap_admin_Inr) simp
  from init(2) obtain db0 where db0: "open_pool P postgres (cfg_db_url cfg) (of_nat (cfg_db_pool_size cfg)) = Inr db0"
    "tab_items (sql_tables (l_sql X) pool) = Some (unwrap_or (tab_items (sql_tables (l_sql X) db0)) [])"
    "tab_users (sql_tables (l_sql X) pool) = Some (unwrap_or (tab_users (sql_tables (l_sql X) db0)) [])"
    "tab_sessions (sql_tables (l_sql X) pool) = Some (unwrap_or (tab_sessions (sql_tables (l_sql X) db0)) [])"
    by blast
  have "users_of (sql_tables (l_sql X) pool) = users_of (sql_tables (l_sql X) db0)"
    and "tables_ok (sql_tables (l_sql X) db0) \<Longrightarrow> tables_ok (sql_tables (l_sql X) pool)"
    by (simp_all add: users_of_def tables_ok_def db0)
  moreover have "tab_users (sql_tables (l_sql X) ?db) \<noteq> None"
    by (rule database.create_user_with_hash_frame(3) [OF assms(1) h(2)]) (simp add: db0)
  ultimately have "started_from (sql_tables (l_sql X) db0) (cfg_auth_username cfg) h (sql_tables (l_sql X) ?db)"
    using database.create_user_with_hash_Inr [OF assms(1) h(2)] database.create_user_with_hash_frame(1,2) [OF assms(1) h(2)]
      database.create_user_with_hash_ok [OF assms(1) h(2)] db0
    by (simp add: started_from_def)
  with init(1) db0(1) h(1) show thesis by (rule that)
qed

subsection \<open>The host of a redirect\<close>

definition host_name :: "string \<Rightarrow> bool" where
  "host_name h \<longleftrightarrow>
     (if starts_with ''['' h then last h = CHR '']'' \<and> CHR '']'' \<notin> set (butlast h) else CHR '':'' \<notin> set h)"

definition port_suffix :: "string \<Rightarrow> bool" where
  "port_suffix s \<longleftrightarrow> (case s of [] \<Rightarrow> True | c # p \<Rightarrow> c = CHR '':'' \<and> CHR '':'' \<notin> set p)"

lemma bare_host_port:
  assumes "host_name h" and "port_suffix s"
  shows "bare_host (h @ s) = h"
proof (cases "starts_with ''['' h")
  case True
  then have h: "h = butlast h @ CHR '']'' # []" and no: "CHR '']'' \<notin> set (butlast h)"
    using assms(1) append_butlast_last_id [of h] by (auto simp: host_name_def starts_with_iff)
  have "split_once CHR '']'' (h @ s) = Some (butlast h, s)"
    using no by (subst h) (simp add: split_once_Some_iff)
  moreover have "starts_with ''['' (h @ s)" using True by (auto simp: starts_with_iff)
  ultimately show ?thesis using h by (simp add: bare_host_def)
next
  case False
  have c: "CHR '':'' \<notin> set h" using assms(1) False by (simp add: host_name_def)
  show ?thesis
  proof (cases s)
    case Nil
    with c False show ?thesis by (simp add: bare_host_def rsplit_once_def)
  next
    case (Cons x p)
    then have x: "x = CHR '':''" "CHR '':'' \<notin> set p" using assms(2) by (simp_all add: port_suffix_def)
    have "\<not> starts_with ''['' (h @ s)" using False x(1) Cons by (cases h) (simp_all add: starts_with_iff)
    with rsplit_once_snoc [OF x(2), of h] show ?thesis by (simp add: bare_host_def Cons x(1))
  qed
qed

lemma bare_host_subset: "set (bare_host h) \<subseteq> set h"
  by (auto simp: bare_host_def rsplit_once_def split_once_Some_iff
      split: option.splits if_splits dest!: list.set_sel(2) [rotated] set_dropWhileD)

text \<open>A concrete start, on a machine without certificates and an empty database in memory.\<close>

definition no_tls :: "(unit, unit, unit, unit, unit) tls_lib" where
  "no_tls =
     \<lparr>tls_file_open = (\<lambda>_. Inl NotFound), pem_certs = (\<lambda>_. []), pem_private_key = (\<lambda>_. Inr None),
      safe_default_protocol_versions = Inr (), with_single_cert = (\<lambda>_ _ _. Inl [])\<rparr>"

definition demo_start ::
    "string option \<Rightarrow> start_error + (nat, tables \<times> nat, unit, string, string, unit, (string \<times> string) list) started" where
  "demo_start password_hash =
     start_server counting_semaphore demo_libs mem_pool False no_tls (\<lambda>_. None) demo_config password_hash ''s''
       (Inr (cfg_addr demo_config))"

lemma demo_started:
  assumes "bootstrap_hash clear_argon2 demo_config password_hash ''s'' = Inr h"
    and "argon2_parse_hash clear_argon2 h = Inr ph"
  shows "\<exists>st. demo_start password_hash = Inr st \<and> sh_db (ss_shared (sr_state st)) =
    (empty_tables\<lparr>tab_users := Some [\<lparr>row_username = ''admin'', row_password_hash = h\<rparr>]\<rparr>, 5)"
proof -
  have cfg: "cfg_db_url demo_config = ''sqlite::memory:''" "cfg_max_connections demo_config = 1" "cfg_auth_username demo_config = ''admin''"
      "cfg_max_concurrent_requests demo_config = 1" "cfg_tls_cert_path demo_config = None" "cfg_proxy_upstream demo_config = None"
    by (simp_all add: demo_config_def)
  have init: "init_pool mem_pool mem_engine False ''sqlite::memory:'' n = Inr (empty_tables, 3)" for n
    by (simp add: init_pool_def is_postgres_def starts_with_def open_pool_def mem_pool_def run_migrations_def
        execute_def map_err_def mem_run sql_apply.simps empty_tables_def)
  have "create_user_with_hash_if_missing mem_engine clear_argon2 ''admin'' h (empty_tables, 3) =
      ((empty_tables\<lparr>tab_users := Some [\<lparr>row_username = ''admin'', row_password_hash = h\<rparr>]\<rparr>, 5), Inr ())"
    using assms(2)
    by (simp add: create_user_with_hash_if_missing_def fetch_optional_def execute_def mem_run sql_apply.simps on_table_def empty_tables_def)
  then have "bootstrap_admin demo_libs demo_config password_hash ''s'' (empty_tables, 3) =
      Inr (empty_tables\<lparr>tab_users := Some [\<lparr>row_username = ''admin'', row_password_hash = h\<rparr>]\<rparr>, 5)"
    using assms(1)
    by (simp add: bootstrap_admin_def create_user_if_missing_def bootstrap_hash_def cfg split: option.splits)
  then show ?thesis
    by (simp add: demo_start_def start_server_def load_tls_def new_semaphore_def MAX_PERMITS_def start_proxy_client_def
        cfg init map_error_def Let_def)
qed

subsection \<open>Properties\<close>

text \<open>
  C27: A server that started.  When start-up succeeds the database is of the configured backend and has its three
  tables; the items and sessions it held are still there; the administrator exists, with the stored hash if the account
  was there before and otherwise with the hash of the environment or of the configured password, and no other
  account changed.  Both semaphores hold exactly the configured numbers of permits, TLS is on exactly when both
  paths are set, and there is a proxy client exactly when an upstream is configured.
\<close>

theorem server_started:
  assumes "database (l_sql X)" and "tokio_semaphore S"
    and "start_server S X P postgres T build_client cfg password_hash salt local_addr = Inr st"
  defines "t \<equiv> sql_tables (l_sql X) (sh_db (ss_shared (sr_state st)))"
  shows "sem_available S (sr_connection_limit st) = cfg_max_connections cfg \<and>
    sem_available S (ss_semaphore (sr_state st)) = cfg_max_concurrent_requests cfg \<and>
    (sr_tls st \<noteq> None \<longleftrightarrow> cfg_tls_cert_path cfg \<noteq> None \<and> cfg_tls_key_path cfg \<noteq> None) \<and>
    (st_proxy_client (sr_app st) \<noteq> None \<longleftrightarrow> cfg_proxy_upstream cfg \<noteq> None) \<and>
    is_postgres (cfg_db_url cfg) = postgres \<and>
    (\<exists>db0 h. open_pool P postgres (cfg_db_url cfg) (of_nat (cfg_db_pool_size cfg)) = Inr db0 \<and>
       bootstrap_hash (l_argon2 X) cfg password_hash salt = Inr h \<and>
       tab_items t = Some (unwrap_or (tab_items (sql_tables (l_sql X) db0)) []) \<and>
       tab_sessions t = Some (unwrap_or (tab_sessions (sql_tables (l_sql X) db0)) []) \<and>
       users_of t = (let users = users_of (sql_tables (l_sql X) db0); u = cfg_auth_username cfg in
         if users u = None then users(u \<mapsto> h) else users))"
proof -
  from assms(3) obtain pool where pool: "load_tls T cfg = Inr (sr_tls st)"
    "new_semaphore S (cfg_max_connections cfg) = Inr (sr_connection_limit st)"
    "new_semaphore S (cfg_max_concurrent_requests cfg) = Inr (ss_semaphore (sr_state st))"
    "start_proxy_client build_client cfg = Inr (st_proxy_client (sr_app st))"
    by (elim start_server_Inr)
  obtain db0 h where db0: "is_postgres (cfg_db_url cfg) = postgres"
      "open_pool P postgres (cfg_db_url cfg) (of_nat (cfg_db_pool_size cfg)) = Inr db0"
      "bootstrap_hash (l_argon2 X) cfg password_hash salt = Inr h"
      "started_from (sql_tables (l_sql X) db0) (cfg_auth_username cfg) h t"
    unfolding t_def by (rule started_tables [OF assms(1,3)])
  show ?thesis
    using db0 load_tls_Inr [OF pool(1)] start_proxy_client_Inr [OF pool(4)] pool(2,3)
    by (simp add: new_semaphore_Inr tokio_semaphore.available_new [OF assms(2)] started_from_def Let_def)
qed

theorem server_started_witness:
  "\<exists>st. demo_start None = Inr st \<and>
     sem_available counting_semaphore (sr_connection_limit st) = 1 \<and> sr_tls st = None \<and>
     users_of (sql_tables mem_engine (sh_db (ss_shared (sr_state st)))) ''admin'' = Some ''s$secret''"
proof -
  obtain st where st: "demo_start None = Inr st" using demo_started [of None "''s$secret''"] by (auto simp: bootstrap_hash_def clear_argon2_def demo_config_def)
  have "database (l_sql demo_libs)" by (simp add: mem.database_axioms)
  note g = server_started [OF this counting.tokio_semaphore_axioms st [unfolded demo_start_def]]
  have "open_pool mem_pool False (cfg_db_url demo_config) n = Inr (\<lparr>tab_items = None, tab_users = None, tab_sessions = None\<rparr>, 0)"
    for n by (simp add: open_pool_def mem_pool_def)
  then show ?thesis using g st
    by (auto simp: demo_config_def bootstrap_hash_def clear_argon2_def users_of_def)
qed

text \<open>
  C38: The redirect.  For every request whose target is a valid header value the redirect service answers (its
  \<open>unwrap\<close> does not panic) with status \<open>308\<close> and an empty body; when the request names its host, with or
  without a port, as a name, an IPv4 address or a bracketed IPv6 address, there is one \<open>Location\<close>: the same
  host and the same path and query under \<open>https\<close>, with the port of the HTTPS listener unless it is 443.
\<close>

theorem redirect_target:
  assumes "http_crate L" and "header_value_ok (unwrap_or (uri_path_and_query (parts_uri parts)) ''/'')"
  shows "\<exists>resp. redirect_response L port parts = Some resp \<and> resp_status resp = 308 \<and> resp_body resp = [] \<and>
    (\<forall>h s. host_name h \<and> port_suffix s \<and> visible_ascii (h @ s) \<and> hm_get L (parts_headers parts) ''host'' = Some (h @ s) \<longrightarrow>
       hm_get_all L (resp_headers resp) ''location'' =
         [''https://'' @ h @ (if port = 443 then [] else '':'' @ show_nat port) @
          unwrap_or (uri_path_and_query (parts_uri parts)) ''/''])"
proof -
  let ?pq = "unwrap_or (uri_path_and_query (parts_uri parts)) ''/''"
  let ?host = "unwrap_or (Option.bind (hm_get L (parts_headers parts) ''host'') (value_to_str L)) ''localhost''"
  have "visible_ascii ?host"
    by (cases "hm_get L (parts_headers parts) ''host''") (auto simp: http_crate.to_str [OF assms(1)] visible_ascii_def)
  then have "header_value_ok (bare_host ?host)"
    using bare_host_subset [of ?host] by (fastforce simp: visible_ascii_def header_value_ok_def list_all_iff Let_def)
  then have ok: "list_all header_ok [(''Location'', redirect_location port ?host ?pq), (''Content-Length'', ''0'')]"
    using assms(2) show_nat_value_ok [of port]
    by (auto simp: redirect_location_def header_ok_def header_name_ok_def token_char_def header_value_ok_def)
  then obtain hs where hs: "build_headers L [(''Location'', redirect_location port ?host ?pq), (''Content-Length'', ''0'')] = Some hs"
    using http_crate.build_headers_ok [OF assms(1)] by blast
  have "lowercase ''Location'' = ''location''" "lowercase ''location'' = ''location''"
    "lowercase ''Content-Length'' = ''content-length''" by code_simp+
  then have "hm_get_all L hs ''location'' = [redirect_location port ?host ?pq]"
    by (simp add: http_crate.build_headers_Some(2) [OF assms(1) hs] values_of_def)
  with hs show ?thesis
    by (auto simp: redirect_response_def Let_def http_crate.to_str [OF assms(1)] redirect_location_def bare_host_port)
qed

theorem redirect_target_witness:
  "\<exists>resp. redirect_response alist_http 8443
       \<lparr>parts_method = ''GET'', parts_uri = \<lparr>uri_path = ''/a'', uri_query = None, uri_path_and_query = Some ''/a''\<rparr>,
        parts_headers = [(''host'', ''[::1]:80'')]\<rparr> = Some resp \<and>
     hm_get_all alist_http (resp_headers resp) ''location'' = [''https://[::1]:'' @ show_nat 8443 @ ''/a'']"
proof -
  define parts where "parts =
    \<lparr>parts_method = ''GET'', parts_uri = \<lparr>uri_path = ''/a'', uri_query = None, uri_path_and_query = Some ''/a''\<rparr>,
     parts_headers = [(''host'', ''[::1]:80'')]\<rparr>"
  have pq: "unwrap_or (uri_path_and_query (parts_uri parts)) ''/'' = ''/a''" by (simp add: parts_def)
  have h: "host_name ''[::1]''" "port_suffix '':80''" "visible_ascii (''[::1]'' @ '':80'')"
    "hm_get alist_http (parts_headers parts) ''host'' = Some (''[::1]'' @ '':80'')"
    by (simp_all add: host_name_def starts_with_def port_suffix_def visible_ascii_def parts_def) code_simp
  obtain resp where "redirect_response alist_http 8443 parts = Some resp"
    "hm_get_all alist_http (resp_headers resp) ''location'' = [''https://'' @ ''[::1]'' @ ('':'' @ show_nat 8443) @ ''/a'']"
    using redirect_target [OF alist.http_crate_axioms, of parts 8443] h unfolding pq
    by (auto simp: header_value_ok_def)
  then show ?thesis unfolding parts_def by auto
qed

end
