(* ===== verification/Accept_Loop.thy ===== *)
theory Accept_Loop
  imports Config Concurrency Metrics
begin

text \<open>
  The accept loop of \<^verbatim>\<open>src/server/mod.rs\<close>, its connection tasks and the graceful shutdown.

  The loop and the tasks run concurrently and share the in-flight counter (an atomic), the connection
  semaphore and the \<^verbatim>\<open>Notify\<close>, so they are a transition system: one event for each atomic
  action.  A task serves its connection, then takes it off the counter (\<open>TaskDone\<close>), then, if the counter
  was one, calls \<^verbatim>\<open>notify_one\<close> (\<open>TaskNotify\<close>), and last drops its permit (\<open>TaskRelease\<close>).  A task that
  panics (\<open>TaskPanic\<close>) is dropped by tokio where it is: its permit is released, but it does not take itself off the counter.  The loop
  accepts until the shutdown signal, announces the shutdown, and then waits as the source does.  A
  \<^verbatim>\<open>notify_one\<close> that finds nobody waiting is stored: \<open>ac_notify\<close> is that permit, as the
  documentation of \<^verbatim>\<open>tokio::sync::Notify\<close> describes it.
\<close>

datatype task_phase = Serving | MustNotify | Releasing

datatype drain_outcome = NoConnections | Drained | DrainTimeout

datatype loop_phase = Accepting | Settling | Signalled | Registered | Waiting | Stopped drain_outcome

record ('c, 'sem) accept_state =
  ac_phase :: loop_phase
  ac_metrics :: metrics
  ac_limit :: 'sem
  ac_in_flight :: "64 word"
  ac_notify :: bool
  ac_shutdown :: bool
  ac_tasks :: "'c \<rightharpoonup> ip_addr \<times> task_phase"

datatype 'c accept_event =
  Accept 'c ip_addr | AcceptError | TaskDone 'c | TaskNotify 'c | TaskRelease 'c | TaskPanic 'c
| ShutdownSignal | Announce | CheckRemaining | Recheck | Notified | DrainTimer

definition accept_init :: "'sem semaphore_lib \<Rightarrow> server_config \<Rightarrow> ('c, 'sem) accept_state" where
  "accept_init S cfg =
     \<lparr>ac_phase = Accepting, ac_metrics = metrics_new, ac_limit = sem_new S (cfg_max_connections cfg),
      ac_in_flight = 0, ac_notify = False, ac_shutdown = False, ac_tasks = Map.empty\<rparr>"

definition reject_ip :: "('c, 'sem) accept_state \<Rightarrow> ('c, 'sem) accept_state" where
  "reject_ip a =
     a\<lparr>ac_metrics := (ac_metrics a)\<lparr>connections_rejected_ip := connections_rejected_ip (ac_metrics a) + 1\<rparr>\<rparr>"

definition accept_connection ::
    "'sem semaphore_lib \<Rightarrow> server_config \<Rightarrow> 'c \<Rightarrow> ip_addr \<Rightarrow> ('c, 'sem) accept_state \<Rightarrow> ('c, 'sem) accept_state" where
  "accept_connection S cfg c ip a =
     (let a = a\<lparr>ac_metrics := (ac_metrics a)\<lparr>connections_accepted := connections_accepted (ac_metrics a) + 1\<rparr>\<rparr> in
      if is_blocked cfg ip then reject_ip a
      else if \<not> is_allowed cfg ip then reject_ip a
      else (case sem_try_acquire S (ac_limit a) of
              Some permit \<Rightarrow>
                a\<lparr>ac_limit := permit, ac_in_flight := ac_in_flight a + 1,
                  ac_tasks := (ac_tasks a)(c \<mapsto> (ip, Serving))\<rparr>
            | None \<Rightarrow> a))"

definition task_done :: "'c \<Rightarrow> ip_addr \<Rightarrow> ('c, 'sem) accept_state \<Rightarrow> ('c, 'sem) accept_state" where
  "task_done c ip a =
     a\<lparr>ac_in_flight := ac_in_flight a - 1,
       ac_tasks := (ac_tasks a)(c \<mapsto> (ip, if ac_in_flight a = 1 then MustNotify else Releasing))\<rparr>"

definition task_notify :: "'c \<Rightarrow> ip_addr \<Rightarrow> ('c, 'sem) accept_state \<Rightarrow> ('c, 'sem) accept_state" where
  "task_notify c ip a = a\<lparr>ac_notify := True, ac_tasks := (ac_tasks a)(c \<mapsto> (ip, Releasing))\<rparr>"

definition task_release ::
    "'sem semaphore_lib \<Rightarrow> 'c \<Rightarrow> ('c, 'sem) accept_state \<Rightarrow> ('c, 'sem) accept_state" where
  "task_release S c a = a\<lparr>ac_limit := sem_release S (ac_limit a), ac_tasks := (ac_tasks a)(c := None)\<rparr>"

inductive accept_step ::
    "'sem semaphore_lib \<Rightarrow> server_config \<Rightarrow> ('c, 'sem) accept_state \<Rightarrow> 'c accept_event \<Rightarrow> ('c, 'sem) accept_state \<Rightarrow> bool"
  for S :: "'sem semaphore_lib" and cfg :: server_config where
  accept: "ac_phase a = Accepting \<Longrightarrow> ac_tasks a c = None \<Longrightarrow>
    accept_step S cfg a (Accept c ip) (accept_connection S cfg c ip a)"
| accept_error: "ac_phase a = Accepting \<Longrightarrow> accept_step S cfg a AcceptError a"
| finished: "ac_tasks a c = Some (ip, Serving) \<Longrightarrow> accept_step S cfg a (TaskDone c) (task_done c ip a)"
| notify: "ac_tasks a c = Some (ip, MustNotify) \<Longrightarrow> accept_step S cfg a (TaskNotify c) (task_notify c ip a)"
| release: "ac_tasks a c = Some (ip, Releasing) \<Longrightarrow> accept_step S cfg a (TaskRelease c) (task_release S c a)"
| panicked: "ac_tasks a c = Some (ip, Serving) \<Longrightarrow> accept_step S cfg a (TaskPanic c) (task_release S c a)"
| signal: "ac_phase a = Accepting \<Longrightarrow> accept_step S cfg a ShutdownSignal (a\<lparr>ac_phase := Settling\<rparr>)"
| announce: "ac_phase a = Settling \<Longrightarrow>
    accept_step S cfg a Announce (a\<lparr>ac_phase := Signalled, ac_shutdown := True\<rparr>)"
| remaining: "ac_phase a = Signalled \<Longrightarrow>
    accept_step S cfg a CheckRemaining
      (a\<lparr>ac_phase := if 0 < ac_in_flight a then Registered else Stopped NoConnections\<rparr>)"
| recheck: "ac_phase a = Registered \<Longrightarrow>
    accept_step S cfg a Recheck (a\<lparr>ac_phase := if 0 < ac_in_flight a then Waiting else Stopped NoConnections\<rparr>)"
| notified: "ac_phase a = Waiting \<Longrightarrow> ac_notify a \<Longrightarrow>
    accept_step S cfg a Notified (a\<lparr>ac_phase := Stopped Drained, ac_notify := False\<rparr>)"
| drain_timer: "ac_phase a = Waiting \<Longrightarrow>
    accept_step S cfg a DrainTimer (a\<lparr>ac_phase := Stopped DrainTimeout\<rparr>)"

inductive accept_run ::
    "'sem semaphore_lib \<Rightarrow> server_config \<Rightarrow> ('c, 'sem) accept_state \<Rightarrow> 'c accept_event list \<Rightarrow> ('c, 'sem) accept_state \<Rightarrow> bool"
  for S :: "'sem semaphore_lib" and cfg :: server_config where
  run_nil: "accept_run S cfg a [] a"
| run_snoc: "accept_run S cfg a es b \<Longrightarrow> accept_step S cfg b e c \<Longrightarrow> accept_run S cfg a (es @ [e]) c"

definition tasks_in :: "task_phase \<Rightarrow> ('c \<rightharpoonup> ip_addr \<times> task_phase) \<Rightarrow> 'c set" where
  "tasks_in ph m = {c. \<exists>ip. m c = Some (ip, ph)}"

abbreviation serving :: "('c, 'sem) accept_state \<Rightarrow> 'c set" where
  "serving a \<equiv> tasks_in Serving (ac_tasks a)"

abbreviation notifying :: "('c, 'sem) accept_state \<Rightarrow> 'c set" where
  "notifying a \<equiv> tasks_in MustNotify (ac_tasks a)"

text \<open>The number of tasks that panicked in a run: the counter never forgets them.\<close>

fun is_panic :: "'c accept_event \<Rightarrow> bool" where
  "is_panic (TaskPanic c) = True"
| "is_panic _ = False"

definition panics :: "'c accept_event list \<Rightarrow> nat" where
  "panics es = length (filter is_panic es)"

lemma panics_simps [simp]:
  "panics [] = 0" "panics (e # es) = (if is_panic e then 1 else 0) + panics es"
  "panics (es @ es') = panics es + panics es'"
  by (simp_all add: panics_def)

definition accept_inv :: "'sem semaphore_lib \<Rightarrow> server_config \<Rightarrow> nat \<Rightarrow> ('c, 'sem) accept_state \<Rightarrow> bool" where
  "accept_inv S cfg p a \<longleftrightarrow>
     finite (dom (ac_tasks a)) \<and>
     sem_available S (ac_limit a) + card (dom (ac_tasks a)) = cfg_max_connections cfg \<and>
     ac_in_flight a = of_nat (card (serving a) + p) \<and>
     (\<forall>c ip ph. ac_tasks a c = Some (ip, ph) \<longrightarrow> \<not> is_blocked cfg ip \<and> is_allowed cfg ip)"

lemma serving_subset: "serving a \<subseteq> dom (ac_tasks a)"
  by (auto simp: tasks_in_def)

lemma serving_accept: "ac_tasks a c = None \<Longrightarrow> c \<notin> serving a"
  by (simp add: tasks_in_def)

lemma tasks_in_simps [simp]:
  "tasks_in ph Map.empty = {}"
  "tasks_in ph (m(c \<mapsto> (ip, ph'))) = (if ph' = ph then insert c (tasks_in ph m) else tasks_in ph m - {c})"
  "tasks_in ph (m(c := None)) = tasks_in ph m - {c}"
  by (auto simp: tasks_in_def)

lemma inv_admitted: "accept_inv S cfg p a \<Longrightarrow> ac_tasks a c = Some (ip, ph) \<Longrightarrow> \<not> is_blocked cfg ip \<and> is_allowed cfg ip"
  unfolding accept_inv_def by blast

lemma serving_finite: "accept_inv S cfg p a \<Longrightarrow> finite (serving a)"
  by (rule finite_subset [OF serving_subset]) (simp add: accept_inv_def)

lemma serving_card: "accept_inv S cfg p a \<Longrightarrow> card (serving a) \<le> cfg_max_connections cfg"
  using card_mono [OF _ serving_subset, of a] by (auto simp: accept_inv_def)

text \<open>As long as the number of panics stays below the range of the counter, it does not wrap.\<close>

abbreviation countable_panics :: "server_config \<Rightarrow> nat \<Rightarrow> bool" where
  "countable_panics cfg p \<equiv> cfg_max_connections cfg + p < 2 ^ 64"

lemma in_flight_exact:
  assumes "accept_inv S cfg p a" and "countable_panics cfg p"
  shows "unat (ac_in_flight a) = card (serving a) + p"
proof -
  have "card (serving a) + p < 2 ^ 64" using serving_card [OF assms(1)] assms(2) by simp
  with assms(1) show ?thesis by (simp add: accept_inv_def unat_of_nat del: of_nat_add)
qed

lemma in_flight_zero:
  assumes "accept_inv S cfg p a" and "countable_panics cfg p"
  shows "0 < ac_in_flight a \<longleftrightarrow> serving a \<noteq> {} \<or> 0 < p" and "ac_in_flight a = 1 \<longleftrightarrow> card (serving a) + p = 1"
  using in_flight_exact [OF assms] serving_finite [OF assms(1)]
  by (auto simp: word_less_nat_alt card_gt_0_iff word_unat_eq_iff)

lemma inv_updates [simp]:
  "accept_inv S cfg p (a\<lparr>ac_phase := ph\<rparr>) = accept_inv S cfg p a"
  "accept_inv S cfg p (a\<lparr>ac_notify := n\<rparr>) = accept_inv S cfg p a"
  "accept_inv S cfg p (a\<lparr>ac_shutdown := x\<rparr>) = accept_inv S cfg p a"
  by (simp_all add: accept_inv_def)

context tokio_semaphore
begin

lemma init_inv: "cfg_max_connections cfg \<le> MAX_PERMITS \<Longrightarrow> accept_inv S cfg 0 (accept_init S cfg)"
  by (simp add: accept_inv_def accept_init_def available_new)

lemma accept_connection_inv:
  assumes "accept_inv S cfg p a" and "ac_tasks a c = None"
  shows "accept_inv S cfg p (accept_connection S cfg c ip a)"
proof (cases "is_blocked cfg ip \<or> \<not> is_allowed cfg ip")
  case True
  with assms(1) show ?thesis by (auto simp: accept_connection_def reject_ip_def accept_inv_def Let_def)
next
  case False
  have "card (insert c (serving a)) = Suc (card (serving a))"
    using serving_finite [OF assms(1)] serving_accept [OF assms(2)] by simp
  moreover have "card (insert c (dom (ac_tasks a))) = Suc (card (dom (ac_tasks a)))"
    using assms by (intro card_insert_disjoint) (auto simp: accept_inv_def)
  ultimately show ?thesis
    using assms False acquire_Some [of "ac_limit a"]
    by (auto simp: accept_connection_def accept_inv_def Let_def split: option.splits)
qed

lemma task_done_inv:
  assumes "accept_inv S cfg p a" and "ac_tasks a c = Some (ip, Serving)"
  shows "accept_inv S cfg p (task_done c ip a)"
proof -
  have "c \<in> serving a" using assms(2) by (auto simp: tasks_in_def)
  then have "card (serving a) = Suc (card (serving a - {c}))"
    using card.remove [OF serving_finite [OF assms(1)]] by simp
  moreover have "insert c (dom (ac_tasks a)) = dom (ac_tasks a)" using assms(2) by auto
  ultimately show ?thesis
    using assms inv_admitted [OF assms] by (auto simp: task_done_def accept_inv_def)
qed

lemma task_notify_inv:
  assumes "accept_inv S cfg p a" and "ac_tasks a c = Some (ip, MustNotify)"
  shows "accept_inv S cfg p (task_notify c ip a)"
proof -
  have "serving a - {c} = serving a" using assms(2) by (auto simp: tasks_in_def)
  moreover have "insert c (dom (ac_tasks a)) = dom (ac_tasks a)" using assms(2) by auto
  ultimately show ?thesis
    using assms inv_admitted [OF assms] by (auto simp: task_notify_def accept_inv_def)
qed

lemma task_release_inv:
  assumes "accept_inv S cfg p a" and "ac_tasks a c = Some (ip, Releasing)" and "cfg_max_connections cfg \<le> MAX_PERMITS"
  shows "accept_inv S cfg p (task_release S c a)"
proof -
  have "serving a - {c} = serving a" using assms(2) by (auto simp: tasks_in_def)
  moreover have "card (dom (ac_tasks a)) = Suc (card (dom (ac_tasks a) - {c}))"
    using assms(1,2) by (intro card.remove) (auto simp: accept_inv_def)
  ultimately show ?thesis
    using assms available_release [of "ac_limit a"]
    by (auto simp: task_release_def accept_inv_def)
qed

lemma task_panic_inv:
  assumes "accept_inv S cfg p a" and "ac_tasks a c = Some (ip, Serving)" and "cfg_max_connections cfg \<le> MAX_PERMITS"
  shows "accept_inv S cfg (Suc p) (task_release S c a)"
proof -
  have "c \<in> serving a" using assms(2) by (auto simp: tasks_in_def)
  then have "card (serving a) = Suc (card (serving a - {c}))"
    using card.remove [OF serving_finite [OF assms(1)]] by simp
  moreover have "card (dom (ac_tasks a)) = Suc (card (dom (ac_tasks a) - {c}))"
    using assms(1,2) by (intro card.remove) (auto simp: accept_inv_def)
  ultimately show ?thesis
    using assms available_release [of "ac_limit a"] by (auto simp: task_release_def accept_inv_def)
qed

lemma step_inv:
  assumes "accept_step S cfg a e b" and "accept_inv S cfg p a" and "cfg_max_connections cfg \<le> MAX_PERMITS"
  shows "accept_inv S cfg (p + panics [e]) b"
  using assms
  by (cases rule: accept_step.cases)
    (simp_all add: accept_connection_inv task_done_inv task_notify_inv task_release_inv task_panic_inv)

lemma run_inv:
  assumes "accept_run S cfg a es b" and "accept_inv S cfg p a" and "cfg_max_connections cfg \<le> MAX_PERMITS"
  shows "accept_inv S cfg (p + panics es) b"
  using assms
proof (induction rule: accept_run.induct)
  case (run_snoc a es b e c)
  then have "accept_inv S cfg (p + panics es + panics [e]) c" by (intro step_inv [OF run_snoc.hyps(2)])
  then show ?case by (simp add: add.assoc)
qed simp

lemma serving_shrinks:
  assumes "accept_step S cfg a e b" and "ac_phase a \<noteq> Accepting"
  shows "serving b \<subseteq> serving a"
  using assms
  by (cases rule: accept_step.cases) (auto simp: task_done_def task_notify_def task_release_def)

lemma step_stopped:
  assumes "accept_step S cfg a e b" and "ac_phase b = Stopped NoConnections"
  shows "ac_phase a = Stopped NoConnections \<or> ac_phase a \<noteq> Accepting \<and> \<not> 0 < ac_in_flight a"
  using assms
  by (cases rule: accept_step.cases)
    (auto simp: task_done_def task_notify_def task_release_def accept_connection_def reject_ip_def Let_def
      split: if_splits option.splits)

text \<open>A loop that stopped because it saw no connection leaves none behind.\<close>

lemma stopped_empty:
  assumes "accept_run S cfg a0 es a" and "a0 = accept_init S cfg" and "cfg_max_connections cfg \<le> MAX_PERMITS"
    and "countable_panics cfg (panics es)"
  shows "ac_phase a = Stopped NoConnections \<Longrightarrow> serving a = {}"
  using assms
proof (induction rule: accept_run.induct)
  case (run_nil a)
  then show ?case by (simp add: accept_init_def)
next
  case (run_snoc a es b e c)
  have few: "countable_panics cfg (panics es)" using run_snoc.prems(4) by simp
  have inv: "accept_inv S cfg (panics es) b"
    using run_inv [OF run_snoc.hyps(1), of 0] init_inv [OF run_snoc.prems(3)] run_snoc.prems by simp
  have "serving b = {} \<and> ac_phase b \<noteq> Accepting"
    using step_stopped [OF run_snoc.hyps(2) run_snoc.prems(1)] run_snoc.IH run_snoc.prems few
      in_flight_zero(1) [OF inv few] by auto
  with serving_shrinks [OF run_snoc.hyps(2)] show ?case by blast
qed

end

text \<open>
  From the moment the loop stops accepting, a notification can only mean that the last connection is gone:
  unless one was left over from before.
\<close>

definition drain_inv :: "('c, 'sem) accept_state \<Rightarrow> bool" where
  "drain_inv a \<longleftrightarrow> ac_phase a \<noteq> Accepting \<and> (ac_notify a \<or> notifying a \<noteq> {} \<longrightarrow> serving a = {}) \<and>
     (ac_phase a = Stopped Drained \<longrightarrow> serving a = {})"

text \<open>After a panic the counter stays above zero: nobody notifies, and the loop sees connections until its timer.\<close>

definition stuck_inv :: "('c, 'sem) accept_state \<Rightarrow> bool" where
  "stuck_inv a \<longleftrightarrow> ac_phase a \<notin> {Accepting, Stopped NoConnections, Stopped Drained} \<and> \<not> ac_notify a \<and> notifying a = {}"

context tokio_semaphore
begin

lemma task_done_drain:
  assumes "drain_inv a" and "ac_tasks a c = Some (ip, Serving)" and "accept_inv S cfg p a"
    and "countable_panics cfg p"
  shows "drain_inv (task_done c ip a)"
proof -
  have c: "c \<in> serving a" using assms(2) by (auto simp: tasks_in_def)
  then have no: "\<not> ac_notify a" "notifying a = {}" "ac_phase a \<noteq> Stopped Drained"
    using assms(1) by (auto simp: drain_inv_def)
  have "serving a - {c} = {}" if "ac_in_flight a = 1"
  proof -
    have "card (serving a) \<noteq> 0" using c serving_finite [OF assms(3)] by auto
    then have "card (serving a) = 1" using that in_flight_zero(2) [OF assms(3,4)] by simp
    with c show ?thesis by (auto simp: card_1_singleton_iff)
  qed
  with no assms(1) show ?thesis by (auto simp: drain_inv_def task_done_def)
qed

lemma step_drain:
  assumes "accept_step S cfg a e b" and "drain_inv a" and "accept_inv S cfg p a" and "countable_panics cfg p"
  shows "drain_inv b"
  using assms
proof (cases rule: accept_step.cases)
  case (notify c ip)
  then have "serving a = {}" using assms(2) by (auto simp: drain_inv_def tasks_in_def)
  with notify assms(2) show ?thesis by (auto simp: drain_inv_def task_notify_def)
next
  case (release c ip)
  with assms(2) show ?thesis by (auto simp: drain_inv_def task_release_def)
next
  case (panicked c ip)
  with assms(2) show ?thesis by (auto simp: drain_inv_def task_release_def)
qed (auto simp: task_done_drain, auto simp: drain_inv_def)

lemma run_drain:
  assumes "accept_run S cfg a es b" and "drain_inv a" and "accept_inv S cfg p a"
    and "cfg_max_connections cfg \<le> MAX_PERMITS" and "countable_panics cfg (p + panics es)"
  shows "drain_inv b"
  using assms
proof (induction rule: accept_run.induct)
  case (run_snoc a es b e c)
  have few: "countable_panics cfg (p + panics es)" using run_snoc.prems(4) by simp
  show ?case
    using step_drain [OF run_snoc.hyps(2) _ run_inv [OF run_snoc.hyps(1) run_snoc.prems(2,3)] few] run_snoc.IH
      run_snoc.prems few by simp
qed simp

lemma step_stuck:
  assumes "accept_step S cfg a e b" and "stuck_inv a" and "accept_inv S cfg p a" and "countable_panics cfg p" and "0 < p"
  shows "stuck_inv b"
  using assms
proof (cases rule: accept_step.cases)
  case (finished c ip)
  have "c \<in> serving a" using finished(3) by (auto simp: tasks_in_def)
  then have "card (serving a) \<noteq> 0" using serving_finite [OF assms(3)] by auto
  then have "ac_in_flight a \<noteq> 1" using in_flight_zero(2) [OF assms(3,4)] assms(5) by simp
  with finished assms(2) show ?thesis by (auto simp: stuck_inv_def task_done_def)
next
  case (notify c ip)
  with assms(2) show ?thesis by (auto simp: stuck_inv_def tasks_in_def)
qed (use assms in_flight_zero(1) [OF assms(3,4)] in \<open>auto simp: stuck_inv_def task_release_def\<close>)

lemma run_stuck:
  assumes "accept_run S cfg a es b" and "stuck_inv a" and "accept_inv S cfg p a" and "0 < p"
    and "cfg_max_connections cfg \<le> MAX_PERMITS" and "countable_panics cfg (p + panics es)"
  shows "stuck_inv b"
  using assms
proof (induction rule: accept_run.induct)
  case (run_snoc a es b e c)
  have few: "countable_panics cfg (p + panics es)" using run_snoc.prems(5) by simp
  show ?case
    using step_stuck [OF run_snoc.hyps(2) _ run_inv [OF run_snoc.hyps(1) run_snoc.prems(2,4)] few] run_snoc.IH
      run_snoc.prems few by simp
qed simp

end

text \<open>The steps the loop itself takes; the others are steps of the tasks.  After the signal it has at most four left.\<close>

fun loop_event :: "'c accept_event \<Rightarrow> bool" where
  "loop_event (TaskDone c) = False"
| "loop_event (TaskNotify c) = False"
| "loop_event (TaskRelease c) = False"
| "loop_event (TaskPanic c) = False"
| "loop_event _ = True"

fun steps_left :: "loop_phase \<Rightarrow> nat" where
  "steps_left Accepting = 5"
| "steps_left Settling = 4"
| "steps_left Signalled = 3"
| "steps_left Registered = 2"
| "steps_left Waiting = 1"
| "steps_left (Stopped out) = 0"

lemma step_progress:
  assumes "accept_step S cfg a e b" and "ac_phase a \<noteq> Accepting"
  shows "ac_phase b \<noteq> Accepting \<and> steps_left (ac_phase b) + (if loop_event e then 1 else 0) \<le> steps_left (ac_phase a)"
  using assms by (cases rule: accept_step.cases) (auto simp: task_done_def task_notify_def task_release_def)

lemma run_progress:
  assumes "accept_run S cfg a es b" and "ac_phase a \<noteq> Accepting"
  shows "ac_phase b \<noteq> Accepting \<and> steps_left (ac_phase b) + length (filter loop_event es) \<le> steps_left (ac_phase a)"
  using assms
proof (induction rule: accept_run.induct)
  case (run_snoc a es b e c)
  then show ?case using step_progress [OF run_snoc.hyps(2)] by (auto split: if_splits)
qed simp

lemma loop_enabled:
  assumes "ac_phase a \<noteq> Accepting" and "0 < steps_left (ac_phase a)"
  shows "\<exists>e b. loop_event e \<and> accept_step S cfg a e b"
  using assms announce [of a S cfg] remaining [of a S cfg] recheck [of a S cfg] drain_timer [of a S cfg]
  by (cases "ac_phase a") (fastforce intro: exI [of _ Announce] exI [of _ CheckRemaining] exI [of _ Recheck] exI [of _ DrainTimer])+

text \<open>Runs written from their first event.\<close>

lemma run_append: "accept_run S cfg b fs c \<Longrightarrow> accept_run S cfg a es b \<Longrightarrow> accept_run S cfg a (es @ fs) c"
proof (induction rule: accept_run.induct)
  case (run_snoc b fs c e d)
  then show ?case using accept_run.run_snoc [of S cfg a "es @ fs" c e d] by simp
qed simp

lemma run_cons: "accept_step S cfg a e b \<Longrightarrow> accept_run S cfg b es c \<Longrightarrow> accept_run S cfg a (e # es) c"
  using run_append [OF _ run_snoc [OF run_nil]] by fastforce

lemma accept_admitted:
  assumes "\<not> is_blocked cfg ip" and "is_allowed cfg ip" and "sem_try_acquire S (ac_limit a) = Some p"
  shows "ac_phase (accept_connection S cfg c ip a) = ac_phase a"
    and "ac_notify (accept_connection S cfg c ip a) = ac_notify a"
    and "ac_in_flight (accept_connection S cfg c ip a) = ac_in_flight a + 1"
    and "ac_limit (accept_connection S cfg c ip a) = p"
    and "ac_tasks (accept_connection S cfg c ip a) = (ac_tasks a)(c \<mapsto> (ip, Serving))"
  using assms by (simp_all add: accept_connection_def Let_def)

text \<open>A connection that comes and goes alone leaves the notification it sent stored.\<close>

lemma lone_connection:
  assumes "\<not> is_blocked cfg ip" and "is_allowed cfg ip" and "sem_try_acquire S (ac_limit a) = Some p"
    and "ac_phase a = Accepting" and "ac_tasks a = Map.empty" and "ac_in_flight a = 0"
  shows "\<exists>b. accept_run S cfg a [Accept c ip, TaskDone c, TaskNotify c, TaskRelease c] b \<and> ac_phase b = Accepting \<and>
    ac_notify b \<and> ac_tasks b = Map.empty \<and> ac_in_flight b = 0 \<and> ac_limit b = sem_release S p"
proof -
  define a1 where "a1 = accept_connection S cfg c ip a"
  note f = accept_admitted [OF assms(1-3), of c, folded a1_def]
  define a2 where "a2 = task_done c ip a1"
  define a3 where "a3 = task_notify c ip a2"
  define a4 where "a4 = task_release S c a3"
  have "accept_step S cfg a (Accept c ip) a1" using assms unfolding a1_def by (intro accept) auto
  moreover have "accept_step S cfg a1 (TaskDone c) a2" unfolding a2_def by (intro finished) (simp add: f)
  moreover have "accept_step S cfg a2 (TaskNotify c) a3"
    unfolding a3_def by (intro notify) (simp add: a2_def task_done_def f assms)
  moreover have "accept_step S cfg a3 (TaskRelease c) a4"
    unfolding a4_def by (intro release) (simp add: a3_def task_notify_def)
  ultimately have "accept_run S cfg a [Accept c ip, TaskDone c, TaskNotify c, TaskRelease c] a4"
    by (blast intro: run_cons run_nil)
  then show ?thesis
    by (intro exI [of _ a4]) (simp add: a4_def task_release_def a3_def task_notify_def a2_def task_done_def f assms)
qed

lemma stale_drain:
  assumes "ac_phase a = Accepting" and "ac_notify a" and "0 < ac_in_flight a"
  shows "accept_run S cfg a [ShutdownSignal, Announce, CheckRemaining, Recheck, Notified]
    (a\<lparr>ac_shutdown := True, ac_phase := Stopped Drained, ac_notify := False\<rparr>)"
proof -
  define a1 where "a1 = a\<lparr>ac_phase := Settling\<rparr>"
  define a2 where "a2 = a1\<lparr>ac_phase := Signalled, ac_shutdown := True\<rparr>"
  define a3 where "a3 = a2\<lparr>ac_phase := if 0 < ac_in_flight a2 then Registered else Stopped NoConnections\<rparr>"
  define a4 where "a4 = a3\<lparr>ac_phase := if 0 < ac_in_flight a3 then Waiting else Stopped NoConnections\<rparr>"
  note d = a1_def a2_def a3_def a4_def
  have "accept_step S cfg a ShutdownSignal a1" unfolding a1_def by (intro signal assms)
  moreover have "accept_step S cfg a1 Announce a2" unfolding a2_def by (intro announce) (simp add: d)
  moreover have "accept_step S cfg a2 CheckRemaining a3" unfolding a3_def by (intro remaining) (simp add: d)
  moreover have "accept_step S cfg a3 Recheck a4" unfolding a4_def by (intro recheck) (simp add: d assms)
  moreover have "accept_step S cfg a4 Notified (a4\<lparr>ac_phase := Stopped Drained, ac_notify := False\<rparr>)"
    by (intro notified) (simp_all add: d assms)
  ultimately have "accept_run S cfg a [ShutdownSignal, Announce, CheckRemaining, Recheck, Notified]
      (a4\<lparr>ac_phase := Stopped Drained, ac_notify := False\<rparr>)"
    by (blast intro: run_cons run_nil)
  then show ?thesis by (simp add: d)
qed

text \<open>The drain as it is meant: the last connection ends while the loop waits, and its notification is the one.\<close>

lemma graceful_drain:
  assumes "ac_phase a = Accepting" and "ac_tasks a c = Some (ip, Serving)" and "ac_in_flight a = 1"
  shows "\<exists>a1 b. accept_step S cfg a ShutdownSignal a1 \<and>
    accept_run S cfg a1 [Announce, CheckRemaining, Recheck, TaskDone c, TaskNotify c, Notified] b \<and>
    ac_phase b = Stopped Drained"
proof -
  define a1 where "a1 = a\<lparr>ac_phase := Settling\<rparr>"
  define a2 where "a2 = a1\<lparr>ac_phase := Signalled, ac_shutdown := True\<rparr>"
  define a3 where "a3 = a2\<lparr>ac_phase := if 0 < ac_in_flight a2 then Registered else Stopped NoConnections\<rparr>"
  define a4 where "a4 = a3\<lparr>ac_phase := if 0 < ac_in_flight a3 then Waiting else Stopped NoConnections\<rparr>"
  define a5 where "a5 = task_done c ip a4"
  define a6 where "a6 = task_notify c ip a5"
  note d = a1_def a2_def a3_def a4_def a5_def a6_def task_done_def task_notify_def
  have "accept_step S cfg a ShutdownSignal a1" unfolding a1_def by (intro signal assms)
  moreover have "accept_step S cfg a1 Announce a2" unfolding a2_def by (intro announce) (simp add: d)
  moreover have "accept_step S cfg a2 CheckRemaining a3" unfolding a3_def by (intro remaining) (simp add: d)
  moreover have "accept_step S cfg a3 Recheck a4" unfolding a4_def by (intro recheck) (simp add: d assms)
  moreover have "accept_step S cfg a4 (TaskDone c) a5" unfolding a5_def by (intro finished) (simp add: d assms)
  moreover have "accept_step S cfg a5 (TaskNotify c) a6" unfolding a6_def by (intro notify) (simp add: d assms)
  moreover have "accept_step S cfg a6 Notified (a6\<lparr>ac_phase := Stopped Drained, ac_notify := False\<rparr>)"
    by (intro notified) (simp_all add: d assms)
  ultimately show ?thesis by (force intro: run_cons run_nil)
qed

text \<open>A loop of one connection, and the state after it admitted it.\<close>

definition demo_accepted :: "(nat, nat) accept_state" where
  "demo_accepted =
     accept_connection counting_semaphore demo_config 0 (V4 [127, 0, 0, 2]) (accept_init counting_semaphore demo_config)"

lemma demo_admits: "\<not> is_blocked demo_config (V4 [127, 0, 0, 2])" "is_allowed demo_config (V4 [127, 0, 0, 2])"
  "cfg_max_connections demo_config = 1" "cfg_max_connections demo_config \<le> MAX_PERMITS"
  by (simp_all add: is_blocked_def is_allowed_def demo_config_def MAX_PERMITS_def)

lemma demo_accepted_fields:
  "ac_phase demo_accepted = Accepting" "\<not> ac_notify demo_accepted" "ac_in_flight demo_accepted = 1"
  "ac_limit demo_accepted = 0" "ac_tasks demo_accepted = [0 \<mapsto> (V4 [127, 0, 0, 2], Serving)]"
  by (simp_all add: demo_accepted_def accept_connection_def accept_init_def demo_admits(1-3) counting_semaphore_def Let_def)

lemma demo_accepted_run:
  "accept_run counting_semaphore demo_config (accept_init counting_semaphore demo_config) [Accept 0 (V4 [127, 0, 0, 2])] demo_accepted"
  unfolding demo_accepted_def by (intro run_cons [OF accept run_nil]) (simp_all add: accept_init_def)

subsection \<open>Properties\<close>

text \<open>
  C11: The accept loop.  In every state the loop and its tasks can reach together, at most
  \<open>max_connections\<close> tasks exist, the free permits are exactly the rest, the in-flight counter is, modulo \<open>2 ^ 64\<close>,
  the number of connections being served and of tasks that panicked (so it is exact and never wraps when none did), and
  no task was started for an address that is blocked or not allowed.
\<close>

theorem accept_loop_invariant:
  assumes "tokio_semaphore S" and "cfg_max_connections cfg \<le> MAX_PERMITS"
    and "accept_run S cfg (accept_init S cfg) es a"
  shows "card (dom (ac_tasks a)) \<le> cfg_max_connections cfg \<and>
    sem_available S (ac_limit a) = cfg_max_connections cfg - card (dom (ac_tasks a)) \<and>
    unat (ac_in_flight a) = (card (serving a) + panics es) mod 2 ^ 64 \<and>
    (panics es = 0 \<longrightarrow> unat (ac_in_flight a) = card (serving a)) \<and>
    (\<forall>c ip ph. ac_tasks a c = Some (ip, ph) \<longrightarrow> \<not> is_blocked cfg ip \<and> is_allowed cfg ip)"
proof -
  have inv: "accept_inv S cfg (panics es) a"
    using tokio_semaphore.run_inv [OF assms(1,3) tokio_semaphore.init_inv [OF assms(1,2)] assms(2)] by simp
  have "unat (ac_in_flight a) = card (serving a)" if "panics es = 0"
    using in_flight_exact [OF inv] that assms(2) by (simp add: MAX_PERMITS_def)
  moreover have "unat (ac_in_flight a) = (card (serving a) + panics es) mod 2 ^ 64"
    using inv by (simp add: accept_inv_def unat_of_nat del: of_nat_add)
  ultimately show ?thesis using inv by (auto simp: accept_inv_def)
qed

theorem accept_loop_invariant_witness:
  "accept_run counting_semaphore demo_config (accept_init counting_semaphore demo_config) [Accept 0 (V4 [127, 0, 0, 2])] demo_accepted \<and>
   serving demo_accepted = {0} \<and> unat (ac_in_flight demo_accepted) = card (serving demo_accepted) \<and>
   sem_available counting_semaphore (ac_limit demo_accepted) = 0"
  using accept_loop_invariant [OF counting.tokio_semaphore_axioms demo_admits(4) demo_accepted_run] demo_accepted_run
  by (simp add: demo_admits(3) demo_accepted_fields)

text \<open>
  C13: What the end of the drain means.  When the loop returns because it counted no connection, none is
  being served.  When it returns because it was notified, none is being served either, provided that at
  the shutdown signal no notification was stored and none was about to be sent.  Under the same
  proviso, when a connection task has panicked before the signal, the loop can only return by its drain
  timeout.  The number of panics is taken to fit the counter.
\<close>

theorem drain_sound:
  assumes "tokio_semaphore S" and "cfg_max_connections cfg \<le> MAX_PERMITS"
    and "accept_run S cfg (accept_init S cfg) es a" and "countable_panics cfg (panics es)"
  shows "(ac_phase a = Stopped NoConnections \<longrightarrow> serving a = {}) \<and>
    (\<not> ac_notify a \<and> notifying a = {} \<longrightarrow>
      (\<forall>a1 es' b out. accept_step S cfg a ShutdownSignal a1 \<and> accept_run S cfg a1 es' b \<and>
           countable_panics cfg (panics es + panics es') \<and> ac_phase b = Stopped out \<longrightarrow>
         (out = Drained \<longrightarrow> serving b = {}) \<and> (0 < panics es \<longrightarrow> out = DrainTimeout)))"
proof -
  have inv: "accept_inv S cfg (panics es) a"
    using tokio_semaphore.run_inv [OF assms(1,3) tokio_semaphore.init_inv [OF assms(1,2)] assms(2)] by simp
  have "(out = Drained \<longrightarrow> serving b = {}) \<and> (0 < panics es \<longrightarrow> out = DrainTimeout)"
    if "\<not> ac_notify a" "notifying a = {}" "accept_step S cfg a ShutdownSignal a1"
      "accept_run S cfg a1 es' b" "countable_panics cfg (panics es + panics es')" "ac_phase b = Stopped out" for a1 es' b out
  proof -
    have start: "drain_inv a1" "stuck_inv a1" "accept_inv S cfg (panics es) a1"
      using that(1-3) inv by (auto simp: drain_inv_def stuck_inv_def elim: accept_step.cases)
    have "drain_inv b" using tokio_semaphore.run_drain [OF assms(1) that(4) start(1,3) assms(2) that(5)] .
    moreover have "0 < panics es \<Longrightarrow> stuck_inv b"
      using tokio_semaphore.run_stuck [OF assms(1) that(4) start(2,3) _ assms(2) that(5)] .
    ultimately show ?thesis using that(6) by (cases out) (auto simp: drain_inv_def stuck_inv_def)
  qed
  then show ?thesis
    using tokio_semaphore.stopped_empty [OF assms(1,3) refl assms(2,4)] by blast
qed

theorem drain_sound_witness:
  "\<exists>a1 es b. accept_step counting_semaphore demo_config demo_accepted ShutdownSignal a1 \<and>
     accept_run counting_semaphore demo_config a1 es b \<and> ac_phase b = Stopped Drained \<and> serving b = {}"
proof -
  let ?es = "[Announce, CheckRemaining, Recheck, TaskDone 0, TaskNotify 0, Notified] :: nat accept_event list"
  obtain a1 b where run: "accept_step counting_semaphore demo_config demo_accepted ShutdownSignal a1"
    "accept_run counting_semaphore demo_config a1 ?es b" "ac_phase b = Stopped Drained"
    using graceful_drain [of demo_accepted 0 _ counting_semaphore demo_config] demo_accepted_fields by fastforce
  have "\<not> ac_notify demo_accepted \<and> notifying demo_accepted = {}" by (simp add: demo_accepted_fields)
  moreover have "countable_panics demo_config (panics [Accept 0 (V4 [127, 0, 0, 2]) :: nat accept_event])"
    "countable_panics demo_config (panics [Accept 0 (V4 [127, 0, 0, 2])] + panics ?es)"
    by (simp_all add: demo_admits(3))
  ultimately have "serving b = {}"
    using drain_sound [OF counting.tokio_semaphore_axioms demo_admits(4) demo_accepted_run] run by blast
  with run show ?thesis by blast
qed

text \<open>
  C15: The shutdown ends.  After the shutdown signal the loop takes at most four more steps, whatever the connection
  tasks do in between; after four it has returned, and until it has returned one of its own steps is always possible: no task can
  block it, since the drain timer bounds the wait.
\<close>

theorem drain_terminates:
  assumes "accept_step S cfg a ShutdownSignal a1" and "accept_run S cfg a1 es b"
  shows "length (filter loop_event es) \<le> 4 \<and>
    (length (filter loop_event es) = 4 \<longrightarrow> (\<exists>out. ac_phase b = Stopped out)) \<and>
    ((\<exists>out. ac_phase b = Stopped out) \<or> (\<exists>e c. loop_event e \<and> accept_step S cfg b e c))"
proof -
  have "ac_phase a1 = Settling" using assms(1) by (auto elim: accept_step.cases)
  with run_progress [OF assms(2)] loop_enabled [of b S cfg] show ?thesis by (cases "ac_phase b") auto
qed

theorem drain_terminates_witness:
  "\<exists>a1 b. accept_step counting_semaphore demo_config demo_accepted ShutdownSignal a1 \<and>
     accept_run counting_semaphore demo_config a1 [Announce, CheckRemaining, Recheck, TaskDone 0, TaskNotify 0, Notified] b \<and>
     (\<exists>out. ac_phase b = Stopped out)"
proof -
  obtain a1 b where s: "accept_step counting_semaphore demo_config demo_accepted ShutdownSignal a1"
    "accept_run counting_semaphore demo_config a1 [Announce, CheckRemaining, Recheck, TaskDone 0, TaskNotify 0, Notified] b"
    using graceful_drain [of demo_accepted 0 _ counting_semaphore demo_config] demo_accepted_fields by fastforce
  from drain_terminates [OF s] s show ?thesis by auto
qed

text \<open>
  C14: A drain that does not wait.  In every configuration that admits some address there is a run in which
  a first connection comes and goes, leaving the notification it sent stored; the loop then receives the
  shutdown signal while a second connection is being served and the stored notification ends its wait at
  once: it reports a complete drain with that connection still in flight.
\<close>

theorem drain_stale_permit:
  fixes S :: "'sem semaphore_lib" and c :: 'c
  assumes "tokio_semaphore S" and "0 < cfg_max_connections cfg" and "cfg_max_connections cfg \<le> MAX_PERMITS"
    and "\<not> is_blocked cfg ip" and "is_allowed cfg ip"
  shows "\<exists>es (a :: ('c, 'sem) accept_state). accept_run S cfg (accept_init S cfg) es a \<and>
    TaskDone c \<in> set es \<and> DrainTimer \<notin> set es \<and> ac_phase a = Stopped Drained \<and> serving a = {c}"
proof -
  define a :: "('c, 'sem) accept_state" where "a = accept_init S cfg"
  have a: "ac_phase a = Accepting" "ac_tasks a = Map.empty" "ac_in_flight a = 0" "sem_available S (ac_limit a) = cfg_max_connections cfg"
    using tokio_semaphore.available_new [OF assms(1,3)] by (simp_all add: a_def accept_init_def)
  obtain p where p: "sem_try_acquire S (ac_limit a) = Some p"
    using tokio_semaphore.acquire_None [OF assms(1), of "ac_limit a"] a(4) assms(2) by fastforce
  obtain b where b: "accept_run S cfg a [Accept c ip, TaskDone c, TaskNotify c, TaskRelease c] b" "ac_phase b = Accepting"
    "ac_notify b" "ac_tasks b = Map.empty" "ac_in_flight b = 0" "ac_limit b = sem_release S p"
    using lone_connection [OF assms(4,5) p a(1-3), of c] by blast
  have "sem_available S (ac_limit b) \<noteq> 0"
    using tokio_semaphore.available_release [OF assms(1), of p] tokio_semaphore.acquire_Some [OF assms(1) p] a(4) assms(3) b(6)
    by simp
  then obtain q where q: "sem_try_acquire S (ac_limit b) = Some q"
    using tokio_semaphore.acquire_None [OF assms(1), of "ac_limit b"] by fastforce
  define d where "d = accept_connection S cfg c ip b"
  note f = accept_admitted [OF assms(4,5) q, of c, folded d_def]
  have "accept_step S cfg b (Accept c ip) d" unfolding d_def by (intro accept) (simp_all add: b)
  then have "accept_run S cfg a ([Accept c ip, TaskDone c, TaskNotify c, TaskRelease c] @
      Accept c ip # [ShutdownSignal, Announce, CheckRemaining, Recheck, Notified])
      (d\<lparr>ac_shutdown := True, ac_phase := Stopped Drained, ac_notify := False\<rparr>)"
    using b f by (intro run_append [OF _ b(1)] run_cons [OF _ stale_drain]) (auto simp: word_gt_0)
  then show ?thesis
    unfolding a_def by (intro exI conjI) (assumption | simp add: f b)+
qed

theorem drain_stale_permit_witness:
  "\<exists>es (a :: (nat, nat) accept_state).
     accept_run counting_semaphore demo_config (accept_init counting_semaphore demo_config) es a \<and>
     TaskDone 0 \<in> set es \<and> DrainTimer \<notin> set es \<and> ac_phase a = Stopped Drained \<and> serving a = {0}"
  using drain_stale_permit [OF counting.tokio_semaphore_axioms _ demo_admits(4,1,2)] by (simp add: demo_admits(3))

end
