(* ===== verification/Program.thy ===== *)
theory Program
  imports Server
begin

text \<open>
  The two executables: \<^verbatim>\<open>src/main.rs\<close>, which loads the configuration, warns about insecure defaults, builds
  the runtime and runs the server, and \<^verbatim>\<open>src/bin/password_hash.rs\<close>, which prints a hash for
  \<^verbatim>\<open>AUTH_PASSWORD_HASH\<close>.

  The runtime builder of tokio is a parameter; that it panics on zero threads is in its documentation and is
  written out in \<open>build_runtime\<close>.  The program returns the warnings it logged with its result.
\<close>

datatype main_failure =
  ConfigFailed config_error | RuntimePanic string | RuntimeFailed io_error | ServerFailed start_error

definition security_warnings :: "server_config \<Rightarrow> string option \<Rightarrow> string list" where
  "security_warnings cfg password_hash =
     (if cfg_jwt_secret cfg = ''change-me-in-production'' then [''insecure JWT_SECRET''] else []) @
     (if cfg_auth_username cfg = ''admin'' \<and> cfg_auth_password cfg = ''secret'' \<and> password_hash = None
      then [''default administrator password''] else [])"

definition build_runtime ::
    "(nat \<Rightarrow> nat \<Rightarrow> io_error + 'rt) \<Rightarrow> server_config \<Rightarrow> main_failure + 'rt" where
  "build_runtime runtime_build cfg =
     (if cfg_workers cfg = 0 then Inl (RuntimePanic ''Worker threads cannot be set to 0'')
      else if cfg_max_blocking_threads cfg = 0 then Inl (RuntimePanic ''Max blocking threads cannot be set to 0'')
      else map_error RuntimeFailed (runtime_build (cfg_workers cfg) (cfg_max_blocking_threads cfg)))"

definition main_program ::
    "environment \<Rightarrow> nat option \<Rightarrow> (nat \<Rightarrow> nat \<Rightarrow> io_error + 'rt) \<Rightarrow> ('rt \<Rightarrow> server_config \<Rightarrow> start_error + unit) \<Rightarrow>
     string list \<times> (main_failure + unit)" where
  "main_program env cpus runtime_build run =
     (case from_env env cpus of
        Inl e \<Rightarrow> ([], Inl (ConfigFailed e))
      | Inr cfg \<Rightarrow>
          (security_warnings cfg (env ''AUTH_PASSWORD_HASH''),
           result_bind (build_runtime runtime_build cfg) (\<lambda>runtime.
           map_error ServerFailed (run runtime cfg))))"

datatype tool_exit = Printed string | Usage | HashPanic

definition password_hash_main :: "'ph argon2_lib \<Rightarrow> string \<Rightarrow> string list \<Rightarrow> tool_exit" where
  "password_hash_main A salt args =
     (case drop 1 args of
        [] \<Rightarrow> Usage
      | password # _ \<Rightarrow>
          (case argon2_hash_password A password salt of Inr hash \<Rightarrow> Printed hash | Inl _ \<Rightarrow> HashPanic))"

lemma from_env_threads:
  assumes "from_env env cpus = Inr cfg" and "cpus \<noteq> Some 0"
  shows "0 < cfg_workers cfg" and "0 < cfg_max_blocking_threads cfg"
  using assms(1) unfolding from_env_def result_bind_Inr_iff
  by (elim exE conjE, auto dest!: positive_value_Inr load_workers_pos [OF _ assms(2)])+

text \<open>A configuration that loads never makes the runtime builder panic, so every failure is one of the three errors.\<close>

lemma main_no_panic:
  assumes "cpus \<noteq> Some 0"
  shows "snd (main_program env cpus runtime_build run) \<noteq> Inl (RuntimePanic msg)"
  using from_env_threads [OF _ assms, of env]
  by (auto simp: main_program_def build_runtime_def result_bind_Inl_iff map_error_Inl_iff split: sum.splits)

lemma password_hash_Printed:
  "password_hash_main A salt [prog, pw] = Printed h \<longleftrightarrow> argon2_hash_password A pw salt = Inr h"
  by (auto simp: password_hash_main_def split: sum.splits)

text \<open>
  The administrator of a database that did not have the account: the password that was hashed opens it.
\<close>

lemma fresh_admin_verifies:
  assumes "database (l_sql X)" and "argon2_crate (l_argon2 X)"
    and "start_server S X P postgres T build_client cfg password_hash salt local_addr = Inr st"
    and "open_pool P postgres (cfg_db_url cfg) (of_nat (cfg_db_pool_size cfg)) = Inr db0"
    and "tables_ok (sql_tables (l_sql X) db0)"
    and "users_of (sql_tables (l_sql X) db0) (cfg_auth_username cfg) = None"
    and "bootstrap_hash (l_argon2 X) cfg password_hash salt = Inr h" and "argon2_hash_password (l_argon2 X) pw s = Inr h"
    and "verify_user (l_sql X) (l_argon2 X) (cfg_auth_username cfg) pw (sh_db (ss_shared (sr_state st))) = (db', Inr b)"
  shows b
proof -
  have "started_from (sql_tables (l_sql X) db0) (cfg_auth_username cfg) h
      (sql_tables (l_sql X) (sh_db (ss_shared (sr_state st))))"
    by (rule started_tables [OF assms(1,3)]) (use assms(4,7) in simp)
  then show b
    using database.verify_user_Inr [OF assms(1,9)] argon2_crate.hash_verifies [OF assms(2,8)] assms(5,6)
    by (auto simp: started_from_def)
qed

end
