(* ===== verification/Shutdown.thy ===== *)
theory Shutdown
  imports Accept_Loop Server
begin

text \<open>
  What ends the accept loop: \<open>shutdown_signal\<close> of \<^verbatim>\<open>src/server/mod.rs\<close>, and the \<^verbatim>\<open>select!\<close> of the loop, which asks the
  shutdown future first (\<^verbatim>\<open>biased\<close>) and the listener only when that one is pending.

  A future is modelled by what polling it says after the world has done something: here, after a sequence of signals
  has been delivered to the process since the handlers were registered.  The loop with its \<^verbatim>\<open>select!\<close> is a transition
  system around the one of \<open>Accept_Loop\<close>: between the poll of the shutdown future and the poll of the listener anything can
  happen, a signal included.
\<close>

subsection \<open>Signals\<close>

datatype os_signal = SIGINT | SIGTERM

text \<open>The platform, and the results of registering the two handlers.\<close>

record signal_env =
  sg_unix :: bool
  sg_sigterm :: "io_error + unit"
  sg_ctrl_c :: "io_error + unit"

definition ctrl_c :: "signal_env \<Rightarrow> os_signal list \<Rightarrow> (io_error + unit) option" where
  "ctrl_c G received =
     (case sg_ctrl_c G of
        Inl e \<Rightarrow> Some (Inl e)
      | Inr _ \<Rightarrow> if SIGINT \<in> set received then Some (Inr ()) else None)"

definition sigterm_recv :: "os_signal list \<Rightarrow> unit option" where
  "sigterm_recv received = (if SIGTERM \<in> set received then Some () else None)"

definition shutdown_signal :: "signal_env \<Rightarrow> os_signal list \<Rightarrow> unit option" where
  "shutdown_signal G received =
     (if sg_unix G then
        (case sg_sigterm G of
           Inr _ \<Rightarrow>
             (case (ctrl_c G received, sigterm_recv received) of
                (Some _, _) \<Rightarrow> Some ()
              | (_, Some _) \<Rightarrow> Some ()
              | _ \<Rightarrow> None)
         | Inl e \<Rightarrow> (case ctrl_c G received of Some _ \<Rightarrow> Some () | None \<Rightarrow> None))
      else (case ctrl_c G received of Some _ \<Rightarrow> Some () | None \<Rightarrow> None))"

lemma shutdown_signal_iff:
  "shutdown_signal G received = Some () \<longleftrightarrow>
     (\<exists>e. sg_ctrl_c G = Inl e) \<or> SIGINT \<in> set received \<or>
     sg_unix G \<and> sg_sigterm G = Inr () \<and> SIGTERM \<in> set received"
  by (auto simp: shutdown_signal_def ctrl_c_def sigterm_recv_def split: sum.splits option.splits if_splits)

subsection \<open>The loop and its select\<close>

datatype select_turn = AtShutdown | AtAccept

record ('c, 'sem, 'w) polled_loop =
  pl_loop :: "('c, 'sem) accept_state"
  pl_turn :: select_turn
  pl_world :: "'w list"

datatype ('c, 'w) loop_move = Happens 'w | ShutdownPending | Woken | Event "'c accept_event"

definition polled_init :: "'sem semaphore_lib \<Rightarrow> server_config \<Rightarrow> ('c, 'sem, 'w) polled_loop" where
  "polled_init S cfg = \<lparr>pl_loop = accept_init S cfg, pl_turn = AtShutdown, pl_world = []\<rparr>"

fun takes_connection :: "'c accept_event \<Rightarrow> bool" where
  "takes_connection (Accept c ip) = True"
| "takes_connection AcceptError = True"
| "takes_connection _ = False"

text \<open>
  The listener is polled only after the shutdown future was pending, and a loop that was woken, or has handled a
  connection, starts again with the shutdown future.
\<close>

inductive polled_step ::
    "'sem semaphore_lib \<Rightarrow> server_config \<Rightarrow> ('w list \<Rightarrow> unit option) \<Rightarrow> ('c, 'sem, 'w) polled_loop \<Rightarrow> ('c, 'w) loop_move \<Rightarrow>
     ('c, 'sem, 'w) polled_loop \<Rightarrow> bool"
  for S :: "'sem semaphore_lib" and cfg :: server_config and shutdown :: "'w list \<Rightarrow> unit option" where
  happens: "polled_step S cfg shutdown p (Happens w) (p\<lparr>pl_world := pl_world p @ [w]\<rparr>)"
| pending: "ac_phase (pl_loop p) = Accepting \<Longrightarrow> pl_turn p = AtShutdown \<Longrightarrow> shutdown (pl_world p) = None \<Longrightarrow>
    polled_step S cfg shutdown p ShutdownPending (p\<lparr>pl_turn := AtAccept\<rparr>)"
| woken: "ac_phase (pl_loop p) = Accepting \<Longrightarrow> pl_turn p = AtAccept \<Longrightarrow>
    polled_step S cfg shutdown p Woken (p\<lparr>pl_turn := AtShutdown\<rparr>)"
| resolved: "pl_turn p = AtShutdown \<Longrightarrow> shutdown (pl_world p) = Some () \<Longrightarrow>
    accept_step S cfg (pl_loop p) ShutdownSignal a \<Longrightarrow>
    polled_step S cfg shutdown p (Event ShutdownSignal) (p\<lparr>pl_loop := a\<rparr>)"
| taken: "pl_turn p = AtAccept \<Longrightarrow> takes_connection e \<Longrightarrow> accept_step S cfg (pl_loop p) e a \<Longrightarrow>
    polled_step S cfg shutdown p (Event e) (p\<lparr>pl_loop := a, pl_turn := AtShutdown\<rparr>)"
| other: "\<not> takes_connection e \<Longrightarrow> e \<noteq> ShutdownSignal \<Longrightarrow> accept_step S cfg (pl_loop p) e a \<Longrightarrow>
    polled_step S cfg shutdown p (Event e) (p\<lparr>pl_loop := a\<rparr>)"

inductive polled_run ::
    "'sem semaphore_lib \<Rightarrow> server_config \<Rightarrow> ('w list \<Rightarrow> unit option) \<Rightarrow> ('c, 'sem, 'w) polled_loop \<Rightarrow> ('c, 'w) loop_move list \<Rightarrow>
     ('c, 'sem, 'w) polled_loop \<Rightarrow> bool"
  for S :: "'sem semaphore_lib" and cfg :: server_config and shutdown :: "'w list \<Rightarrow> unit option" where
  polled_nil: "polled_run S cfg shutdown p [] p"
| polled_snoc: "polled_run S cfg shutdown p ms q \<Longrightarrow> polled_step S cfg shutdown q m r \<Longrightarrow> polled_run S cfg shutdown p (ms @ [m]) r"

text \<open>The moves of the loop itself, and those that take a connection from the listener.\<close>

fun own_move :: "('c, 'w) loop_move \<Rightarrow> bool" where
  "own_move (Happens w) = False"
| "own_move ShutdownPending = True"
| "own_move Woken = True"
| "own_move (Event e) = loop_event e"

fun takes :: "('c, 'w) loop_move \<Rightarrow> bool" where
  "takes (Event e) = takes_connection e"
| "takes _ = False"

fun move_event :: "('c, 'w) loop_move \<Rightarrow> 'c accept_event option" where
  "move_event (Event e) = Some e"
| "move_event _ = None"

text \<open>Every run with the select is a run of the accept loop, so what is shown of those holds here.\<close>

lemma polled_accept_run:
  "polled_run S cfg shutdown p ms q \<Longrightarrow> accept_run S cfg (pl_loop p) (List.map_filter move_event ms) (pl_loop q)"
proof (induction rule: polled_run.induct)
  case (polled_snoc p ms q m r)
  from polled_snoc.hyps(2) polled_snoc.IH show ?case
    by cases (auto simp: List.map_filter_def intro: run_snoc)
qed (simp add: List.map_filter_def run_nil)

subsection \<open>A future that stays resolved\<close>

fun moves_left :: "loop_phase \<Rightarrow> select_turn \<Rightarrow> nat" where
  "moves_left Accepting AtAccept = 6"
| "moves_left ph turn = steps_left ph"

fun takes_left :: "loop_phase \<Rightarrow> select_turn \<Rightarrow> nat" where
  "takes_left Accepting AtAccept = 1"
| "takes_left ph turn = 0"

definition stopped :: "('c, 'sem, 'w) polled_loop \<Rightarrow> bool" where
  "stopped p \<longleftrightarrow> (\<exists>out. ac_phase (pl_loop p) = Stopped out)"

lemma accept_phase: "ac_phase (accept_connection S cfg c ip a) = ac_phase a"
  by (simp add: accept_connection_def reject_ip_def Let_def split: option.split)

lemma taken_phase: "accept_step S cfg a e b \<Longrightarrow> takes_connection e \<Longrightarrow> ac_phase a = Accepting \<and> ac_phase b = Accepting"
  by (cases rule: accept_step.cases) (auto simp: accept_phase)

lemma signal_phase: "accept_step S cfg a ShutdownSignal b \<Longrightarrow> ac_phase a = Accepting \<and> ac_phase b = Settling"
  by (cases rule: accept_step.cases) auto

lemma other_phase:
  assumes "accept_step S cfg a e b" and "\<not> takes_connection e" and "e \<noteq> ShutdownSignal"
  shows "takes_left (ac_phase b) turn = takes_left (ac_phase a) turn"
    and "moves_left (ac_phase b) turn + (if loop_event e then 1 else 0) \<le> moves_left (ac_phase a) turn"
    and "ac_phase a = Accepting \<Longrightarrow> ac_phase b = Accepting"
  using assms by (cases rule: accept_step.cases; simp add: task_done_def task_notify_def task_release_def)+

locale shutdown_future =
  fixes shutdown :: "'w list \<Rightarrow> unit option"
  assumes stays: "shutdown ws = Some () \<Longrightarrow> shutdown (ws @ [w]) = Some ()"
begin

lemma resolved_stays:
  assumes "polled_step S cfg shutdown p m q" and "shutdown (pl_world p) = Some ()"
  shows "shutdown (pl_world q) = Some ()"
  using assms(1) by cases (use assms(2) in \<open>simp_all add: stays\<close>)

lemma resolved_moves:
  assumes "polled_step S cfg shutdown p m q" and "shutdown (pl_world p) = Some ()"
  shows "moves_left (ac_phase (pl_loop q)) (pl_turn q) + (if own_move m then 1 else 0)
    \<le> moves_left (ac_phase (pl_loop p)) (pl_turn p)"
  using assms(1)
proof cases
  case (taken e a)
  with taken_phase [OF taken(5,4)] show ?thesis by simp
next
  case (resolved a)
  with signal_phase [OF resolved(5)] show ?thesis by simp
next
  case (other e a)
  with other_phase(2) [OF other(5,3,4)] show ?thesis by simp
qed (use assms(2) in simp_all)

lemma resolved_takes:
  assumes "polled_step S cfg shutdown p m q" and "shutdown (pl_world p) = Some ()"
  shows "takes_left (ac_phase (pl_loop q)) (pl_turn q) + (if takes m then 1 else 0)
    \<le> takes_left (ac_phase (pl_loop p)) (pl_turn p)"
  using assms(1)
proof cases
  case (taken e a)
  with taken_phase [OF taken(5,4)] show ?thesis by simp
next
  case (other e a)
  with other_phase(1) [OF other(5,3,4)] show ?thesis by simp
qed (use assms(2) in simp_all)

lemma resolved_run:
  assumes "polled_run S cfg shutdown p ms q" and "shutdown (pl_world p) = Some ()"
  shows "shutdown (pl_world q) = Some () \<and>
    moves_left (ac_phase (pl_loop q)) (pl_turn q) + length (filter own_move ms) \<le> moves_left (ac_phase (pl_loop p)) (pl_turn p) \<and>
    takes_left (ac_phase (pl_loop q)) (pl_turn q) + length (filter takes ms) \<le> takes_left (ac_phase (pl_loop p)) (pl_turn p)"
  using assms
proof (induction rule: polled_run.induct)
  case (polled_snoc p ms q m r)
  then have at: "shutdown (pl_world q) = Some ()" by blast
  show ?case
    using polled_snoc.IH [OF polled_snoc.prems] resolved_stays [OF polled_snoc.hyps(2) at]
      resolved_moves [OF polled_snoc.hyps(2) at] resolved_takes [OF polled_snoc.hyps(2) at]
    by (simp split: if_splits)
qed simp

lemma resolved_enabled:
  assumes "shutdown (pl_world p) = Some ()"
  shows "stopped p \<or> (\<exists>m q. own_move m \<and> polled_step S cfg shutdown p m q)"
proof (cases "ac_phase (pl_loop p) = Accepting")
  case True
  show ?thesis
  proof (cases "pl_turn p")
    case AtShutdown
    with True assms have "polled_step S cfg shutdown p (Event ShutdownSignal) (p\<lparr>pl_loop := (pl_loop p)\<lparr>ac_phase := Settling\<rparr>\<rparr>)"
      by (intro polled_step.resolved accept_step.signal)
    then show ?thesis by (meson loop_event.simps(7) own_move.simps(4))
  next
    case AtAccept
    with True have "polled_step S cfg shutdown p Woken (p\<lparr>pl_turn := AtShutdown\<rparr>)" by (intro polled_step.woken)
    then show ?thesis by (meson own_move.simps(3))
  qed
next
  case False
  show ?thesis
  proof (cases "0 < steps_left (ac_phase (pl_loop p))")
    case True
    then obtain e a where e: "loop_event e" "accept_step S cfg (pl_loop p) e a" using loop_enabled [OF False] by blast
    then have "\<not> takes_connection e" "e \<noteq> ShutdownSignal" using False taken_phase signal_phase by blast+
    with e show ?thesis using polled_step.other by (meson own_move.simps(4))
  next
    case False
    then show ?thesis by (cases "ac_phase (pl_loop p)") (auto simp: stopped_def)
  qed
qed

lemma moves_left_zero: "moves_left (ac_phase (pl_loop p)) (pl_turn p) = 0 \<longleftrightarrow> stopped p"
  by (cases "ac_phase (pl_loop p)"; cases "pl_turn p"; simp add: stopped_def)

text \<open>Once the future has resolved, the loop takes at most one more connection and ends after at most six moves of its own.\<close>

lemma resolved_ends:
  assumes "polled_run S cfg shutdown p ms q" and "shutdown (pl_world p) = Some ()"
  shows "length (filter takes ms) \<le> 1 \<and> length (filter own_move ms) \<le> 6 \<and>
    (length (filter own_move ms) = 6 \<longrightarrow> stopped q) \<and> (stopped q \<or> (\<exists>m r. own_move m \<and> polled_step S cfg shutdown q m r))"
proof -
  have "moves_left (ac_phase (pl_loop p)) (pl_turn p) \<le> 6" "takes_left (ac_phase (pl_loop p)) (pl_turn p) \<le> 1"
    by (cases "ac_phase (pl_loop p)"; cases "pl_turn p"; simp)+
  with resolved_run [OF assms]
  have count: "length (filter takes ms) \<le> 1" "moves_left (ac_phase (pl_loop q)) (pl_turn q) + length (filter own_move ms) \<le> 6"
    and at: "shutdown (pl_world q) = Some ()" by linarith+
  then have "stopped q" if "length (filter own_move ms) = 6" using that moves_left_zero [of q] by linarith
  moreover have "length (filter own_move ms) \<le> 6" using count(2) by linarith
  ultimately show ?thesis using count(1) resolved_enabled [OF at, of S cfg] by blast
qed

lemma left_resolved:
  assumes "polled_run S cfg shutdown p ms q" and "ac_phase (pl_loop p) = Accepting"
  shows "ac_phase (pl_loop q) = Accepting \<or> shutdown (pl_world q) = Some ()"
  using assms
proof (induction rule: polled_run.induct)
  case (polled_snoc p ms q m r)
  note step = polled_snoc.hyps(2)
  from polled_snoc.IH [OF polled_snoc.prems] show ?case
  proof
    assume "ac_phase (pl_loop q) = Accepting"
    with step show ?thesis by cases (auto dest: taken_phase other_phase(3))
  qed (blast dest: resolved_stays [OF step])
qed simp

text \<open>A future that is resolved from the start keeps the listener from being polled at all.\<close>

lemma resolved_at_start:
  assumes "polled_run S cfg shutdown (polled_init S cfg) ms q" and "shutdown [] = Some ()"
  shows "\<not> list_ex takes ms"
  using resolved_run [OF assms(1)] assms(2) by (simp add: polled_init_def accept_init_def list_ex_iff filter_empty_conv)

end

interpretation signals: shutdown_future "shutdown_signal G"
  by unfold_locales (auto simp: shutdown_signal_iff)

subsection \<open>Properties\<close>

text \<open>
  C5: A signal stops the server.  Once SIGINT has been delivered, or on Unix SIGTERM with its handler registered, the
  accept loop takes at most one more connection from the listener, and it returns after at most six moves of its own, whatever
  the connection tasks and further signals do; until then it is never blocked.
\<close>

theorem signal_stops_server:
  assumes "polled_run S cfg (shutdown_signal G) p ms q"
    and "SIGINT \<in> set (pl_world p) \<or> sg_unix G \<and> sg_sigterm G = Inr () \<and> SIGTERM \<in> set (pl_world p)"
  shows "length (filter takes ms) \<le> 1 \<and> length (filter own_move ms) \<le> 6 \<and>
    (length (filter own_move ms) = 6 \<longrightarrow> stopped q) \<and>
    (stopped q \<or> (\<exists>m r. own_move m \<and> polled_step S cfg (shutdown_signal G) q m r))"
  using assms(2) by (intro signals.resolved_ends [OF assms(1)]) (auto simp: shutdown_signal_iff)

definition demo_signals :: signal_env where
  "demo_signals = \<lparr>sg_unix = True, sg_sigterm = Inr (), sg_ctrl_c = Inr ()\<rparr>"

lemma demo_signalled:
  "\<exists>q. polled_run counting_semaphore demo_config (shutdown_signal demo_signals)
     ((polled_init counting_semaphore demo_config :: (nat, nat, os_signal) polled_loop)\<lparr>pl_world := [SIGTERM]\<rparr>)
     [Event ShutdownSignal, Event Announce] q \<and> ac_phase (pl_loop q) = Signalled"
proof -
  let ?p = "(polled_init counting_semaphore demo_config :: (nat, nat, os_signal) polled_loop)\<lparr>pl_world := [SIGTERM]\<rparr>"
  let ?a = "(pl_loop ?p)\<lparr>ac_phase := Settling\<rparr>" and ?b = "(pl_loop ?p)\<lparr>ac_phase := Signalled, ac_shutdown := True\<rparr>"
  let ?step = "polled_step counting_semaphore demo_config (shutdown_signal demo_signals)"
  have "?step ?p (Event ShutdownSignal) (?p\<lparr>pl_loop := ?a\<rparr>)"
    by (intro polled_step.resolved accept_step.signal)
      (simp_all add: polled_init_def accept_init_def shutdown_signal_iff demo_signals_def)
  moreover have "?step (?p\<lparr>pl_loop := ?a\<rparr>) (Event Announce) (?p\<lparr>pl_loop := ?b\<rparr>)"
    using polled_step.other [of Announce counting_semaphore demo_config "?p\<lparr>pl_loop := ?a\<rparr>" ?b] accept_step.announce [of ?a]
    by simp
  ultimately show ?thesis
    using polled_snoc [OF polled_snoc [OF polled_nil]] by (intro exI conjI) (fastforce, simp)
qed

theorem signal_stops_server_witness:
  "\<exists>q. polled_run counting_semaphore demo_config (shutdown_signal demo_signals)
     ((polled_init counting_semaphore demo_config :: (nat, nat, os_signal) polled_loop)\<lparr>pl_world := [SIGTERM]\<rparr>)
     [Event ShutdownSignal, Event Announce] q \<and>
     (\<exists>m r. own_move m \<and> polled_step counting_semaphore demo_config (shutdown_signal demo_signals) q m r)"
proof -
  obtain q where q: "polled_run counting_semaphore demo_config (shutdown_signal demo_signals)
      ((polled_init counting_semaphore demo_config :: (nat, nat, os_signal) polled_loop)\<lparr>pl_world := [SIGTERM]\<rparr>)
      [Event ShutdownSignal, Event Announce] q" "ac_phase (pl_loop q) = Signalled"
    using demo_signalled by blast
  have "\<not> stopped q" using q(2) by (simp add: stopped_def)
  with signal_stops_server [OF q(1)] q(1) show ?thesis by (auto simp: demo_signals_def)
qed

text \<open>
  C16: What can stop the server.  The accept loop of \<open>run\<close> is left only after SIGINT, after SIGTERM on Unix with its handler
  registered, or because the SIGINT handler could not be registered; and in that last case it takes no connection at all.
\<close>

theorem shutdown_cause:
  assumes "polled_run S cfg (shutdown_signal G) (polled_init S cfg) ms q"
  shows "(ac_phase (pl_loop q) \<noteq> Accepting \<longrightarrow>
      SIGINT \<in> set (pl_world q) \<or> sg_unix G \<and> sg_sigterm G = Inr () \<and> SIGTERM \<in> set (pl_world q) \<or> (\<exists>e. sg_ctrl_c G = Inl e)) \<and>
    ((\<exists>e. sg_ctrl_c G = Inl e) \<longrightarrow> \<not> list_ex takes ms)"
proof -
  have "ac_phase (pl_loop (polled_init S cfg :: ('b, 'a, os_signal) polled_loop)) = Accepting" by (simp add: polled_init_def accept_init_def)
  from signals.left_resolved [OF assms this] signals.resolved_at_start [OF assms] show ?thesis
    by (auto simp: shutdown_signal_iff)
qed

theorem shutdown_cause_witness:
  "\<exists>q. polled_run counting_semaphore demo_config (shutdown_signal (demo_signals\<lparr>sg_ctrl_c := Inl NotFound\<rparr>))
     (polled_init counting_semaphore demo_config :: (nat, nat, os_signal) polled_loop) [Event ShutdownSignal] q \<and>
     pl_world q = [] \<and> \<not> list_ex takes [Event ShutdownSignal :: (nat, os_signal) loop_move]"
proof -
  let ?p = "polled_init counting_semaphore demo_config :: (nat, nat, os_signal) polled_loop"
  let ?q = "?p\<lparr>pl_loop := (pl_loop ?p)\<lparr>ac_phase := Settling\<rparr>\<rparr>"
  have "polled_step counting_semaphore demo_config (shutdown_signal (demo_signals\<lparr>sg_ctrl_c := Inl NotFound\<rparr>)) ?p (Event ShutdownSignal) ?q"
    by (intro polled_step.resolved accept_step.signal)
      (simp_all add: polled_init_def accept_init_def shutdown_signal_iff demo_signals_def)
  from polled_snoc [OF polled_nil this]
  have run: "polled_run counting_semaphore demo_config (shutdown_signal (demo_signals\<lparr>sg_ctrl_c := Inl NotFound\<rparr>)) ?p [Event ShutdownSignal] ?q"
    by simp
  from shutdown_cause [OF run] have "\<not> list_ex takes [Event ShutdownSignal :: (nat, os_signal) loop_move]" by simp
  with run show ?thesis by (intro exI [of _ ?q]) (simp add: polled_init_def)
qed

end
