(* ===== verification/Runs.thy ===== *)
theory Runs
  imports Connection
begin

text \<open>
  Runs of the server: the requests of all connections, one after the other, served to the end, timed out or
  dropped, on the state they share.  The handlers work on the database statement by statement; a run orders whole requests,
  so it describes requests whose statements do not overlap.

  The traceback: wherever a run ends, the accounts are those it began with; every session goes back to
  a login with the right password, and every change of the items to a request that was authorised.
\<close>

datatype 'h server_event =
  Served socket_addr arrival draws handling "'h request_parts" "string + string"
| Gone socket_addr arrival draws "cutoff option" "'h request_parts" "string + string"

fun run_event ::
    "'sem semaphore_lib \<Rightarrow> ('h, 'db, 'ph, 'ek, 'dk, 't, 'f) app_libs \<Rightarrow> server_config \<Rightarrow> ('ek, 'dk, 't, 'h) app_state \<Rightarrow>
     'h server_event \<Rightarrow> (ip_addr, 'sem, 'db) server_state \<Rightarrow> (ip_addr, 'sem, 'db) server_state" where
  "run_event S X cfg st (Served peer a d handling parts collected) ss =
     fst (serve_request S X cfg st peer a d handling (parts, collected) ss)"
| "run_event S X cfg st (Gone peer a d drop_at parts collected) ss =
     serve_dropped S X cfg st peer a d drop_at (parts, collected) ss"

definition run_events ::
    "'sem semaphore_lib \<Rightarrow> ('h, 'db, 'ph, 'ek, 'dk, 't, 'f) app_libs \<Rightarrow> server_config \<Rightarrow> ('ek, 'dk, 't, 'h) app_state \<Rightarrow>
     'h server_event list \<Rightarrow> (ip_addr, 'sem, 'db) server_state \<Rightarrow> (ip_addr, 'sem, 'db) server_state" where
  "run_events S X cfg st es ss = fold (run_event S X cfg st) es ss"

text \<open>The request of an event, as the client sent it, and what was drawn for it.\<close>

fun event_request :: "'h server_event \<Rightarrow> 'h http_request" where
  "event_request (Served peer a d handling parts collected) = from_parts parts (unwrap_or (result_ok collected) [])"
| "event_request (Gone peer a d drop_at parts collected) = from_parts parts (unwrap_or (result_ok collected) [])"

fun event_draws :: "'h server_event \<Rightarrow> draws" where
  "event_draws (Served peer a d handling parts collected) = d"
| "event_draws (Gone peer a d drop_at parts collected) = d"

fun event_uuid :: "'h server_event \<Rightarrow> string" where
  "event_uuid (Served peer a d handling parts collected) = ar_uuid a"
| "event_uuid (Gone peer a d drop_at parts collected) = ar_uuid a"

abbreviation tables_of :: "('h, 'db, 'ph, 'ek, 'dk, 't, 'f) app_libs \<Rightarrow> (ip_addr, 'sem, 'db) server_state \<Rightarrow> tables" where
  "tables_of X ss \<equiv> sql_tables (l_sql X) (sh_db (ss_shared ss))"

subsection \<open>One request\<close>

definition allowed_change ::
    "('h, 'db, 'ph, 'ek, 'dk, 't, 'f) app_libs \<Rightarrow> ('ek, 'dk) jwt_secret \<Rightarrow> draws \<Rightarrow> 'h http_request \<Rightarrow> tables \<Rightarrow> tables \<Rightarrow> bool" where
  "allowed_change X jwt d req t t' \<longleftrightarrow>
     tables_ok t' \<and> tab_users t' = tab_users t \<and>
     (items_of t' \<noteq> items_of t \<longrightarrow> bearer_valid X jwt (dr_now d) req \<or> session_valid X (dr_now d) req t) \<and>
     (\<forall>k x e. sessions_of t' k = Some (x, e) \<longrightarrow>
        (\<exists>e0. sessions_of t k = Some (x, e0)) \<or>
        k = dr_session_token d \<and> csrf_token x = dr_csrf_token d \<and> login_valid X req t (username x))"

lemma allowed_change_refl: "tables_ok t \<Longrightarrow> allowed_change X jwt d req t t"
  by (simp add: allowed_change_def)

lemma collect_body_Inr: "collect_body L n parts collected = Inr bytes \<Longrightarrow> unwrap_or (result_ok collected) [] = bytes"
  by (cases collected) (auto simp: collect_body_eq result_ok_def split: if_splits)

lemma dropped_allowed:
  assumes "database (l_sql X)" and "tables_ok (sql_tables (l_sql X) (sh_db s))"
  shows "allowed_change X (st_jwt st) d req (sql_tables (l_sql X) (sh_db s))
    (sql_tables (l_sql X) (sh_db (dropped_dispatch X cfg st d c req s)))"
  unfolding allowed_change_def
  using dropped_guarded [OF assms refl, where req = req and cfg = cfg and st = st and d = d and c = c] by blast

lemma dispatch_allowed:
  assumes "database (l_sql X)" and "tables_ok (sql_tables (l_sql X) (sh_db s))"
    and "dispatch L (build_router X cfg st d) req s = (s', resp)"
  shows "allowed_change X (st_jwt st) d req (sql_tables (l_sql X) (sh_db s)) (sql_tables (l_sql X) (sh_db s'))"
  unfolding allowed_change_def
  using application.dispatch_guarded [OF application.intro [OF assms(1)], unfolded guarded_def Let_def, rule_format,
      OF assms(3,2)] by blast

lemma inner_allowed:
  fixes parts and collected
  assumes "database (l_sql X)" and "tables_ok (sql_tables (l_sql X) (sh_db s))"
  defines "req \<equiv> from_parts parts (unwrap_or (result_ok collected) [])"
  shows "allowed_change X (st_jwt st) d req (sql_tables (l_sql X) (sh_db s))
      (sql_tables (l_sql X) (sh_db (fst (inner_call X cfg st d handling (parts, collected) s))))"
    and "allowed_change X (st_jwt st) d req (sql_tables (l_sql X) (sh_db s))
      (sql_tables (l_sql X) (sh_db (inner_dropped X cfg st d drop_at (parts, collected) s)))"
proof -
  let ?s1 = "s\<lparr>sh_metrics := inner_begin (sh_metrics s)\<rparr>"
  have ok: "tables_ok (sql_tables (l_sql X) (sh_db ?s1))" using assms(2) by simp
  obtain s2 resp where run: "dispatch (l_http X) (build_router X cfg st d) req ?s1 = (s2, resp)" by fastforce
  note run_done = dispatch_allowed [OF assms(1) ok run]
  note cut = dropped_allowed [OF assms(1) ok, where req = req and st = st and d = d and cfg = cfg]
  show "allowed_change X (st_jwt st) d req (sql_tables (l_sql X) (sh_db s))
      (sql_tables (l_sql X) (sh_db (fst (inner_call X cfg st d handling (parts, collected) s))))"
  proof (cases "collect_body (l_http X) (cfg_max_body_bytes cfg) parts collected")
    case (Inr bytes)
    note req = req_def [unfolded collect_body_Inr [OF Inr]]
    show ?thesis
      using run_done cut run by (cases handling) (simp_all add: inner_call_def Inr req [symmetric] Let_def)
  qed (simp add: inner_call_def allowed_change_refl assms(2))
  show "allowed_change X (st_jwt st) d req (sql_tables (l_sql X) (sh_db s))
      (sql_tables (l_sql X) (sh_db (inner_dropped X cfg st d drop_at (parts, collected) s)))"
  proof (cases "collect_body (l_http X) (cfg_max_body_bytes cfg) parts collected")
    case (Inr bytes)
    note req = req_def [unfolded collect_body_Inr [OF Inr]]
    show ?thesis
      using cut by (cases drop_at) (simp_all add: inner_dropped_def Inr req [symmetric] Let_def allowed_change_refl assms(2))
  qed (simp add: inner_dropped_def Let_def allowed_change_refl assms(2) split: option.split)
qed

text \<open>What the layers let through to the shared state, and what the request id changes of the request.\<close>

lemma tower_stack_shared:
  "ss_shared (fst (tower_stack S L peer a inner (parts, body) ss)) \<in>
     {ss_shared ss,
      fst (inner (parts\<lparr>parts_headers := set_request_id L (request_id L (ar_uuid a) parts) (parts_headers parts)\<rparr>, body)
        (ss_shared ss))}"
  by (auto simp: tower_stack_def logging_call_def rate_limiter_call_def concurrency_call_def Let_def
      split: prod.splits admission.splits if_splits)

context http_crate
begin

lemma header_set_request_id:
  assumes "visible_ascii uuid" and "lowercase k \<noteq> ''x-request-id''"
  shows "header L (from_parts (parts\<lparr>parts_headers := set_request_id L (request_id L uuid parts) (parts_headers parts)\<rparr>) b) k =
    header L (from_parts parts b) k"
  using set_request_id_get_all [OF request_id_visible [OF assms(1)], of parts "parts_headers parts" k] assms(2)
  by (simp add: header_def from_parts_def get_first)

end

lemma allowed_change_request_id:
  assumes "http_crate (l_http X)" and "visible_ascii uuid"
  shows "allowed_change X jwt d (from_parts (parts\<lparr>parts_headers := set_request_id (l_http X)
      (request_id (l_http X) uuid parts) (parts_headers parts)\<rparr>) b) t t' = allowed_change X jwt d (from_parts parts b) t t'"
proof -
  have "lowercase ''authorization'' \<noteq> ''x-request-id''" "lowercase ''cookie'' \<noteq> ''x-request-id''"
    by (simp_all add: lowercase_def)
  note h = this [THEN http_crate.header_set_request_id [OF assms]]
  show ?thesis
    by (simp add: allowed_change_def bearer_valid_def session_valid_def login_valid_def session_token_def csrf_field_def
        form_param_def h) (simp add: from_parts_def)
qed

lemma run_event_allowed:
  assumes "database (l_sql X)" and "http_crate (l_http X)" and "visible_ascii (event_uuid ev)" and "tables_ok (tables_of X ss)"
  shows "allowed_change X (st_jwt st) (event_draws ev) (event_request ev) (tables_of X ss)
    (tables_of X (run_event S X cfg st ev ss))"
proof (cases ev)
  case (Served peer a d handling parts collected)
  then have vis: "visible_ascii (ar_uuid a)" using assms(3) by simp
  have "allowed_change X (st_jwt st) d (from_parts parts (unwrap_or (result_ok collected) [])) (tables_of X ss)
      (sql_tables (l_sql X) (sh_db (fst (inner_call X cfg st d handling (parts\<lparr>parts_headers :=
         set_request_id (l_http X) (request_id (l_http X) (ar_uuid a) parts) (parts_headers parts)\<rparr>, collected)
         (ss_shared ss)))))"
    by (subst allowed_change_request_id [OF assms(2) vis, symmetric]) (rule inner_allowed(1) [OF assms(1,4)])
  with Served tower_stack_shared [of S "l_http X" peer a "inner_call X cfg st d handling" parts collected ss]
  show ?thesis by (auto simp: serve_request_def allowed_change_refl assms(4))
next
  case (Gone peer a d drop_at parts collected)
  then have vis: "visible_ascii (ar_uuid a)" using assms(3) by simp
  have "allowed_change X (st_jwt st) d (from_parts parts (unwrap_or (result_ok collected) [])) (tables_of X ss)
      (sql_tables (l_sql X) (sh_db (inner_dropped X cfg st d drop_at (parts\<lparr>parts_headers :=
         set_request_id (l_http X) (request_id (l_http X) (ar_uuid a) parts) (parts_headers parts)\<rparr>, collected)
         (ss_shared ss))))"
    by (subst allowed_change_request_id [OF assms(2) vis, symmetric]) (rule inner_allowed(2) [OF assms(1,4)])
  with Gone tower_stack_shared [of S "l_http X" peer a
      "\<lambda>req s. (inner_dropped X cfg st d drop_at req s, response_new (l_http X) [])" parts collected ss]
  show ?thesis by (auto simp: serve_dropped_def allowed_change_refl assms(4))
qed

subsection \<open>Traceback\<close>

text \<open>The event of a login that stored the session \<open>x\<close> under the token \<open>k\<close>.\<close>

definition logged_in ::
    "('h, 'db, 'ph, 'ek, 'dk, 't, 'f) app_libs \<Rightarrow> tables \<Rightarrow> string \<Rightarrow> session \<Rightarrow> 'h server_event \<Rightarrow> bool" where
  "logged_in X t k x ev \<longleftrightarrow>
     k = dr_session_token (event_draws ev) \<and> csrf_token x = dr_csrf_token (event_draws ev) \<and>
     login_valid X (event_request ev) t (username x)"

text \<open>A session that a run can have: one of its beginning, or one of a login among its events.\<close>

definition traced_session ::
    "('h, 'db, 'ph, 'ek, 'dk, 't, 'f) app_libs \<Rightarrow> tables \<Rightarrow> 'h server_event list \<Rightarrow> string \<Rightarrow> session \<Rightarrow> bool" where
  "traced_session X t es k x \<longleftrightarrow> (\<exists>e. sessions_of t k = Some (x, e)) \<or> list_ex (logged_in X t k x) es"

definition authorised ::
    "('h, 'db, 'ph, 'ek, 'dk, 't, 'f) app_libs \<Rightarrow> ('ek, 'dk) jwt_secret \<Rightarrow> tables \<Rightarrow> 'h server_event list \<Rightarrow> 'h server_event \<Rightarrow> bool" where
  "authorised X jwt t before ev \<longleftrightarrow>
     bearer_valid X jwt (dr_now (event_draws ev)) (event_request ev) \<or>
     (\<exists>k x. session_token (l_http X) (event_request ev) = Some k \<and> csrf_field (event_request ev) = csrf_token x \<and>
        traced_session X t before k x)"

lemma run_events_snoc [simp]:
  "run_events S X cfg st [] ss = ss"
  "run_events S X cfg st (es @ [ev]) ss = run_event S X cfg st ev (run_events S X cfg st es ss)"
  by (simp_all add: run_events_def)

lemma login_valid_users: "tab_users t' = tab_users t \<Longrightarrow> login_valid X req t' u = login_valid X req t u"
  by (simp add: login_valid_def users_of_def)

lemma run_traceback:
  assumes "database (l_sql X)" and "http_crate (l_http X)" and "list_all (\<lambda>ev. visible_ascii (event_uuid ev)) es"
    and "tables_ok (tables_of X ss)"
  shows "tables_ok (tables_of X (run_events S X cfg st es ss)) \<and>
    tab_users (tables_of X (run_events S X cfg st es ss)) = tab_users (tables_of X ss) \<and>
    (\<forall>k x e. sessions_of (tables_of X (run_events S X cfg st es ss)) k = Some (x, e) \<longrightarrow>
       traced_session X (tables_of X ss) es k x)"
  using assms(3)
proof (induction es rule: rev_induct)
  case Nil
  then show ?case using assms(4) by (auto simp: traced_session_def)
next
  case (snoc ev es)
  let ?t = "tables_of X (run_events S X cfg st es ss)"
  have ok: "tables_ok ?t" and users: "tab_users ?t = tab_users (tables_of X ss)"
    and old: "\<And>k x e. sessions_of ?t k = Some (x, e) \<Longrightarrow> traced_session X (tables_of X ss) es k x"
    using snoc by auto
  have vis: "visible_ascii (event_uuid ev)" using snoc.prems by simp
  have step: "allowed_change X (st_jwt st) (event_draws ev) (event_request ev) ?t
      (tables_of X (run_event S X cfg st ev (run_events S X cfg st es ss)))"
    by (rule run_event_allowed [OF assms(1,2) vis ok])
  show ?case
  proof (intro conjI allI impI)
    fix k x e
    assume "sessions_of (tables_of X (run_events S X cfg st (es @ [ev]) ss)) k = Some (x, e)"
    then consider e0 where "sessions_of ?t k = Some (x, e0)" | "logged_in X ?t k x ev"
      using step unfolding allowed_change_def logged_in_def by auto
    then show "traced_session X (tables_of X ss) (es @ [ev]) k x"
      using old by cases (auto simp: traced_session_def logged_in_def login_valid_users [OF users])
  qed (use step users in \<open>simp_all add: allowed_change_def\<close>)
qed

lemma run_items_traceback:
  assumes "database (l_sql X)" and "http_crate (l_http X)" and "list_all (\<lambda>ev. visible_ascii (event_uuid ev)) es"
    and "tables_ok (tables_of X ss)"
    and "items_of (tables_of X (run_events S X cfg st es ss)) \<noteq> items_of (tables_of X ss)"
  shows "\<exists>before ev after. es = before @ ev # after \<and> authorised X (st_jwt st) (tables_of X ss) before ev"
  using assms(3,5)
proof (induction es rule: rev_induct)
  case (snoc ev es)
  let ?t = "tables_of X (run_events S X cfg st es ss)"
  show ?case
  proof (cases "items_of ?t = items_of (tables_of X ss)")
    case False
    then obtain before e after where "es = before @ e # after" "authorised X (st_jwt st) (tables_of X ss) before e"
      using snoc by auto
    then show ?thesis by (intro exI [of _ before] exI [of _ e] exI [of _ "after @ [ev]"]) simp
  next
    case True
    have vis: "list_all (\<lambda>ev. visible_ascii (event_uuid ev)) es" "visible_ascii (event_uuid ev)" using snoc.prems by auto
    note before = run_traceback [OF assms(1,2) vis(1) assms(4), of S cfg st]
    from run_event_allowed [OF assms(1,2) vis(2), of "run_events S X cfg st es ss" st S cfg] before snoc.prems(2) True
    have "bearer_valid X (st_jwt st) (dr_now (event_draws ev)) (event_request ev) \<or>
        session_valid X (dr_now (event_draws ev)) (event_request ev) ?t"
      by (simp add: allowed_change_def)
    then have "authorised X (st_jwt st) (tables_of X ss) es ev"
      using before unfolding authorised_def session_valid_def by metis
    then show ?thesis by blast
  qed
qed simp

end
