(* ===== verification/Service.thy ===== *)
theory Service
  imports Routes
begin

text \<open>
  An abstract specification of the application: a store of three finite maps and, for every entry of the route table, what it
  answers and what it does to the store.  With a database that fails only the statements it must fail, and whose three tables
  exist, \<open>dispatch\<close> refines it: every response is the one of the specification, and so are the contents of the tables.

  The specification knows no SQL, no rows and no database errors.  Its only freedom is the time stamp an item gets.
\<close>

subsection \<open>A database that answers\<close>

definition schema_ok :: "tables \<Rightarrow> bool" where
  "schema_ok t \<longleftrightarrow> tab_items t \<noteq> None \<and> tab_users t \<noteq> None \<and> tab_sessions t \<noteq> None"

lemma sql_apply_schema: "sql_apply clock st t = Some (t', reply) \<Longrightarrow> schema_ok t \<Longrightarrow> schema_ok t'"
  by (cases st) (auto simp: schema_ok_def sql_apply.simps on_table_eq_Some split: if_splits)

text \<open>Whether a statement must fail does not depend on the time.\<close>

lemma sql_apply_clock: "sql_apply clock st t = None \<longleftrightarrow> sql_apply clock' st t = None"
  by (cases st) (auto simp: sql_apply.simps on_table_def split: option.splits if_splits)

text \<open>With the tables in place only an insertion can fail, on a key that is taken.\<close>

fun is_insert :: "sql_stmt \<Rightarrow> bool" where
  "is_insert (InsertItem i n d) = True"
| "is_insert (InsertUser u h) = True"
| "is_insert (InsertSession t u c e) = True"
| "is_insert _ = False"

lemma schema_runs: "schema_ok t \<Longrightarrow> \<not> is_insert st \<Longrightarrow> sql_apply clock st t \<noteq> None"
  by (cases st) (auto simp: schema_ok_def sql_apply.simps on_table_def)

locale reliable_database = database +
  assumes run_answers: "sql_apply clock st (sql_tables E db) \<noteq> None \<Longrightarrow> \<exists>db' reply. sql_run E st db = (db', Inr reply)"
begin

lemma run_refines:
  obtains (fails) db' e where "sql_run E st db = (db', Inl e)" "sql_tables E db' = sql_tables E db"
    "\<And>clock. sql_apply clock st (sql_tables E db) = None"
  | (runs) db' clock reply where "sql_run E st db = (db', Inr reply)"
    "sql_apply clock st (sql_tables E db) = Some (sql_tables E db', reply)"
proof (cases "sql_run E st db")
  case (Pair db' res)
  show thesis
  proof (cases res)
    case (Inl e)
    with Pair have "sql_apply clock st (sql_tables E db) = None" for clock
      using run_answers [of clock st db] by (metis Pair_inject sum.distinct(1))
    with Pair Inl show thesis
      using fails run_error [of st db db' e] by (metis option.distinct(1))
  next
    case (Inr reply)
    with Pair runs run_ok [of st db db' reply] show thesis by blast
  qed
qed

end

interpretation mem_answers: reliable_database mem_engine
proof
  fix clock st and db :: "tables \<times> nat"
  assume "sql_apply clock st (sql_tables mem_engine db) \<noteq> None"
  then show "\<exists>db' reply. sql_run mem_engine st db = (db', Inr reply)"
    using sql_apply_clock [of clock st "fst db" "snd db"] by (auto simp: mem_run split: option.splits)
qed

subsection \<open>The store\<close>

record store =
  st_items :: "string \<rightharpoonup> string \<times> string \<times> nat"
  st_users :: "string \<rightharpoonup> string"
  st_sessions :: "string \<rightharpoonup> session \<times> int"

definition stock :: "item_row list \<Rightarrow> (string \<rightharpoonup> string \<times> string \<times> nat)" where
  "stock rows = map_of (map (\<lambda>r. (row_id r, (row_name r, row_description r, row_created_at r))) rows)"

definition store_of :: "tables \<Rightarrow> store" where
  "store_of t = \<lparr>st_items = stock (unwrap_or (tab_items t) []), st_users = users_of t, st_sessions = sessions_of t\<rparr>"

text \<open>The items in the order of their creation, and of their ids among those of the same time.\<close>

definition catalogue :: "(string \<rightharpoonup> string \<times> string \<times> nat) \<Rightarrow> item list" where
  "catalogue m =
     map (\<lambda>(c, i). case m i of Some (n, ds, _) \<Rightarrow> \<lparr>item_id = i, item_name = n, item_description = ds\<rparr>)
       (sorted_list_of_set {(c, i). \<exists>n ds. m i = Some (n, ds, c)})"

lemma stock_row:
  assumes "distinct (map row_id rows)"
  shows "stock rows i = Some (n, ds, c) \<longleftrightarrow>
    (\<exists>r \<in> set rows. row_id r = i \<and> row_name r = n \<and> row_description r = ds \<and> row_created_at r = c)"
  using assms unfolding stock_def by (subst map_of_eq_Some_iff) (auto simp: comp_def)

lemma sorted_rows_catalogue:
  assumes "distinct (map row_id rows)"
  shows "map item_of_row (sort_key (\<lambda>r. (row_created_at r, row_id r)) rows) = catalogue (stock rows)"
proof -
  let ?k = "\<lambda>r. (row_created_at r, row_id r)"
  have "distinct (map ?k rows)" using assms by (auto simp: distinct_map inj_on_def)
  then have "map ?k (sort_key ?k rows) = sorted_list_of_set (?k ` set rows)"
    by (intro sorted_distinct_set_unique) (simp_all add: distinct_map)
  moreover have "?k ` set rows = {(c, i). \<exists>n ds. stock rows i = Some (n, ds, c)}"
    using stock_row [OF assms] by (fastforce simp: image_iff)
  ultimately have keys: "sorted_list_of_set {(c, i). \<exists>n ds. stock rows i = Some (n, ds, c)} = map ?k (sort_key ?k rows)"
    by simp
  have "(case stock rows (row_id r) of
      Some (n, ds, _) \<Rightarrow> \<lparr>item_id = row_id r, item_name = n, item_description = ds\<rparr>) = item_of_row r"
    if "r \<in> set rows" for r
    using stock_row [OF assms, of "row_id r" "row_name r" "row_description r" "row_created_at r"] that
    by (auto simp: item_of_row_def)
  then show ?thesis unfolding catalogue_def keys by simp
qed

text \<open>The operations of the specification.\<close>

definition look_up :: "nat \<Rightarrow> string option \<Rightarrow> store \<Rightarrow> store \<times> session option" where
  "look_up now token \<sigma> =
     (case token of
        None \<Rightarrow> (\<sigma>, None)
      | Some tok \<Rightarrow>
          (case st_sessions \<sigma> tok of
             Some (x, e) \<Rightarrow>
               if int now < e
               then (\<sigma>\<lparr>st_sessions := (st_sessions \<sigma>)(tok \<mapsto> (x, int now + SESSION_TTL_SECS))\<rparr>, Some x)
               else (\<sigma>\<lparr>st_sessions := (st_sessions \<sigma>)(tok := None)\<rparr>, None)
           | None \<Rightarrow> (\<sigma>, None)))"

definition opens :: "'ph argon2_lib \<Rightarrow> store \<Rightarrow> string \<Rightarrow> string \<Rightarrow> bool" where
  "opens A \<sigma> user pass =
     (case st_users \<sigma> user of
        None \<Rightarrow> False
      | Some h \<Rightarrow> (case argon2_parse_hash A h of Inl _ \<Rightarrow> False | Inr ph \<Rightarrow> argon2_verify_password A pass ph))"

definition item_at :: "store \<Rightarrow> string \<Rightarrow> item option" where
  "item_at \<sigma> i = map_option (\<lambda>(n, ds, _). \<lparr>item_id = i, item_name = n, item_description = ds\<rparr>) (st_items \<sigma> i)"

definition add_item :: "nat \<Rightarrow> string \<Rightarrow> string \<Rightarrow> string \<Rightarrow> store \<Rightarrow> store" where
  "add_item clock i n ds \<sigma> = \<sigma>\<lparr>st_items := (st_items \<sigma>)(i \<mapsto> (n, ds, clock))\<rparr>"

definition drop_item :: "string \<Rightarrow> store \<Rightarrow> store" where
  "drop_item i \<sigma> = \<sigma>\<lparr>st_items := (st_items \<sigma>)(i := None)\<rparr>"

definition add_session :: "string \<Rightarrow> string \<Rightarrow> string \<Rightarrow> nat \<Rightarrow> store \<Rightarrow> store" where
  "add_session tok user csrf now \<sigma> =
     \<sigma>\<lparr>st_sessions :=
       (st_sessions \<sigma>)(tok \<mapsto> (\<lparr>username = user, csrf_token = csrf\<rparr>, int now + SESSION_TTL_SECS))\<rparr>"

definition drop_session :: "string \<Rightarrow> store \<Rightarrow> store" where
  "drop_session tok \<sigma> = \<sigma>\<lparr>st_sessions := (st_sessions \<sigma>)(tok := None)\<rparr>"

subsection \<open>The database operations refine them\<close>

definition well :: "'db sql_engine \<Rightarrow> 'db \<Rightarrow> bool" where
  "well E db \<longleftrightarrow> tables_ok (sql_tables E db) \<and> schema_ok (sql_tables E db)"

abbreviation abs_db :: "'db sql_engine \<Rightarrow> 'db \<Rightarrow> store" where
  "abs_db E db \<equiv> store_of (sql_tables E db)"

lemma store_of_simps:
  "st_items (store_of t) = stock (unwrap_or (tab_items t) [])"
  "st_users (store_of t) = users_of t"
  "st_sessions (store_of t) = sessions_of t"
  by (simp_all add: store_of_def)

lemma stock_items_of: "items_of t i = map_option (\<lambda>(n, ds, _). (n, ds)) (stock (unwrap_or (tab_items t) []) i)"
  by (simp add: items_of_def stock_def map_of_map_snd [of row_id "\<lambda>r. (row_name r, row_description r)"]
      map_of_map_snd [of row_id "\<lambda>r. (row_name r, row_description r, row_created_at r)"] option.map_comp comp_def)

lemma stock_insert:
  assumes "sql_apply clock (InsertItem i n ds) t = Some (t', reply)"
  shows "store_of t' = add_item clock i n ds (store_of t)"
  using assms
  by (auto simp: store_of_def add_item_def stock_def sql_apply.simps on_table_eq_Some users_of_def sessions_of_def
      map_of_snoc simp del: map_append split: if_splits)

lemma stock_delete:
  assumes "sql_apply clock (DeleteItem i) t = Some (t', reply)"
  shows "store_of t' = drop_item i (store_of t)"
  using assms
  by (auto simp: store_of_def drop_item_def stock_def sql_apply.simps on_table_eq_Some users_of_def sessions_of_def
      map_of_filter_key)

context reliable_database
begin

lemma run_well: "sql_run E st db = (db', res) \<Longrightarrow> well E db \<Longrightarrow> well E db'"
  by (erule run_cases) (auto simp: well_def dest: sql_apply_schema sql_apply_tables_ok)

lemma runs_in_schema:
  assumes "well E db" and "\<not> is_insert st"
  shows "\<exists>db' clock reply. sql_run E st db = (db', Inr reply) \<and> well E db' \<and>
    sql_apply clock st (sql_tables E db) = Some (sql_tables E db', reply)"
proof (cases rule: run_refines [of st db])
  case (fails db' e)
  with assms show ?thesis using schema_runs [of "sql_tables E db" st] by (simp add: well_def)
next
  case (runs db' clock reply)
  with assms show ?thesis using run_well [OF runs(1)] by blast
qed

lemma list_items_refines:
  assumes "well E db"
  shows "\<exists>db'. list_items E db = (db', Inr (catalogue (st_items (abs_db E db)))) \<and> sql_tables E db' = sql_tables E db"
proof -
  obtain rows where rows: "tab_items (sql_tables E db) = Some rows" "distinct (map row_id rows)"
    using assms by (auto simp: well_def schema_ok_def tables_ok_def)
  obtain db' clock reply where "sql_run E SelectItems db = (db', Inr reply)"
      "sql_apply clock SelectItems (sql_tables E db) = Some (sql_tables E db', reply)"
    using runs_in_schema [OF assms, of SelectItems] by auto
  with rows show ?thesis
    by (auto simp: list_items_def fetch_all_def sql_apply.simps on_table_def from_item_rows sorted_rows_catalogue
        store_of_simps)
qed

lemma fetch_optional_refines:
  assumes "well E db" and "\<not> is_insert st"
    and "\<And>clock t' reply. sql_apply clock st (sql_tables E db) = Some (t', reply) \<Longrightarrow> t' = sql_tables E db \<and>
      (case reply_rows reply of [] \<Rightarrow> x = None | r # rs \<Rightarrow> (\<exists>y. f r = Inr y \<and> x = Some y))"
  shows "\<exists>db'. fetch_optional E f st db = (db', Inr x) \<and> sql_tables E db' = sql_tables E db"
proof -
  obtain db' clock reply where "sql_run E st db = (db', Inr reply)"
      "sql_apply clock st (sql_tables E db) = Some (sql_tables E db', reply)"
    using runs_in_schema [OF assms(1,2)] by blast
  with assms(3) [OF this(2)] show ?thesis
    by (auto simp: fetch_optional_def split: list.splits)
qed

lemma get_item_refines:
  assumes "well E db"
  shows "\<exists>db'. get_item E i db = (db', Inr (item_at (abs_db E db) i)) \<and> sql_tables E db' = sql_tables E db"
  unfolding get_item_def
proof (rule fetch_optional_refines [OF assms])
  show "t' = sql_tables E db \<and> (case reply_rows reply of
      [] \<Rightarrow> item_at (abs_db E db) i = None
    | r # rs \<Rightarrow> \<exists>y. item_from_row r = Inr y \<and> item_at (abs_db E db) i = Some y)"
    if "sql_apply clock (SelectItem i) (sql_tables E db) = Some (t', reply)" for clock t' reply
    using items_of_select [OF that] assms stock_items_of [of "sql_tables E db" i]
    by (auto simp: well_def item_at_def store_of_simps split: option.splits)
qed simp

lemma create_item_refines:
  assumes "well E db"
  shows "if st_items (abs_db E db) i = None
    then \<exists>db' clock. create_item E i n ds db = (db', Inr \<lparr>item_id = i, item_name = n, item_description = ds\<rparr>) \<and>
      well E db' \<and> abs_db E db' = add_item clock i n ds (abs_db E db)
    else \<exists>db' e. create_item E i n ds db = (db', Inl e) \<and> well E db' \<and> sql_tables E db' = sql_tables E db"
proof (cases rule: run_refines [of "InsertItem i n ds" db])
  case (fails db' e)
  moreover from fails(3) [of 0] have "st_items (abs_db E db) i \<noteq> None"
    using assms by (auto simp: well_def schema_ok_def store_of_simps stock_def sql_apply.simps on_table_def map_of_key_None
        split: if_splits)
  ultimately show ?thesis
    using run_well [OF fails(1) assms] by (simp add: create_item_def execute_def)
next
  case (runs db' clock reply)
  then show ?thesis
    using items_of_insert [OF runs(2)] stock_items_of [of "sql_tables E db" i] run_well [OF runs(1) assms]
    by (auto simp: create_item_def execute_def store_of_simps dest: stock_insert)
qed

lemma delete_item_refines:
  assumes "well E db"
  shows "\<exists>db'. delete_item E i db = (db', Inr (st_items (abs_db E db) i \<noteq> None)) \<and> well E db' \<and>
    abs_db E db' = drop_item i (abs_db E db)"
proof -
  obtain db' clock reply where run: "sql_run E (DeleteItem i) db = (db', Inr reply)" "well E db'"
      "sql_apply clock (DeleteItem i) (sql_tables E db) = Some (sql_tables E db', reply)"
    using runs_in_schema [OF assms, of "DeleteItem i"] by auto
  then show ?thesis
    using items_of_delete [OF run(3)] stock_items_of [of "sql_tables E db" i]
    by (auto simp: delete_item_def execute_def store_of_simps dest: stock_delete)
qed

lemma verify_user_refines:
  assumes "well E db"
  shows "\<exists>db'. verify_user E A u p db = (db', Inr (opens A (abs_db E db) u p)) \<and> sql_tables E db' = sql_tables E db"
proof -
  have "\<exists>db'. fetch_optional E text_from_row (SelectPasswordHash u) db = (db', Inr (users_of (sql_tables E db) u)) \<and>
      sql_tables E db' = sql_tables E db"
  proof (rule fetch_optional_refines [OF assms])
    show "t' = sql_tables E db \<and> (case reply_rows reply of
        [] \<Rightarrow> users_of (sql_tables E db) u = None
      | r # rs \<Rightarrow> \<exists>y. text_from_row r = Inr y \<and> users_of (sql_tables E db) u = Some y)"
      if "sql_apply clock (SelectPasswordHash u) (sql_tables E db) = Some (t', reply)" for clock t' reply
      using users_of_select [OF that] assms by (auto simp: well_def split: option.splits)
  qed simp
  then show ?thesis
    by (auto simp: verify_user_def opens_def store_of_simps split: option.splits sum.splits)
qed

lemma session_create_refines:
  assumes "well E db"
  shows "if st_sessions (abs_db E db) tok = None
    then \<exists>db'. session_create E tok csrf (int now) u db = (db', Inr tok) \<and> well E db' \<and>
      abs_db E db' = add_session tok u csrf now (abs_db E db)
    else \<exists>db' e. session_create E tok csrf (int now) u db = (db', Inl e) \<and> well E db' \<and>
      sql_tables E db' = sql_tables E db"
proof (cases rule: run_refines [of "InsertSession tok u csrf (int now + SESSION_TTL_SECS)" db])
  case (fails db' e)
  moreover from fails(3) [of 0] have "st_sessions (abs_db E db) tok \<noteq> None"
    using assms by (auto simp: well_def schema_ok_def store_of_simps sessions_of_def sql_apply.simps on_table_def
        map_of_key_None split: if_splits)
  ultimately show ?thesis
    using run_well [OF fails(1) assms] by (simp add: session_create_def execute_def)
next
  case (runs db' clock reply)
  have "tab_items (sql_tables E db') = tab_items (sql_tables E db) \<and> tab_users (sql_tables E db') = tab_users (sql_tables E db)"
    using session_stmt_frame [OF runs(2)] by blast
  with runs show ?thesis
    using sessions_of_insert [OF runs(2)] run_well [OF runs(1) assms]
    by (auto simp: session_create_def execute_def store_of_def add_session_def users_of_def)
qed

lemma execute_progress:
  assumes "well E db" and "\<not> is_insert st"
  shows "\<exists>db' n. execute E st db = (db', Inr n) \<and> well E db'"
  using runs_in_schema [OF assms] by (auto simp: execute_def)

lemma session_get_progress:
  assumes "well E db"
  shows "\<exists>db' found. session_get E now tok db = (db', Inr found) \<and> well E db'"
proof -
  obtain db1 clock reply where run: "sql_run E (SelectSession tok now) db = (db1, Inr reply)" "well E db1"
      "sql_apply clock (SelectSession tok now) (sql_tables E db) = Some (sql_tables E db1, reply)"
    using runs_in_schema [OF assms, of "SelectSession tok now"] by auto
  then obtain found where found: "fetch_optional E session_from_row (SelectSession tok now) db = (db1, Inr found)"
    using sessions_of_select [OF run(3)] assms
    by (auto simp: fetch_optional_def well_def split: option.splits if_splits)
  have "\<exists>db' n. execute E (DeleteSession tok) db1 = (db', Inr n) \<and> well E db'"
    and "\<exists>db' n. execute E (UpdateSession (now + SESSION_TTL_SECS) tok) db1 = (db', Inr n) \<and> well E db'"
    using execute_progress [OF run(2)] by simp_all
  with found show ?thesis by (cases found) (auto simp: session_get_def)
qed

lemma current_session_refines:
  assumes "well E db"
  shows "\<exists>db'. current_session E now token db = (db', snd (look_up now token (abs_db E db))) \<and> well E db' \<and>
    abs_db E db' = fst (look_up now token (abs_db E db))"
proof (cases token)
  case (Some tok)
  obtain db' found where get: "session_get E (int now) tok db = (db', Inr found)" "well E db'"
    using session_get_progress [OF assms] by blast
  have ok: "tables_ok (sql_tables E db)" using assms by (simp add: well_def)
  note frame = session_get_frame [OF get(1)] and at = session_get_Inr [OF get(1) ok]
  have "sessions_of (sql_tables E db') = (sessions_of (sql_tables E db))
      (tok := map_option (\<lambda>s. (s, int now + SESSION_TTL_SECS)) found)"
    using frame at(2) by (auto simp: session_frame_def)
  then show ?thesis
    using get frame at(1) Some
    by (auto simp: current_session_def look_up_def result_ok_def store_of_def session_frame_def users_of_def
        split: option.splits if_splits)
qed (use assms in \<open>simp add: current_session_def look_up_def\<close>)

lemma session_remove_refines:
  assumes "well E db"
  shows "\<exists>db'. session_remove E tok db = (db', Inr ()) \<and> well E db' \<and> abs_db E db' = drop_session tok (abs_db E db)"
proof -
  obtain db' clock reply where run: "sql_run E (DeleteSession tok) db = (db', Inr reply)" "well E db'"
      "sql_apply clock (DeleteSession tok) (sql_tables E db) = Some (sql_tables E db', reply)"
    using runs_in_schema [OF assms, of "DeleteSession tok"] by auto
  have "tab_items (sql_tables E db') = tab_items (sql_tables E db) \<and> tab_users (sql_tables E db') = tab_users (sql_tables E db)"
    using session_stmt_frame [OF run(3)] by blast
  with run show ?thesis
    using sessions_of_delete [OF run(3)]
    by (auto simp: session_remove_def execute_def store_of_def drop_session_def users_of_def)
qed

end

subsection \<open>The service\<close>

abbreviation page ::
    "('h, 'db, 'ph, 'ek, 'dk, 't, 'f) app_libs \<Rightarrow> ('ek, 'dk, 't, 'h) app_state \<Rightarrow> string \<Rightarrow> context_map \<Rightarrow> 'h http_response" where
  "page X st name ctx \<equiv> template_render (l_http X) (l_tera X) (the (st_template_engine st)) name ctx"

definition metrics_context :: "metrics \<Rightarrow> context_map \<Rightarrow> context_map" where
  "metrics_context m ctx = ctx
     (''requests_total'' \<mapsto> CtxCount (requests_total m), ''requests_active'' \<mapsto> CtxCount (requests_active m),
      ''responses_2xx'' \<mapsto> CtxCount (responses_2xx m), ''responses_4xx'' \<mapsto> CtxCount (responses_4xx m),
      ''responses_5xx'' \<mapsto> CtxCount (responses_5xx m), ''rate_limited'' \<mapsto> CtxCount (rate_limited m),
      ''concurrency_limited'' \<mapsto> CtxCount (concurrency_limited m), ''timed_out'' \<mapsto> CtxCount (timed_out m),
      ''connections_accepted'' \<mapsto> CtxCount (connections_accepted m),
      ''connections_rejected_ip'' \<mapsto> CtxCount (connections_rejected_ip m))"

definition flash_context :: "'h http_request \<Rightarrow> context_map \<Rightarrow> context_map" where
  "flash_context req ctx = (case query_param req ''flash'' of Some msg \<Rightarrow> ctx(''flash'' \<mapsto> CtxText msg) | None \<Rightarrow> ctx)"

text \<open>What a form of the pages may do: nothing without a live session or with a wrong CSRF token.\<close>

definition with_session ::
    "'h http_lib \<Rightarrow> draws \<Rightarrow> 'h http_request \<Rightarrow> 'h http_response \<Rightarrow> (store \<Rightarrow> store \<times> 'h http_response) \<Rightarrow> store \<Rightarrow>
     store \<times> 'h http_response" where
  "with_session L d req anonymous act \<sigma> =
     (let (\<sigma>', session) = look_up (dr_now d) (session_token L req) \<sigma> in
      case session of
        None \<Rightarrow> (\<sigma>', anonymous)
      | Some x \<Rightarrow> if csrf_token x = csrf_field req then act \<sigma>' else (\<sigma>', csrf_failed L))"

definition with_bearer ::
    "('h, 'db, 'ph, 'ek, 'dk, 't, 'f) app_libs \<Rightarrow> ('ek, 'dk, 't, 'h) app_state \<Rightarrow> draws \<Rightarrow> 'h http_request \<Rightarrow>
     (store \<Rightarrow> store \<times> 'h http_response) \<Rightarrow> store \<Rightarrow> store \<times> 'h http_response" where
  "with_bearer X st d req act \<sigma> =
     (case require_bearer X (st_jwt st) (dr_now d) req of Inl denied \<Rightarrow> (\<sigma>, denied) | Inr _ \<Rightarrow> act \<sigma>)"

fun serve ::
    "('h, 'db, 'ph, 'ek, 'dk, 't, 'f) app_libs \<Rightarrow> server_config \<Rightarrow> ('ek, 'dk, 't, 'h) app_state \<Rightarrow> draws \<Rightarrow> nat \<Rightarrow> metrics \<Rightarrow>
     action \<Rightarrow> 'h http_request \<Rightarrow> store \<Rightarrow> store \<times> 'h http_response" where
  "serve X cfg st d clock m Root req \<sigma> = (\<sigma>, redirect_to (l_http X) ''/ui/index'')"
| "serve X cfg st d clock m Health req \<sigma> = (\<sigma>, rb_text (l_http X) (''ok'' @ newline) ok)"
| "serve X cfg st d clock m (Echo msg) req \<sigma> = (\<sigma>, rb_text (l_http X) (msg @ newline) ok)"
| "serve X cfg st d clock m (Fib n) req \<sigma> =
     (\<sigma>, case run_blocking (l_spawn_blocking X) (\<lambda>_. fib (of_nat (min (unwrap_or (parse_unsigned 64 n) 10) 50))) of
           Inr result \<Rightarrow> rb_text (l_http X) (show_nat (unat result) @ newline) ok
         | Inl _ \<Rightarrow> rb_empty (l_http X) internal_error)"
| "serve X cfg st d clock m (Static p) req \<sigma> =
     (\<sigma>, serve_file (l_http X) (l_fs X) (cfg_static_dir cfg) (join ''/'' p))"
| "serve X cfg st d clock m Token req \<sigma> =
     (\<sigma>, case l_login_from_slice X (req_body req) of
           None \<Rightarrow> respond_json X (json_error ''invalid JSON body'') (rb_new 400)
         | Some (user, pass) \<Rightarrow>
             if \<not> opens (l_argon2 X) \<sigma> user pass then respond_json X (json_error ''invalid credentials'') (rb_new 401)
             else (case create_token (l_jwt X) (dr_now d) (st_jwt st) user of
                     Inr token \<Rightarrow> respond_json X (JObject [(''token'', JString token)]) ok
                   | Inl _ \<Rightarrow> rb_empty (l_http X) internal_error))"
| "serve X cfg st d clock m ListItems req \<sigma> =
     (\<sigma>, respond_json X (JArray (map json_item (catalogue (st_items \<sigma>)))) ok)"
| "serve X cfg st d clock m (GetItem i) req \<sigma> =
     (\<sigma>, case item_at \<sigma> i of
           Some it \<Rightarrow> respond_json X (json_item it) ok
         | None \<Rightarrow> respond_json X (json_error ''item not found'') (rb_new 404))"
| "serve X cfg st d clock m CreateItem req \<sigma> = with_bearer X st d req (\<lambda>\<sigma>.
     case l_item_from_slice X (req_body req) of
       None \<Rightarrow> (\<sigma>, respond_json X (json_error ''invalid JSON body'') (rb_new 400))
     | Some p \<Rightarrow>
         if st_items \<sigma> (dr_item_id d) \<noteq> None then (\<sigma>, rb_empty (l_http X) internal_error)
         else (add_item clock (dr_item_id d) (ci_name p) (ci_description p) \<sigma>,
               respond_json X
                 (json_item \<lparr>item_id = dr_item_id d, item_name = ci_name p, item_description = ci_description p\<rparr>)
                 (rb_new 201))) \<sigma>"
| "serve X cfg st d clock m (RemoveItem i) req \<sigma> = with_bearer X st d req (\<lambda>\<sigma>.
     if st_items \<sigma> i = None then (\<sigma>, respond_json X (json_error ''item not found'') (rb_new 404))
     else (drop_item i \<sigma>, respond_json X (JObject [(''deleted'', JBool True)]) ok)) \<sigma>"
| "serve X cfg st d clock m UiRoot req \<sigma> = (\<sigma>, redirect_to (l_http X) ''/ui/index'')"
| "serve X cfg st d clock m UiIndex req \<sigma> =
     (let (\<sigma>', session) = look_up (dr_now d) (session_token (l_http X) req) \<sigma> in
      (\<sigma>', page X st ''index.html'' (session_context session)))"
| "serve X cfg st d clock m UiLoginPage req \<sigma> = (\<sigma>, page X st ''login.html'' Map.empty)"
| "serve X cfg st d clock m UiLogin req \<sigma> =
     (let (user, pass) = login_form (l_percent_decode_lossy X) (req_body req);
          secure = cfg_tls_cert_path cfg \<noteq> None \<and> cfg_tls_key_path cfg \<noteq> None in
      if \<not> opens (l_argon2 X) \<sigma> user pass then
        (\<sigma>, page X st ''login.html''
           [''flash'' \<mapsto> CtxText ''Invalid username or password.'', ''flash_type'' \<mapsto> CtxText ''error''])
      else if st_sessions \<sigma> (dr_session_token d) \<noteq> None then (\<sigma>, rb_empty (l_http X) internal_error)
      else (add_session (dr_session_token d) user (dr_csrf_token d) (dr_now d) \<sigma>,
            rb_empty (l_http X)
              (rb_header ''set-cookie'' (session_cookie secure (dr_session_token d))
              (rb_header ''location'' ''/ui/items'' (rb_new 302)))))"
| "serve X cfg st d clock m UiLogout req \<sigma> =
     with_session (l_http X) d req (csrf_failed (l_http X)) (\<lambda>\<sigma>.
       (drop_session (the (session_token (l_http X) req)) \<sigma>,
        rb_empty (l_http X)
          (rb_header ''set-cookie'' ''session=; Max-Age=0; Path=/''
          (rb_header ''location'' ''/ui/login'' (rb_new 302))))) \<sigma>"
| "serve X cfg st d clock m UiItems req \<sigma> =
     (let (\<sigma>', session) = look_up (dr_now d) (session_token (l_http X) req) \<sigma> in
      (\<sigma>', page X st ''items.html''
         (flash_context req ((session_context session)(''items'' \<mapsto> CtxItems (catalogue (st_items \<sigma>)))))))"
| "serve X cfg st d clock m UiCreate req \<sigma> =
     with_session (l_http X) d req (redirect_to (l_http X) ''/ui/login'') (\<lambda>\<sigma>.
       let (name, description) = item_form (l_percent_decode_lossy X) (req_body req) in
       if st_items \<sigma> (dr_item_id d) \<noteq> None then
         (\<sigma>, page X st ''items.html''
            [''items'' \<mapsto> CtxItems (catalogue (st_items \<sigma>)),
             ''flash'' \<mapsto> CtxText ''Failed to create item.'', ''flash_type'' \<mapsto> CtxText ''error''])
       else (add_item clock (dr_item_id d) name description \<sigma>,
             redirect_to (l_http X) ''/ui/items?flash=Item+created'')) \<sigma>"
| "serve X cfg st d clock m (UiDelete i) req \<sigma> =
     with_session (l_http X) d req (redirect_to (l_http X) ''/ui/login'') (\<lambda>\<sigma>.
       (drop_item i \<sigma>, redirect_to (l_http X) ''/ui/items?flash=Item+deleted'')) \<sigma>"
| "serve X cfg st d clock m UiMetrics req \<sigma> =
     (let (\<sigma>', session) = look_up (dr_now d) (session_token (l_http X) req) \<sigma> in
      (\<sigma>', page X st ''metrics.html'' (metrics_context m (session_context session))))"
| "serve X cfg st d clock m MetricsText req \<sigma> =
     (\<sigma>, rb_text (l_http X) (render m)
        (rb_header ''content-type'' ''text/plain; version=0.0.4; charset=utf-8'' ok))"
| "serve X cfg st d clock m Forward req \<sigma> =
     (\<sigma>, proxy_request (l_http X) (the (st_proxy_client st)) req (the (cfg_proxy_upstream cfg)) (cfg_proxy_strip_prefix cfg))"
| "serve X cfg st d clock m MethodNotAllowed req \<sigma> = (\<sigma>, rb_empty (l_http X) method_not_allowed)"
| "serve X cfg st d clock m NotFoundHere req \<sigma> = (\<sigma>, rb_text (l_http X) (''404 Not Found'' @ newline) not_found)"

subsection \<open>The application refines the service\<close>

definition refines_service ::
    "('h, 'db, 'ph, 'ek, 'dk, 't, 'f) app_libs \<Rightarrow> 'db app_shared \<times> 'h http_response \<Rightarrow> store \<times> 'h http_response \<Rightarrow> bool" where
  "refines_service X out spec \<longleftrightarrow>
     well (l_sql X) (sh_db (fst out)) \<and> abs_db (l_sql X) (sh_db (fst out)) = fst spec \<and> snd out = snd spec"

lemma proxy_request_params: "proxy_request L client (with_params ps req) up prefix = proxy_request L client req up prefix"
  by (simp add: proxy_request_def proxy_outgoing_def proxy_target_def path_def query_def with_params_def
      cong: option.case_cong)

lemma refines_stateless:
  assumes "well (l_sql X) (sh_db s)"
    and "act \<in> {Root, Health, UiRoot, UiLoginPage, MetricsText, Forward, MethodNotAllowed, NotFoundHere} \<or>
      (\<exists>x. act = Echo x \<or> act = Fib x) \<or> (\<exists>p. act = Static p)"
  shows "refines_service X (perform X cfg st d act req s)
    (serve X cfg st d clock (sh_metrics s) act req (abs_db (l_sql X) (sh_db s)))"
  using assms
  by (auto simp: refines_service_def h_root_def h_health_def h_ui_root_def h_ui_login_page_def h_metrics_def h_proxy_def
      h_echo_def h_fib_def h_static_def redirect_to_def proxy_request_params split: sum.splits)

text \<open>A route with a session, up to the point where the session is known.\<close>

lemma session_first:
  assumes "reliable_database (l_sql X)" and "well (l_sql X) (sh_db s)"
  obtains db where "current_session (l_sql X) (dr_now d) token (sh_db s) =
      (db, snd (look_up (dr_now d) token (abs_db (l_sql X) (sh_db s))))" "well (l_sql X) db"
    "abs_db (l_sql X) db = fst (look_up (dr_now d) token (abs_db (l_sql X) (sh_db s)))"
  using reliable_database.current_session_refines [OF assms, of "dr_now d" token] by blast

lemma look_up_items [simp]:
  "st_items (fst (look_up now token \<sigma>)) = st_items \<sigma>"
  "st_users (fst (look_up now token \<sigma>)) = st_users \<sigma>"
  by (simp_all add: look_up_def split: option.split)

lemma drop_item_none: "st_items \<sigma> i = None \<Longrightarrow> drop_item i \<sigma> = \<sigma>"
  by (simp add: drop_item_def fun_upd_idem)

lemma refines_api:
  assumes R: "reliable_database (l_sql X)" and W: "well (l_sql X) (sh_db s)"
    and "act \<in> {Token, ListItems, CreateItem} \<or> (\<exists>i. act = GetItem i \<or> act = RemoveItem i)"
  shows "\<exists>clock. refines_service X (perform X cfg st d act req s)
    (serve X cfg st d clock (sh_metrics s) act req (abs_db (l_sql X) (sh_db s)))"
proof -
  note defs = refines_service_def with_db_def with_bearer_def well_def
  note ops = reliable_database.verify_user_refines [OF R W] reliable_database.list_items_refines [OF R W]
    reliable_database.get_item_refines [OF R W] reliable_database.create_item_refines [OF R W]
    reliable_database.delete_item_refines [OF R W]
  from assms(3) consider "act = Token" | "act = ListItems" | "act = CreateItem" | i where "act = GetItem i"
    | i where "act = RemoveItem i" by blast
  then show ?thesis
  proof cases
    case 1
    show ?thesis
    proof (cases "l_login_from_slice X (req_body req)")
      case (Some up)
      then show ?thesis
        using 1 W ops(1) [of "l_argon2 X" "fst up" "snd up"]
        by (auto simp: h_auth_token_def defs split: prod.splits sum.splits bool.splits)
    qed (use 1 W in \<open>simp add: h_auth_token_def defs\<close>)
  next
    case 2
    then show ?thesis using W ops(2) by (auto simp: h_list_items_def defs)
  next
    case 3
    show ?thesis
    proof (cases "l_item_from_slice X (req_body req)")
      case (Some p)
      then show ?thesis
        using 3 W ops(4) [of "dr_item_id d" "ci_name p" "ci_description p"]
        by (auto simp: h_admin_create_def defs split: sum.split if_splits)
    qed (use 3 W in \<open>simp add: h_admin_create_def defs split: sum.split\<close>)
  next
    case (4 i)
    then show ?thesis using W ops(3) [of i] by (auto simp: h_get_item_def defs split: option.split)
  next
    case (5 i)
    then show ?thesis using W ops(5) [of i]
      by (auto simp: h_admin_delete_def defs drop_item_none split: sum.split)
  qed
qed

lemma refines_pages:
  assumes R: "reliable_database (l_sql X)" and W: "well (l_sql X) (sh_db s)"
    and "act \<in> {UiIndex, UiItems, UiMetrics}"
  shows "refines_service X (perform X cfg st d act req s)
    (serve X cfg st d clock (sh_metrics s) act req (abs_db (l_sql X) (sh_db s)))"
proof -
  obtain db where cs: "current_session (l_sql X) (dr_now d) (session_token (l_http X) req) (sh_db s) =
      (db, snd (look_up (dr_now d) (session_token (l_http X) req) (abs_db (l_sql X) (sh_db s))))" and W': "well (l_sql X) db"
    and abs: "abs_db (l_sql X) db = fst (look_up (dr_now d) (session_token (l_http X) req) (abs_db (l_sql X) (sh_db s)))"
    by (rule session_first [OF R W])
  obtain \<sigma>' session where lu: "look_up (dr_now d) (session_token (l_http X) req) (abs_db (l_sql X) (sh_db s)) = (\<sigma>', session)"
    by (cases "look_up (dr_now d) (session_token (l_http X) req) (abs_db (l_sql X) (sh_db s))")
  from abs look_up_items(1) have items: "st_items (abs_db (l_sql X) db) = st_items (abs_db (l_sql X) (sh_db s))"
    by simp
  show ?thesis
    using assms(3) reliable_database.list_items_refines [OF R W'] W' abs items
    by (auto simp: refines_service_def with_db_def h_ui_index_def h_ui_items_def h_ui_metrics_def cs lu Let_def
        metrics_context_def flash_context_def well_def cong: option.case_cong)
qed

lemma refines_login:
  assumes R: "reliable_database (l_sql X)" and W: "well (l_sql X) (sh_db s)"
  shows "refines_service X (perform X cfg st d UiLogin req s)
    (serve X cfg st d clock (sh_metrics s) UiLogin req (abs_db (l_sql X) (sh_db s)))"
proof -
  obtain user pass where form: "login_form (l_percent_decode_lossy X) (req_body req) = (user, pass)"
    by (cases "login_form (l_percent_decode_lossy X) (req_body req)")
  obtain db where v: "verify_user (l_sql X) (l_argon2 X) user pass (sh_db s) =
      (db, Inr (opens (l_argon2 X) (abs_db (l_sql X) (sh_db s)) user pass))"
    and same: "sql_tables (l_sql X) db = sql_tables (l_sql X) (sh_db s)"
    using reliable_database.verify_user_refines [OF R W] by blast
  with W have W': "well (l_sql X) db" by (simp add: well_def)
  show ?thesis
    using reliable_database.session_create_refines
        [OF R W', of "dr_session_token d" "dr_csrf_token d" "dr_now d" user] W' same
    by (auto simp: refines_service_def with_db_def h_ui_login_def form v split: if_splits bool.split)
qed

lemma refines_forms:
  assumes R: "reliable_database (l_sql X)" and W: "well (l_sql X) (sh_db s)"
    and "act \<in> {UiLogout, UiCreate} \<or> (\<exists>i. act = UiDelete i)"
  shows "\<exists>clock. refines_service X (perform X cfg st d act req s)
    (serve X cfg st d clock (sh_metrics s) act req (abs_db (l_sql X) (sh_db s)))"
proof -
  let ?tok = "session_token (l_http X) req"
  obtain db where cs: "current_session (l_sql X) (dr_now d) ?tok (sh_db s) =
      (db, snd (look_up (dr_now d) ?tok (abs_db (l_sql X) (sh_db s))))" and W': "well (l_sql X) db"
    and abs: "abs_db (l_sql X) db = fst (look_up (dr_now d) ?tok (abs_db (l_sql X) (sh_db s)))"
    by (rule session_first [OF R W])
  obtain \<sigma>' session where lu: "look_up (dr_now d) ?tok (abs_db (l_sql X) (sh_db s)) = (\<sigma>', session)"
    by (cases "look_up (dr_now d) ?tok (abs_db (l_sql X) (sh_db s))")
  have tok: "session \<noteq> None \<Longrightarrow> ?tok \<noteq> None"
    using lu by (auto simp: look_up_def split: option.splits)
  obtain name desc where form: "item_form (l_percent_decode_lossy X) (req_body req) = (name, desc)"
    by (cases "item_form (l_percent_decode_lossy X) (req_body req)")
  note facts = refines_service_def with_db_def with_session_def cs lu abs
  from assms(3) consider "act = UiLogout" | "act = UiCreate" | i where "act = UiDelete i" by blast
  then show ?thesis
  proof cases
    case 1
    then show ?thesis
      using W' abs tok reliable_database.session_remove_refines [OF R W', of "the ?tok"]
      by (auto simp: facts h_ui_logout_def Let_def split: option.splits)
  next
    case 2
    show ?thesis
    proof (cases "\<exists>x. session = Some x \<and> csrf_token x = csrf_field req")
      case True
      have create: "if st_items \<sigma>' (dr_item_id d) = None
        then \<exists>db' clock. create_item (l_sql X) (dr_item_id d) name desc db =
            (db', Inr \<lparr>item_id = dr_item_id d, item_name = name, item_description = desc\<rparr>) \<and>
          well (l_sql X) db' \<and> abs_db (l_sql X) db' = add_item clock (dr_item_id d) name desc \<sigma>'
        else \<exists>db1 db' e. create_item (l_sql X) (dr_item_id d) name desc db = (db1, Inl e) \<and>
          list_items (l_sql X) db1 = (db', Inr (catalogue (st_items \<sigma>'))) \<and> well (l_sql X) db' \<and>
          abs_db (l_sql X) db' = \<sigma>'"
        using reliable_database.create_item_refines [OF R W', of "dr_item_id d" name desc]
          reliable_database.list_items_refines [OF R] abs lu
        by (fastforce simp: well_def)
      with True 2 show ?thesis
        by (auto simp: facts h_ui_create_def form split: if_splits)
    qed (use 2 W' abs in \<open>auto simp: facts h_ui_create_def split: option.splits\<close>)
  next
    case (3 i)
    then show ?thesis
      using W' abs reliable_database.delete_item_refines [OF R W', of i]
      by (auto simp: facts h_ui_delete_def split: option.splits)
  qed
qed

lemma perform_refines:
  assumes "reliable_database (l_sql X)" and "well (l_sql X) (sh_db s)"
  shows "\<exists>clock. refines_service X (perform X cfg st d act req s)
    (serve X cfg st d clock (sh_metrics s) act req (abs_db (l_sql X) (sh_db s)))"
proof -
  consider "act \<in> {Root, Health, UiRoot, UiLoginPage, MetricsText, Forward, MethodNotAllowed, NotFoundHere} \<or>
      (\<exists>x. act = Echo x \<or> act = Fib x) \<or> (\<exists>p. act = Static p)"
    | "act \<in> {Token, ListItems, CreateItem} \<or> (\<exists>i. act = GetItem i \<or> act = RemoveItem i)"
    | "act \<in> {UiIndex, UiItems, UiMetrics}" | "act = UiLogin" | "act \<in> {UiLogout, UiCreate} \<or> (\<exists>i. act = UiDelete i)"
    by (cases act) auto
  then show ?thesis
  proof cases
    case 1
    then show ?thesis by (blast intro: refines_stateless [OF assms(2)])
  next
    case 2
    then show ?thesis by (rule refines_api [OF assms])
  next
    case 3
    then show ?thesis by (blast intro: refines_pages [OF assms])
  next
    case 4
    then show ?thesis by (blast intro: refines_login [OF assms])
  next
    case 5
    then show ?thesis by (rule refines_forms [OF assms])
  qed
qed

subsection \<open>Sequences of requests\<close>

text \<open>
  A request comes with what its handler draws and with the value of the metrics at its time, which the layers around the
  router change between two requests.
\<close>

fun dispatch_all ::
    "('h, 'db, 'ph, 'ek, 'dk, 't, 'f) app_libs \<Rightarrow> server_config \<Rightarrow> ('ek, 'dk, 't, 'h) app_state \<Rightarrow>
     (draws \<times> metrics \<times> 'h http_request) list \<Rightarrow> 'db app_shared \<Rightarrow> 'db app_shared \<times> 'h http_response list" where
  "dispatch_all X cfg st [] s = (s, [])"
| "dispatch_all X cfg st ((d, m, req) # rs) s =
     (let (s', resp) = dispatch (l_http X) (build_router X cfg st d) req (s\<lparr>sh_metrics := m\<rparr>);
          (s'', resps) = dispatch_all X cfg st rs s' in
      (s'', resp # resps))"

fun serve_all ::
    "('h, 'db, 'ph, 'ek, 'dk, 't, 'f) app_libs \<Rightarrow> server_config \<Rightarrow> ('ek, 'dk, 't, 'h) app_state \<Rightarrow>
     (nat \<times> draws \<times> metrics \<times> 'h http_request) list \<Rightarrow> store \<Rightarrow> store \<times> 'h http_response list" where
  "serve_all X cfg st [] \<sigma> = (\<sigma>, [])"
| "serve_all X cfg st ((clock, d, m, req) # rs) \<sigma> =
     (let act = route_of (has_ui st) (has_proxy cfg st) (req_method req) (path_segments (path req));
          (\<sigma>', resp) = serve X cfg st d clock m act req \<sigma>;
          (\<sigma>'', resps) = serve_all X cfg st rs \<sigma>' in
      (\<sigma>'', resp # resps))"

lemma dispatch_refines:
  assumes "reliable_database (l_sql X)" and "well (l_sql X) (sh_db s)"
    and "dispatch (l_http X) (build_router X cfg st d) req s = (s', resp)"
  shows "\<exists>clock. well (l_sql X) (sh_db s') \<and>
    serve X cfg st d clock (sh_metrics s)
      (route_of (has_ui st) (has_proxy cfg st) (req_method req) (path_segments (path req))) req
      (abs_db (l_sql X) (sh_db s)) = (abs_db (l_sql X) (sh_db s'), resp)"
  using perform_refines [OF assms(1,2)] assms(3)
  unfolding dispatch_table refines_service_def by (metis fst_conv prod.collapse snd_conv)

lemma dispatch_all_refines:
  assumes "reliable_database (l_sql X)" and "well (l_sql X) (sh_db s)"
    and "dispatch_all X cfg st rs s = (s', resps)"
  shows "\<exists>clocks. length clocks = length rs \<and> well (l_sql X) (sh_db s') \<and>
    serve_all X cfg st (zip clocks rs) (abs_db (l_sql X) (sh_db s)) = (abs_db (l_sql X) (sh_db s'), resps)"
  using assms(2,3)
proof (induction rs arbitrary: s resps)
  case (Cons r rs)
  obtain d m req where r: "r = (d, m, req)" by (cases r)
  obtain s1 resp where one: "dispatch (l_http X) (build_router X cfg st d) req (s\<lparr>sh_metrics := m\<rparr>) = (s1, resp)"
    by fastforce
  obtain resps1 where rest: "dispatch_all X cfg st rs s1 = (s', resps1)" and resps: "resps = resp # resps1"
    using Cons.prems(2) by (auto simp: r one split: prod.splits)
  obtain clock where clock: "well (l_sql X) (sh_db s1)"
      "serve X cfg st d clock m (route_of (has_ui st) (has_proxy cfg st) (req_method req) (path_segments (path req))) req
        (abs_db (l_sql X) (sh_db s)) = (abs_db (l_sql X) (sh_db s1), resp)"
    using dispatch_refines [OF assms(1) _ one] Cons.prems(1) by auto
  obtain clocks where "length clocks = length rs" "well (l_sql X) (sh_db s')"
      "serve_all X cfg st (zip clocks rs) (abs_db (l_sql X) (sh_db s1)) = (abs_db (l_sql X) (sh_db s'), resps1)"
    using Cons.IH [OF clock(1) rest] by blast
  then show ?case
    using clock by (intro exI [of _ "clock # clocks"]) (simp add: r resps)
qed simp

text \<open>What a whole visit amounts to, in the specification.\<close>

definition visit ::
    "('h, 'db, 'ph, 'ek, 'dk, 't, 'f) app_libs \<Rightarrow> server_config \<Rightarrow> draws \<Rightarrow> draws \<Rightarrow>
     string \<Rightarrow> string \<Rightarrow> nat \<Rightarrow> store \<Rightarrow> store \<Rightarrow> 'h http_response list \<Rightarrow> bool" where
  "visit X cfg d1 d2 name description clock \<sigma> \<sigma>' resps \<longleftrightarrow>
     \<sigma>' = add_item clock (dr_item_id d2) name description \<sigma> \<and>
     resps =
      [rb_empty (l_http X)
         (rb_header ''set-cookie''
           (session_cookie (cfg_tls_cert_path cfg \<noteq> None \<and> cfg_tls_key_path cfg \<noteq> None) (dr_session_token d1))
         (rb_header ''location'' ''/ui/items'' (rb_new 302))),
       redirect_to (l_http X) ''/ui/items?flash=Item+created'',
       rb_empty (l_http X)
         (rb_header ''set-cookie'' ''session=; Max-Age=0; Path=/''
         (rb_header ''location'' ''/ui/login'' (rb_new 302))),
       redirect_to (l_http X) ''/ui/login'']"

lemma serve_visit:
  assumes "st_template_engine st \<noteq> None"
    and "req_method login = ''POST''" and "path_segments (path login) = [''ui'', ''login'']"
    and "req_method create = ''POST''" and "path_segments (path create) = [''ui'', ''items'']"
    and "req_method logout = ''POST''" and "path_segments (path logout) = [''ui'', ''logout'']"
    and "req_method again = ''POST''" and "path_segments (path again) = [''ui'', ''items'']"
    and "login_form (l_percent_decode_lossy X) (req_body login) = (user, pass)"
    and "opens (l_argon2 X) \<sigma> user pass"
    and free: "st_sessions \<sigma> (dr_session_token d1) = None" "st_items \<sigma> (dr_item_id d2) = None"
    and "session_token (l_http X) create = Some (dr_session_token d1)" and "csrf_field create = dr_csrf_token d1"
    and "session_token (l_http X) logout = Some (dr_session_token d1)" and "csrf_field logout = dr_csrf_token d1"
    and "session_token (l_http X) again = Some (dr_session_token d1)"
    and "dr_now d2 < dr_now d1 + 3600" and "dr_now d3 < dr_now d2 + 3600"
    and "item_form (l_percent_decode_lossy X) (req_body create) = (name, description)"
    and run: "serve_all X cfg st [(c1, d1, m1, login), (c2, d2, m2, create), (c3, d3, m3, logout), (c4, d4, m4, again)] \<sigma> =
      (\<sigma>', resps)"
  shows "visit X cfg d1 d2 name description c2 \<sigma> \<sigma>' resps"
proof -
  have route: "route_of True p ''POST'' [''ui'', ''login''] = UiLogin"
    "route_of True p ''POST'' [''ui'', ''items''] = UiCreate" "route_of True p ''POST'' [''ui'', ''logout''] = UiLogout" for p
    by (simp_all add: route_of_def methods_at_def ui_methods_def)
  define x where "x = \<lparr>username = user, csrf_token = dr_csrf_token d1\<rparr>"
  define \<sigma>1 where "\<sigma>1 = \<sigma>\<lparr>st_sessions := (st_sessions \<sigma>)(dr_session_token d1 \<mapsto> (x, int (dr_now d1) + SESSION_TTL_SECS))\<rparr>"
  define \<sigma>3 where "\<sigma>3 = add_item c2 (dr_item_id d2) name description \<sigma>"
  define \<sigma>2 where "\<sigma>2 = \<sigma>3\<lparr>st_sessions := (st_sessions \<sigma>)(dr_session_token d1 \<mapsto> (x, int (dr_now d2) + SESSION_TTL_SECS))\<rparr>"
  have 1: "serve X cfg st d1 c1 m1 UiLogin login \<sigma> = (\<sigma>1, rb_empty (l_http X)
         (rb_header ''set-cookie''
           (session_cookie (cfg_tls_cert_path cfg \<noteq> None \<and> cfg_tls_key_path cfg \<noteq> None) (dr_session_token d1))
         (rb_header ''location'' ''/ui/items'' (rb_new 302))))"
    using assms(11) free(1) by (simp add: assms(10) \<sigma>1_def x_def add_session_def)
  have 2: "serve X cfg st d2 c2 m2 UiCreate create \<sigma>1 = (\<sigma>2, redirect_to (l_http X) ''/ui/items?flash=Item+created'')"
    using free assms(15,19) by (simp add: assms(14,21) with_session_def look_up_def \<sigma>1_def \<sigma>2_def \<sigma>3_def x_def add_item_def
        SESSION_TTL_SECS_def)
  have 3: "serve X cfg st d3 c3 m3 UiLogout logout \<sigma>2 = (\<sigma>3, rb_empty (l_http X)
         (rb_header ''set-cookie'' ''session=; Max-Age=0; Path=/'' (rb_header ''location'' ''/ui/login'' (rb_new 302))))"
    using free assms(17,20) by (simp add: assms(16) with_session_def look_up_def \<sigma>2_def \<sigma>3_def x_def drop_session_def
        add_item_def SESSION_TTL_SECS_def fun_upd_idem)
  have 4: "serve X cfg st d4 c4 m4 UiCreate again \<sigma>3 = (\<sigma>3, redirect_to (l_http X) ''/ui/login'')"
    using free by (simp add: assms(18) with_session_def look_up_def \<sigma>3_def add_item_def)
  show ?thesis
    using run assms(1)
    by (auto simp: visit_def assms(2-9) route 1 2 3 4 \<sigma>3_def [symmetric] simp del: serve.simps)
qed

subsection \<open>Properties\<close>

text \<open>
  C3: The application refines its specification.  Whatever requests reach the router, in whatever order and with whatever
  draws, a server whose database answers returns exactly the responses of the abstract service, in which items, accounts
  and sessions are finite maps, and the tables afterwards hold exactly the maps of the service.  In particular every route
  then has an answer that depends on the request and on the maps only, and a statement that must fail (a fresh id that is
  taken) becomes the error of the specification.
\<close>

theorem service_refines:
  assumes "reliable_database (l_sql X)"
    and "tables_ok (sql_tables (l_sql X) (sh_db s))" and "schema_ok (sql_tables (l_sql X) (sh_db s))"
    and "dispatch_all X cfg st rs s = (s', resps)"
  shows "\<exists>clocks. length clocks = length rs \<and>
    serve_all X cfg st (zip clocks rs) (store_of (sql_tables (l_sql X) (sh_db s))) =
      (store_of (sql_tables (l_sql X) (sh_db s')), resps)"
  using dispatch_all_refines [OF assms(1) _ assms(4)] assms(2,3) by (auto simp: well_def)

theorem service_refines_witness:
  "\<exists>clock. st_items (fst (serve_all demo_libs demo_config demo_state [(clock, demo_draws, metrics_new, demo_create)]
       (store_of empty_tables))) ''i'' = Some (''n'', ''d'', 0)"
proof -
  define out where "out = dispatch_all demo_libs demo_config demo_state [(demo_draws, metrics_new, demo_create)]
      (demo_shared empty_tables)"
  have sh: "(demo_shared empty_tables)\<lparr>sh_metrics := metrics_new\<rparr> = demo_shared empty_tables"
    by (simp add: demo_shared_def)
  have st: "st_items (store_of (fst (sh_db (fst out)))) ''i'' = Some (''n'', ''d'', 0)"
    by (simp add: out_def sh demo_create_dispatch store_of_simps stock_def)
  have run: "dispatch_all demo_libs demo_config demo_state [(demo_draws, metrics_new, demo_create)]
      (demo_shared empty_tables) = (fst out, snd out)"
    by (simp add: out_def del: dispatch_all.simps)
  have db: "sql_tables (l_sql demo_libs) (sh_db (demo_shared empty_tables)) = empty_tables"
    by (simp add: demo_shared_def)
  have ok: "tables_ok empty_tables" "schema_ok empty_tables"
    by (simp_all add: tables_ok_def schema_ok_def empty_tables_def)
  obtain clocks where "length clocks = length [(demo_draws, metrics_new, demo_create)]"
      "serve_all demo_libs demo_config demo_state (zip clocks [(demo_draws, metrics_new, demo_create)]) (store_of empty_tables) =
        (store_of (fst (sh_db (fst out))), snd out)"
    using service_refines [OF _ _ _ run, unfolded db, OF _ ok] mem_answers.reliable_database_axioms by auto
  moreover from this(1) obtain clock where "clocks = [clock]" by (auto simp: length_Suc_conv)
  ultimately show ?thesis using st by (intro exI [of _ clock]) (simp del: serve_all.simps)
qed

text \<open>
  C9: A visit, from the login to the logout.  Someone whose password the stored hash accepts posts the login form, then a
  form that creates an item, then the logout form, each with the cookie and the CSRF token of the session and within its
  time to live.  Then the login is answered with the cookie, the creation with the redirect to the list and the logout with
  the removal of the cookie; the item and nothing else is in the items afterwards; and the cookie is worth nothing any
  more: another form posted with it is sent to the login page and changes nothing.
\<close>

theorem session_workflow:
  assumes "reliable_database (l_sql X)" and "well (l_sql X) (sh_db s)" and "st_template_engine st \<noteq> None"
    and "dispatch_all X cfg st [(d1, m1, login), (d2, m2, create), (d3, m3, logout), (d4, m4, again)] s = (s', resps)"
    and "req_method login = ''POST''" and "path_segments (path login) = [''ui'', ''login'']"
    and "req_method create = ''POST''" and "path_segments (path create) = [''ui'', ''items'']"
    and "req_method logout = ''POST''" and "path_segments (path logout) = [''ui'', ''logout'']"
    and "req_method again = ''POST''" and "path_segments (path again) = [''ui'', ''items'']"
    and "login_form (l_percent_decode_lossy X) (req_body login) = (user, pass)"
    and "users_of (sql_tables (l_sql X) (sh_db s)) user = Some h" and "argon2_parse_hash (l_argon2 X) h = Inr ph"
    and "argon2_verify_password (l_argon2 X) pass ph"
    and "sessions_of (sql_tables (l_sql X) (sh_db s)) (dr_session_token d1) = None"
    and "items_of (sql_tables (l_sql X) (sh_db s)) (dr_item_id d2) = None"
    and "session_token (l_http X) create = Some (dr_session_token d1)" and "csrf_field create = dr_csrf_token d1"
    and "session_token (l_http X) logout = Some (dr_session_token d1)" and "csrf_field logout = dr_csrf_token d1"
    and "session_token (l_http X) again = Some (dr_session_token d1)"
    and "dr_now d2 < dr_now d1 + 3600" and "dr_now d3 < dr_now d2 + 3600"
    and "item_form (l_percent_decode_lossy X) (req_body create) = (name, description)"
  shows "resps =
      [rb_empty (l_http X)
         (rb_header ''set-cookie''
           (session_cookie (cfg_tls_cert_path cfg \<noteq> None \<and> cfg_tls_key_path cfg \<noteq> None) (dr_session_token d1))
         (rb_header ''location'' ''/ui/items'' (rb_new 302))),
       redirect_to (l_http X) ''/ui/items?flash=Item+created'',
       rb_empty (l_http X)
         (rb_header ''set-cookie'' ''session=; Max-Age=0; Path=/''
         (rb_header ''location'' ''/ui/login'' (rb_new 302))),
       redirect_to (l_http X) ''/ui/login''] \<and>
    items_of (sql_tables (l_sql X) (sh_db s')) =
      (items_of (sql_tables (l_sql X) (sh_db s)))(dr_item_id d2 \<mapsto> (name, description)) \<and>
    sessions_of (sql_tables (l_sql X) (sh_db s')) = sessions_of (sql_tables (l_sql X) (sh_db s))"
proof -
  let ?\<sigma> = "abs_db (l_sql X) (sh_db s)"
  obtain clocks where clocks: "length clocks = Suc (Suc (Suc (Suc 0)))"
      "serve_all X cfg st (zip clocks [(d1, m1, login), (d2, m2, create), (d3, m3, logout), (d4, m4, again)]) ?\<sigma> =
        (abs_db (l_sql X) (sh_db s'), resps)"
    using dispatch_all_refines [OF assms(1,2,4)] by auto
  then obtain c1 c2 c3 c4 where cs: "clocks = [c1, c2, c3, c4]"
    by (auto simp: length_Suc_conv)
  have "opens (l_argon2 X) ?\<sigma> user pass" using assms(14-16) by (simp add: opens_def store_of_simps)
  moreover have "st_sessions ?\<sigma> (dr_session_token d1) = None" "st_items ?\<sigma> (dr_item_id d2) = None"
    using assms(17,18) stock_items_of [of "sql_tables (l_sql X) (sh_db s)" "dr_item_id d2"] by (simp_all add: store_of_simps)
  ultimately have v: "visit X cfg d1 d2 name description c2 ?\<sigma> (abs_db (l_sql X) (sh_db s')) resps"
    using serve_visit [OF assms(3,5-13) _ _ _ assms(19-26)] clocks(2) unfolding cs by simp
  have "items_of (sql_tables (l_sql X) (sh_db s')) i = ((items_of (sql_tables (l_sql X) (sh_db s)))
      (dr_item_id d2 \<mapsto> (name, description))) i" for i
    using v by (auto simp: visit_def stock_items_of store_of_def add_item_def)
  with v show ?thesis by (auto simp: visit_def store_of_def add_item_def)
qed

definition demo_form :: "string \<Rightarrow> (string \<times> string) list http_request" where
  "demo_form p = demo_request ''POST'' p [(''cookie'', ''session=t'')] ''_csrf=c&name=n&description=d''"

lemma demo_form_fields:
  "req_method (demo_form p) = ''POST''" "path (demo_form p) = p"
  "session_token alist_http (demo_form p) = Some ''t''" "csrf_field (demo_form p) = ''c''"
  "item_form lossy_decoder (req_body (demo_form p)) = (''n'', ''d'')"
proof -
  have h: "header alist_http (demo_form p) ''cookie'' = Some ''session=t''"
    by (simp add: demo_form_def demo_request_def header_def) code_simp
  have c: "extract_session_cookie (Some ''session=t'') = Some ''t''" by code_simp
  show "session_token alist_http (demo_form p) = Some ''t''"
    by (simp add: session_token_def h c)
  show "csrf_field (demo_form p) = ''c''"
    by (simp add: csrf_field_def form_param_def demo_form_def demo_request_def) code_simp
  show "item_form lossy_decoder (req_body (demo_form p)) = (''n'', ''d'')"
    by (simp add: demo_form_def demo_request_def) code_simp
qed (simp_all add: demo_form_def demo_request_def path_def)

theorem session_workflow_witness:
  "\<exists>s' resps. dispatch_all demo_libs demo_config demo_state
       [(demo_draws, metrics_new, demo_login), (demo_draws, metrics_new, demo_form ''/ui/items''),
        (demo_draws, metrics_new, demo_form ''/ui/logout''), (demo_draws, metrics_new, demo_form ''/ui/items'')]
       (demo_shared user_tables) = (s', resps) \<and>
     items_of (fst (sh_db s')) = [''i'' \<mapsto> (''n'', ''d'')] \<and> sessions_of (fst (sh_db s')) = Map.empty \<and>
     resps ! 3 = redirect_to alist_http ''/ui/login''"
proof -
  let ?rs = "[(demo_draws, metrics_new, demo_login), (demo_draws, metrics_new, demo_form ''/ui/items''),
        (demo_draws, metrics_new, demo_form ''/ui/logout''), (demo_draws, metrics_new, demo_form ''/ui/items'')]"
  obtain s' resps where run: "dispatch_all demo_libs demo_config demo_state ?rs (demo_shared user_tables) = (s', resps)"
    by (cases "dispatch_all demo_libs demo_config demo_state ?rs (demo_shared user_tables)")
  have login: "req_method demo_login = ''POST''" "path_segments (path demo_login) = [''ui'', ''login'']"
    "login_form lossy_decoder (req_body demo_login) = (''u'', ''p'')"
    by (simp add: demo_login_def demo_request_def, simp add: demo_login_def demo_request_def path_def path_segments_def,
        simp add: demo_login_def demo_request_def, code_simp)
  have db: "well (l_sql demo_libs) (sh_db (demo_shared user_tables))"
    "fst (sh_db (demo_shared user_tables)) = user_tables"
    by (simp_all add: well_def demo_shared_def user_tables_def empty_tables_def tables_ok_def schema_ok_def)
  have tabs: "users_of user_tables ''u'' = Some ''s$p''" "sessions_of user_tables = Map.empty" "items_of user_tables = Map.empty"
    by (simp_all add: user_tables_def empty_tables_def users_of_def sessions_of_def items_of_def)
  have hash: "argon2_parse_hash clear_argon2 ''s$p'' = Inr ''p''" "argon2_verify_password clear_argon2 ''p'' ''p''"
    by (simp_all add: clear_argon2_def)
  have segs: "path_segments ''/ui/items'' = [''ui'', ''items'']" "path_segments ''/ui/logout'' = [''ui'', ''logout'']"
    by (simp_all add: path_segments_def)
  note g = session_workflow [OF _ db(1) _ run, unfolded demo_libs_simps mem_tables db(2), OF mem_answers.reliable_database_axioms _
      login(1,2) demo_form_fields(1) _ demo_form_fields(1) _ demo_form_fields(1) _ login(3) tabs(1) hash]
  show ?thesis
    using run g [of "''n''" "''d''"] by (simp add: segs demo_form_fields tabs demo_draws_def demo_state_def)
qed

end
