(* ===== verification/Interleave.thy ===== *)
theory Interleave
  imports Cancel
begin

text \<open>
  Requests that overlap.  The handlers of different connections run concurrently and share one database, so between two
  statements of a handler any number of statements of other handlers can be executed.

  What a handler does is a function of the answers it gets: \<open>issued\<close> runs it over an engine that only replays a given list
  of answers and notes the statements.  A system of requests (\<open>interleaved\<close>) then executes, one at a time
  and in any order, the next statement of any of them on the real engine.  A request may stop at any point, as one that
  timed out or whose client is gone does.

  The proof has two halves.  Whatever answers a handler gets, it issues a statement that writes only after it
  has seen what permits it (\<open>disciplined\<close>).  And what a request has seen stays true enough: accounts never change, and a
  session that was ever stored was stored by a login.
\<close>

type_synonym sql_outcome = "sqlx_error + sql_reply"
type_synonym trace = "(sql_stmt \<times> sql_outcome) list"

definition script_exec ::
    "sql_outcome list \<times> trace \<Rightarrow> string \<Rightarrow> sql_value list \<Rightarrow> (sql_outcome list \<times> trace) \<times> sql_outcome" where
  "script_exec w text binds =
     (case fst w of
        [] \<Rightarrow> (w, lost_reply)
      | r # rs \<Rightarrow> ((rs, snd w @ [(the (stmt_of text binds), r)]), r))"

definition script_engine :: "(sql_outcome list \<times> trace) sql_engine" where
  "script_engine = \<lparr>sql_exec = script_exec, sql_tables = (\<lambda>_. empty_tables)\<rparr>"

text \<open>The statements a request has issued once it has got the given answers.\<close>

definition issued ::
    "('h, 'db, 'ph, 'ek, 'dk, 't, 'f) app_libs \<Rightarrow> server_config \<Rightarrow> ('ek, 'dk, 't, 'h) app_state \<Rightarrow> draws \<Rightarrow> metrics \<Rightarrow>
     'h http_request \<Rightarrow> sql_outcome list \<Rightarrow> trace" where
  "issued X cfg st d m req answers =
     snd (sh_db (fst (dispatch (l_http X) (build_router (with_engine script_engine X) cfg st d) req
       \<lparr>sh_db = (answers, []), sh_metrics = m\<rparr>)))"

lemma script_run:
  "sql_run script_engine st ([], t) = (([], t), lost_reply)"
  "sql_run script_engine st (r # rs, t) = ((rs, t @ [(st, r)]), r)"
  by (simp_all add: sql_run_def script_engine_def script_exec_def stmt_of_text)

subsection \<open>What permits a statement\<close>

definition saw_session ::
    "('h, 'db, 'ph, 'ek, 'dk, 't, 'f) app_libs \<Rightarrow> draws \<Rightarrow> 'h http_request \<Rightarrow> trace \<Rightarrow> bool" where
  "saw_session X d req pre \<longleftrightarrow>
     (\<exists>k u rows. session_token (l_http X) req = Some k \<and>
        (SelectSession k (int (dr_now d)), Inr (Rows ([u, csrf_field req] # rows))) \<in> set pre)"

definition saw_password ::
    "('h, 'db, 'ph, 'ek, 'dk, 't, 'f) app_libs \<Rightarrow> 'h http_request \<Rightarrow> trace \<Rightarrow> string \<Rightarrow> bool" where
  "saw_password X req pre user \<longleftrightarrow>
     (\<exists>pass h ph rows. login_form (l_percent_decode_lossy X) (req_body req) = (user, pass) \<and>
        (SelectPasswordHash user, Inr (Rows ([h] # rows))) \<in> set pre \<and>
        argon2_parse_hash (l_argon2 X) h = Inr ph \<and> argon2_verify_password (l_argon2 X) pass ph)"

fun permitted ::
    "('h, 'db, 'ph, 'ek, 'dk, 't, 'f) app_libs \<Rightarrow> ('ek, 'dk) jwt_secret \<Rightarrow> draws \<Rightarrow> 'h http_request \<Rightarrow> trace \<Rightarrow> sql_stmt \<Rightarrow> bool" where
  "permitted X jwt d req pre (InsertItem i n ds) = (bearer_valid X jwt (dr_now d) req \<or> saw_session X d req pre)"
| "permitted X jwt d req pre (DeleteItem i) = (bearer_valid X jwt (dr_now d) req \<or> saw_session X d req pre)"
| "permitted X jwt d req pre (InsertSession tok u c e) =
     (tok = dr_session_token d \<and> c = dr_csrf_token d \<and> saw_password X req pre u)"
| "permitted X jwt d req pre (InsertUser u h) = False"
| "permitted X jwt d req pre CreateItemsTable = False"
| "permitted X jwt d req pre CreateUsersTable = False"
| "permitted X jwt d req pre CreateSessionsTable = False"
| "permitted X jwt d req pre _ = True"

definition disciplined ::
    "('h, 'db, 'ph, 'ek, 'dk, 't, 'f) app_libs \<Rightarrow> ('ek, 'dk) jwt_secret \<Rightarrow> draws \<Rightarrow> 'h http_request \<Rightarrow> trace \<Rightarrow> bool" where
  "disciplined X jwt d req t \<longleftrightarrow> (\<forall>i < length t. permitted X jwt d req (take i t) (fst (t ! i)))"

lemma disciplined_simps [simp]:
  "disciplined X jwt d req []"
  "disciplined X jwt d req (t @ [(st, r)]) \<longleftrightarrow> disciplined X jwt d req t \<and> permitted X jwt d req t st"
  by (auto simp: disciplined_def nth_append less_Suc_eq)

definition grows ::
    "('h, 'db, 'ph, 'ek, 'dk, 't, 'f) app_libs \<Rightarrow> ('ek, 'dk) jwt_secret \<Rightarrow> draws \<Rightarrow> 'h http_request \<Rightarrow>
     sql_outcome list \<times> trace \<Rightarrow> sql_outcome list \<times> trace \<Rightarrow> bool" where
  "grows X jwt d req w w' \<longleftrightarrow>
     (disciplined X jwt d req (snd w) \<longrightarrow> disciplined X jwt d req (snd w')) \<and> set (snd w) \<subseteq> set (snd w')"

lemma grows_refl [simp]: "grows X jwt d req w w"
  by (simp add: grows_def)

lemma grows_trans: "grows X jwt d req w w' \<Longrightarrow> grows X jwt d req w' w'' \<Longrightarrow> grows X jwt d req w w''"
  by (auto simp: grows_def)

lemma run_grows:
  assumes "sql_run script_engine st w = (w', r)" and "permitted X jwt d req (snd w) st"
  shows "grows X jwt d req w w'" and "r = Inr reply \<Longrightarrow> (st, Inr reply) \<in> set (snd w')"
  using assms by (cases w; cases "fst w"; auto simp: script_run grows_def lost_reply_def)+

lemma execute_grows:
  assumes "execute script_engine st w = (w', res)" and "permitted X jwt d req (snd w) st"
  shows "grows X jwt d req w w'"
  using assms run_grows(1) [OF _ assms(2)]
  by (cases "sql_run script_engine st w"; cases "snd (sql_run script_engine st w)") (auto simp: execute_def)

lemma fetch_all_grows:
  assumes "fetch_all script_engine f st w = (w', res)" and "permitted X jwt d req (snd w) st"
  shows "grows X jwt d req w w'"
  using assms run_grows(1) [OF _ assms(2)]
  by (cases "sql_run script_engine st w"; cases "snd (sql_run script_engine st w)") (auto simp: fetch_all_def)

lemma fetch_optional_grows:
  assumes "fetch_optional script_engine f st w = (w', res)" and "permitted X jwt d req (snd w) st"
  shows "grows X jwt d req w w'"
    and "res = Inr (Some y) \<Longrightarrow> \<exists>row rows. f row = Inr y \<and> (st, Inr (Rows (row # rows))) \<in> set (snd w')"
proof -
  obtain w1 r where run: "sql_run script_engine st w = (w1, r)" by fastforce
  note g = run_grows [OF run assms(2)]
  have w: "w' = w1" using assms(1) run by (cases r) (auto simp: fetch_optional_def)
  show "grows X jwt d req w w'" using g(1) w by simp
  assume res: "res = Inr (Some y)"
  then obtain reply where r: "r = Inr reply" using assms(1) run by (cases r) (auto simp: fetch_optional_def)
  then obtain row rows where "reply = Rows (row # rows)" "f row = Inr y"
    using assms(1) res run
    by (cases reply) (auto simp: fetch_optional_def split: list.splits sum.splits)
  with g(2) [OF r] w show "\<exists>row rows. f row = Inr y \<and> (st, Inr (Rows (row # rows))) \<in> set (snd w')" by blast
qed

subsection \<open>The operations\<close>

lemma execute_return_grows:
  "try_then (execute script_engine st w) (\<lambda>x db. (db, g x)) = (w', res) \<Longrightarrow> permitted X jwt d req (snd w) st \<Longrightarrow>
     grows X jwt d req w w'"
  by (drule try_then_return) (metis execute_grows surjective_pairing)

lemma read_grows:
  "list_items script_engine w = (w', r1) \<Longrightarrow> grows X jwt d req w w'"
  "get_item script_engine i w = (w', r2) \<Longrightarrow> grows X jwt d req w w'"
  "session_remove script_engine tok w = (w', r3) \<Longrightarrow> grows X jwt d req w w'"
  by (auto simp: list_items_def get_item_def session_remove_def
      intro: fetch_all_grows fetch_optional_grows(1) execute_return_grows)

lemma write_grows:
  "create_item script_engine i n ds w = (w', r1) \<Longrightarrow> permitted X jwt d req (snd w) (InsertItem i n ds) \<Longrightarrow> grows X jwt d req w w'"
  "delete_item script_engine i w = (w', r2) \<Longrightarrow> permitted X jwt d req (snd w) (DeleteItem i) \<Longrightarrow> grows X jwt d req w w'"
  "session_create script_engine tok c now u w = (w', r3) \<Longrightarrow>
     permitted X jwt d req (snd w) (InsertSession tok u c (now + SESSION_TTL_SECS)) \<Longrightarrow> grows X jwt d req w w'"
  unfolding create_item_def delete_item_def session_create_def
  by (erule (1) execute_return_grows)+

lemma verify_user_grows:
  assumes "verify_user script_engine A u p w = (w', res)"
  shows "grows X jwt d req w w'"
    and "res = Inr True \<Longrightarrow> \<exists>h ph rows. (SelectPasswordHash u, Inr (Rows ([h] # rows))) \<in> set (snd w') \<and>
      argon2_parse_hash A h = Inr ph \<and> argon2_verify_password A p ph"
proof -
  obtain w1 r where f: "fetch_optional script_engine text_from_row (SelectPasswordHash u) w = (w1, r)" by fastforce
  have w: "w' = w1" using assms f by (cases r) (auto simp: verify_user_def split: option.splits sum.splits)
  have p: "permitted X jwt d req (snd w) (SelectPasswordHash u)" by simp
  show "grows X jwt d req w w'" using fetch_optional_grows(1) [OF f p] w by simp
  assume "res = Inr True"
  then obtain h ph where h: "r = Inr (Some h)" "argon2_parse_hash A h = Inr ph" "argon2_verify_password A p ph"
    using assms f by (cases r) (auto simp: verify_user_def split: option.splits sum.splits)
  obtain row rows where row: "text_from_row row = Inr h" "(SelectPasswordHash u, Inr (Rows (row # rows))) \<in> set (snd w1)"
    using fetch_optional_grows(2) [OF f p h(1)] by blast
  then have "row = [h]" by (cases row rule: text_from_row.cases) auto
  with row(2) h w show "\<exists>h ph rows. (SelectPasswordHash u, Inr (Rows ([h] # rows))) \<in> set (snd w') \<and>
      argon2_parse_hash A h = Inr ph \<and> argon2_verify_password A p ph" by blast
qed

lemma current_session_grows:
  assumes "current_session script_engine now token w = (w', found)"
  shows "grows X jwt d req w w'"
    and "found = Some x \<Longrightarrow> \<exists>k rows. token = Some k \<and>
      (SelectSession k (int now), Inr (Rows ([username x, csrf_token x] # rows))) \<in> set (snd w')"
proof -
  have "grows X jwt d req w w' \<and> (found = Some x \<longrightarrow> (\<exists>k rows. token = Some k \<and>
      (SelectSession k (int now), Inr (Rows ([username x, csrf_token x] # rows))) \<in> set (snd w')))"
  proof (cases token)
    case (Some k)
    obtain res where get: "session_get script_engine (int now) k w = (w', res)" "found = Option.bind (result_ok res) id"
      using assms Some by (auto simp: current_session_def split: prod.splits)
    obtain w1 r where f: "fetch_optional script_engine session_from_row (SelectSession k (int now)) w = (w1, r)" by fastforce
    have p: "permitted X jwt d req (snd w) (SelectSession k (int now))" by simp
    have g: "grows X jwt d req w1 w'"
      using get(1) f by (cases r) (auto simp: session_get_def split: if_splits elim: execute_return_grows)
    have "\<exists>rows. (SelectSession k (int now), Inr (Rows ([username x, csrf_token x] # rows))) \<in> set (snd w')" if "found = Some x"
    proof -
      have "r = Inr (Some x)"
        using get f that by (cases r) (auto simp: session_get_def try_then_def split: if_splits prod.splits sum.splits)
      then obtain row rows where row: "session_from_row row = Inr x"
          "(SelectSession k (int now), Inr (Rows (row # rows))) \<in> set (snd w1)"
        using fetch_optional_grows(2) [OF f p] by blast
      then have "row = [username x, csrf_token x]" by (cases row rule: session_from_row.cases) auto
      with row g show ?thesis by (auto simp: grows_def)
    qed
    with fetch_optional_grows(1) [OF f p] g Some show ?thesis by (blast intro: grows_trans)
  qed (use assms in \<open>simp add: current_session_def\<close>)
  then show "grows X jwt d req w w'"
    and "found = Some x \<Longrightarrow> \<exists>k rows. token = Some k \<and>
      (SelectSession k (int now), Inr (Rows ([username x, csrf_token x] # rows))) \<in> set (snd w')" by blast+
qed

subsection \<open>The handlers\<close>

lemma grows_with_db:
  assumes "sh_db s = w0" and "\<And>w r. f w0 = (w, r) \<Longrightarrow> grows X jwt d req w0 w"
    and "\<And>w r. f w0 = (w, r) \<Longrightarrow> grows X jwt d req w (sh_db (fst (k r (s\<lparr>sh_db := w\<rparr>))))"
  shows "grows X jwt d req w0 (sh_db (fst (with_db f s k)))"
proof (cases "f w0")
  case (Pair w r)
  from grows_trans [OF assms(2) [OF Pair] assms(3) [OF Pair]] show ?thesis by (simp add: with_db_def assms(1) Pair)
qed

lemma script_reads:
  fixes s :: "(sql_outcome list \<times> trace) app_shared"
  assumes "act \<notin> {CreateItem, UiLogin, UiCreate}" and "\<forall>i. act \<noteq> RemoveItem i \<and> act \<noteq> UiDelete i"
  shows "grows X jwt d req (sh_db s) (sh_db (fst (perform (with_engine script_engine X) cfg st d act req s)))"
  using assms
  by (cases act)
    (auto simp: h_root_def h_health_def h_ui_root_def h_ui_login_page_def h_metrics_def h_proxy_def h_echo_def h_fib_def
      h_static_def h_auth_token_def h_list_items_def h_get_item_def h_ui_index_def h_ui_logout_def h_ui_items_def
      h_ui_metrics_def Let_def split: option.split sum.split bool.split intro!: grows_with_db
      elim: read_grows verify_user_grows(1) current_session_grows(1))

lemma script_bearer:
  fixes s :: "(sql_outcome list \<times> trace) app_shared"
  assumes "act = CreateItem \<or> act = RemoveItem i"
  shows "grows X (st_jwt st) d req (sh_db s) (sh_db (fst (perform (with_engine script_engine X) cfg st d act req s)))"
proof (cases "require_bearer (with_engine script_engine X) (st_jwt st) (dr_now d) req")
  case (Inr c)
  then have "bearer_valid X (st_jwt st) (dr_now d) req" using require_bearer_Inr by fastforce
  then have p: "permitted X (st_jwt st) d req pre (InsertItem a b c)" "permitted X (st_jwt st) d req pre (DeleteItem a)"
    for pre a b c by simp_all
  from assms Inr show ?thesis
    by (auto simp: h_admin_create_def h_admin_delete_def split: option.split sum.split bool.split
        intro!: grows_with_db intro: write_grows(1) [OF _ p(1)] write_grows(2) [OF _ p(2)])
qed (use assms in \<open>auto simp: h_admin_create_def h_admin_delete_def\<close>)

lemma script_forms:
  fixes s :: "(sql_outcome list \<times> trace) app_shared"
  assumes "act = UiCreate \<or> act = UiDelete i"
  shows "grows X jwt d req (sh_db s) (sh_db (fst (perform (with_engine script_engine X) cfg st d act req s)))"
proof -
  obtain rs t found where cs:
      "current_session script_engine (dr_now d) (session_token (l_http X) req) (sh_db s) = ((rs, t), found)"
    by (metis surj_pair)
  note g = current_session_grows(1) [OF cs, where X = X and jwt = jwt and d = d and req = req]
  obtain name desc where form: "item_form (l_percent_decode_lossy X) (req_body req) = (name, desc)" by fastforce
  show ?thesis
  proof (cases "\<exists>x. found = Some x \<and> csrf_token x = csrf_field req")
    case True
    then have "saw_session X d req (snd (rs, t))"
      using current_session_grows(2) [OF cs] by (fastforce simp: saw_session_def)
    then have p: "permitted X jwt d req (snd (rs, t)) (InsertItem a b c)" "permitted X jwt d req (snd (rs, t)) (DeleteItem a)"
      for a b c by simp_all
    from assms True g show ?thesis
      by (auto simp: h_ui_create_def h_ui_delete_def form Let_def cs split: option.split sum.split
          intro!: grows_with_db)
        (erule read_grows write_grows(1) [OF _ p(1)] write_grows(2) [OF _ p(2)])+
  qed (use assms g in \<open>auto simp: h_ui_create_def h_ui_delete_def with_db_def cs split: option.split\<close>)
qed

lemma script_login:
  fixes s :: "(sql_outcome list \<times> trace) app_shared"
  shows "grows X jwt d req (sh_db s) (sh_db (fst (perform (with_engine script_engine X) cfg st d UiLogin req s)))"
proof -
  obtain user pass where form: "login_form (l_percent_decode_lossy X) (req_body req) = (user, pass)" by fastforce
  obtain rs t res where v: "verify_user script_engine (l_argon2 X) user pass (sh_db s) = ((rs, t), res)" by (metis surj_pair)
  note g = verify_user_grows(1) [OF v, where X = X and jwt = jwt and d = d and req = req]
  show ?thesis
  proof (cases "res = Inr True")
    case True
    then have p: "permitted X jwt d req (snd (rs, t)) (InsertSession (dr_session_token d) user (dr_csrf_token d) e)" for e
      using verify_user_grows(2) [OF v True] form by (fastforce simp: saw_password_def)
    from True g show ?thesis
      by (auto simp: h_ui_login_def form v split: sum.split intro!: grows_with_db)
        (erule write_grows(3) [OF _ p])
  qed (use g in \<open>auto simp: h_ui_login_def form with_db_def v split: sum.split bool.split\<close>)
qed

lemma issued_disciplined: "disciplined X (st_jwt st) d req (issued X cfg st d m req answers)"
proof -
  let ?s = "\<lparr>sh_db = (answers, []), sh_metrics = m\<rparr> :: (sql_outcome list \<times> trace) app_shared"
  have "grows X (st_jwt st) d req (sh_db ?s) (sh_db (fst (perform (with_engine script_engine X) cfg st d act req ?s)))" for act
    by (cases "act \<notin> {CreateItem, UiLogin, UiCreate} \<and> (\<forall>i. act \<noteq> RemoveItem i \<and> act \<noteq> UiDelete i)")
      (blast intro: script_reads script_bearer script_forms script_login)+
  then show ?thesis
    using dispatch_table [of "with_engine script_engine X" cfg st d req ?s]
    by (auto simp: issued_def grows_def)
qed

subsection \<open>Requests that share a database\<close>

record 'h request_run =
  rr_draws :: draws
  rr_metrics :: metrics
  rr_request :: "'h http_request"
  rr_trace :: trace

definition new_run :: "draws \<Rightarrow> metrics \<Rightarrow> 'h http_request \<Rightarrow> 'h request_run" where
  "new_run d m req = \<lparr>rr_draws = d, rr_metrics = m, rr_request = req, rr_trace = []\<rparr>"

inductive interleaved ::
    "('h, 'db, 'ph, 'ek, 'dk, 't, 'f) app_libs \<Rightarrow> server_config \<Rightarrow> ('ek, 'dk, 't, 'h) app_state \<Rightarrow> 'db \<Rightarrow>
     'h request_run list \<Rightarrow> 'db \<Rightarrow> bool"
  for X cfg st db0 where
  start: "interleaved X cfg st db0 [] db0"
| arrive: "interleaved X cfg st db0 rs db \<Longrightarrow> interleaved X cfg st db0 (rs @ [new_run d m req]) db"
| statement: "interleaved X cfg st db0 rs db \<Longrightarrow> i < length rs \<Longrightarrow> r = rs ! i \<Longrightarrow>
    issued X cfg st (rr_draws r) (rr_metrics r) (rr_request r) (map snd (rr_trace r) @ [out]) = rr_trace r @ [(stmt, out)] \<Longrightarrow>
    sql_run (l_sql X) stmt db = (db', out) \<Longrightarrow>
    interleaved X cfg st db0 (rs[i := r\<lparr>rr_trace := rr_trace r @ [(stmt, out)]\<rparr>]) db'"

text \<open>A session of the beginning, or of a request that logged in with the right password.\<close>

definition logged_session ::
    "('h, 'db, 'ph, 'ek, 'dk, 't, 'f) app_libs \<Rightarrow> tables \<Rightarrow> 'h request_run list \<Rightarrow> string \<Rightarrow> session \<Rightarrow> bool" where
  "logged_session X t0 rs k x \<longleftrightarrow>
     (\<exists>e. sessions_of t0 k = Some (x, e)) \<or>
     (\<exists>r \<in> set rs. k = dr_session_token (rr_draws r) \<and> csrf_token x = dr_csrf_token (rr_draws r) \<and>
        login_valid X (rr_request r) t0 (username x))"

definition touches :: "string \<Rightarrow> 'h request_run \<Rightarrow> bool" where
  "touches i r \<longleftrightarrow> (\<exists>(stmt, out) \<in> set (rr_trace r). stmt = DeleteItem i \<or> (\<exists>n ds. stmt = InsertItem i n ds))"

definition may_write ::
    "('h, 'db, 'ph, 'ek, 'dk, 't, 'f) app_libs \<Rightarrow> ('ek, 'dk) jwt_secret \<Rightarrow> tables \<Rightarrow> 'h request_run list \<Rightarrow> 'h request_run \<Rightarrow> bool" where
  "may_write X jwt t0 rs r \<longleftrightarrow>
     bearer_valid X jwt (dr_now (rr_draws r)) (rr_request r) \<or>
     (\<exists>k x. session_token (l_http X) (rr_request r) = Some k \<and> csrf_field (rr_request r) = csrf_token x \<and>
        logged_session X t0 rs k x)"

text \<open>What a run has seen is what the tables of the beginning and the logins since explain.\<close>

definition faithful ::
    "('h, 'db, 'ph, 'ek, 'dk, 't, 'f) app_libs \<Rightarrow> ('ek, 'dk) jwt_secret \<Rightarrow> tables \<Rightarrow> 'h request_run list \<Rightarrow> 'h request_run \<Rightarrow> bool" where
  "faithful X jwt t0 rs r \<longleftrightarrow>
     disciplined X jwt (rr_draws r) (rr_request r) (rr_trace r) \<and>
     (\<forall>u h rows. (SelectPasswordHash u, Inr (Rows ([h] # rows))) \<in> set (rr_trace r) \<longrightarrow> users_of t0 u = Some h) \<and>
     (\<forall>k n u c rows. (SelectSession k n, Inr (Rows ([u, c] # rows))) \<in> set (rr_trace r) \<longrightarrow>
        logged_session X t0 rs k \<lparr>username = u, csrf_token = c\<rparr>)"

definition explained ::
    "('h, 'db, 'ph, 'ek, 'dk, 't, 'f) app_libs \<Rightarrow> ('ek, 'dk) jwt_secret \<Rightarrow> tables \<Rightarrow> 'h request_run list \<Rightarrow> tables \<Rightarrow> bool" where
  "explained X jwt t0 rs t \<longleftrightarrow>
     tables_ok t \<and> tab_users t = tab_users t0 \<and>
     (\<forall>k x e. sessions_of t k = Some (x, e) \<longrightarrow> logged_session X t0 rs k x) \<and>
     (\<forall>i. items_of t i \<noteq> items_of t0 i \<longrightarrow> (\<exists>r \<in> set rs. touches i r)) \<and>
     (\<forall>r \<in> set rs. faithful X jwt t0 rs r)"

text \<open>What one permitted statement can do to the tables.\<close>

lemma permitted_effect:
  assumes "sql_apply clock stmt t = Some (t', reply)" and "permitted X jwt d req pre stmt"
  shows "tab_users t' = tab_users t"
    and "items_of t' i \<noteq> items_of t i \<Longrightarrow> stmt = DeleteItem i \<or> (\<exists>n ds. stmt = InsertItem i n ds)"
    and "sessions_of t' k = Some (x, e) \<Longrightarrow> (\<exists>e0. sessions_of t k = Some (x, e0)) \<or>
      (\<exists>e. stmt = InsertSession k (username x) (csrf_token x) e)"
proof -
  show "tab_users t' = tab_users t"
    using sql_apply_frame(2) [OF assms(1)] assms(2) by (cases stmt) auto
  show "stmt = DeleteItem i \<or> (\<exists>n ds. stmt = InsertItem i n ds)" if "items_of t' i \<noteq> items_of t i"
    using sql_apply_frame(1) [OF assms(1)] that assms items_of_insert [of clock _ _ _ t t' reply] items_of_delete [of clock _ t t' reply]
    by (cases stmt) (auto simp: items_of_def split: if_splits)
  show "(\<exists>e0. sessions_of t k = Some (x, e0)) \<or> (\<exists>e. stmt = InsertSession k (username x) (csrf_token x) e)"
    if "sessions_of t' k = Some (x, e)"
  proof (cases stmt)
    case (InsertSession tok u c e')
    with assms(1) that show ?thesis by (auto dest!: sessions_of_insert split: if_splits)
  next
    case (DeleteSession tok)
    with session_stmt_keeps [OF assms(1)] that show ?thesis by (auto simp: keeps_def no_new_sessions_def)
  next
    case (UpdateSession e' tok)
    with session_stmt_keeps [OF assms(1)] that show ?thesis by (auto simp: keeps_def no_new_sessions_def)
  qed (use sql_apply_frame(3) [OF assms(1)] assms(2) that in \<open>auto simp: sessions_of_def\<close>)
qed

text \<open>Runs only grow.\<close>

definition covers :: "'h request_run list \<Rightarrow> 'h request_run list \<Rightarrow> bool" where
  "covers rs rs' \<longleftrightarrow> (\<forall>r \<in> set rs. \<exists>r' \<in> set rs'. rr_draws r' = rr_draws r \<and> rr_request r' = rr_request r \<and>
     set (rr_trace r) \<subseteq> set (rr_trace r'))"

lemma covers_update: "covers rs (rs[i := (rs ! i)\<lparr>rr_trace := rr_trace (rs ! i) @ t\<rparr>])"
  unfolding covers_def
proof
  fix r
  assume "r \<in> set rs"
  then obtain j where j: "j < length rs" "r = rs ! j" by (auto simp: in_set_conv_nth)
  let ?rs' = "rs[i := (rs ! i)\<lparr>rr_trace := rr_trace (rs ! i) @ t\<rparr>]"
  have "?rs' ! j \<in> set ?rs'" using j(1) by simp
  moreover have "rr_draws (?rs' ! j) = rr_draws r \<and> rr_request (?rs' ! j) = rr_request r \<and>
      set (rr_trace r) \<subseteq> set (rr_trace (?rs' ! j))"
    using j by (cases "i = j") auto
  ultimately show "\<exists>r' \<in> set ?rs'. rr_draws r' = rr_draws r \<and> rr_request r' = rr_request r \<and>
      set (rr_trace r) \<subseteq> set (rr_trace r')" by blast
qed

lemma covers_append: "covers rs (rs @ rs')"
  by (auto simp: covers_def)

lemma covers_mono:
  assumes "covers rs rs'"
  shows "logged_session X t0 rs k x \<Longrightarrow> logged_session X t0 rs' k x"
    and "\<exists>r \<in> set rs. touches i r \<Longrightarrow> \<exists>r \<in> set rs'. touches i r"
    and "faithful X jwt t0 rs r \<Longrightarrow> faithful X jwt t0 rs' r"
proof -
  show logged: "logged_session X t0 rs k x \<Longrightarrow> logged_session X t0 rs' k x" for k x
    using assms unfolding logged_session_def covers_def by metis
  show "\<exists>r \<in> set rs. touches i r \<Longrightarrow> \<exists>r \<in> set rs'. touches i r"
    using assms unfolding touches_def covers_def by blast
  show "faithful X jwt t0 rs r \<Longrightarrow> faithful X jwt t0 rs' r"
    using logged unfolding faithful_def by blast
qed

text \<open>The answers of the database, for the two reads a permission rests on.\<close>

context database
begin

lemma password_answer:
  assumes "sql_run E (SelectPasswordHash u) db = (db', Inr (Rows ([h] # rows)))" and "tables_ok (sql_tables E db)"
  shows "users_of (sql_tables E db) u = Some h"
proof -
  obtain clock where "sql_apply clock (SelectPasswordHash u) (sql_tables E db) = Some (sql_tables E db', Rows ([h] # rows))"
    using run_ok [OF assms(1)] by blast
  from users_of_select [OF this assms(2)] show ?thesis by (auto split: option.splits)
qed

lemma session_answer:
  assumes "sql_run E (SelectSession k n) db = (db', Inr (Rows ([u, c] # rows)))" and "tables_ok (sql_tables E db)"
  shows "\<exists>e. sessions_of (sql_tables E db) k = Some (\<lparr>username = u, csrf_token = c\<rparr>, e) \<and> n < e"
proof -
  obtain clock where "sql_apply clock (SelectSession k n) (sql_tables E db) = Some (sql_tables E db', Rows ([u, c] # rows))"
    using run_ok [OF assms(1)] by blast
  from sessions_of_select [OF this assms(2)] show ?thesis by (auto split: option.splits if_splits)
qed

end

lemma faithful_statement:
  assumes "database (l_sql X)" and "explained X (st_jwt st) t0 rs (sql_tables (l_sql X) db)" and "r \<in> set rs"
    and "issued X cfg st (rr_draws r) (rr_metrics r) (rr_request r) (map snd (rr_trace r) @ [out]) = rr_trace r @ [(stmt, out)]"
    and "sql_run (l_sql X) stmt db = (db', out)"
  shows "faithful X (st_jwt st) t0 rs (r\<lparr>rr_trace := rr_trace r @ [(stmt, out)]\<rparr>)"
proof -
  have old: "faithful X (st_jwt st) t0 rs r" and ok: "tables_ok (sql_tables (l_sql X) db)"
    and users: "users_of (sql_tables (l_sql X) db) = users_of t0"
    and sess: "\<And>k x e. sessions_of (sql_tables (l_sql X) db) k = Some (x, e) \<Longrightarrow> logged_session X t0 rs k x"
    using assms(2,3) by (auto simp: explained_def users_of_def)
  have "disciplined X (st_jwt st) (rr_draws r) (rr_request r) (rr_trace r @ [(stmt, out)])"
    using issued_disciplined assms(4) by metis
  moreover have "users_of t0 u = Some h" if "stmt = SelectPasswordHash u" "out = Inr (Rows ([h] # rows))" for u h rows
    using database.password_answer [OF assms(1) _ ok] assms(5) that users by simp
  moreover have "logged_session X t0 rs k \<lparr>username = u, csrf_token = c\<rparr>"
    if "stmt = SelectSession k n" "out = Inr (Rows ([u, c] # rows))" for k n u c rows
    using database.session_answer [OF assms(1) _ ok] assms(5) that sess by blast
  ultimately show ?thesis using old unfolding faithful_def by simp blast
qed

lemma faithful_login:
  assumes "faithful X jwt t0 rs r" and "saw_password X (rr_request r) (rr_trace r) u"
  shows "login_valid X (rr_request r) t0 u"
  using assms unfolding faithful_def saw_password_def login_valid_def by blast

lemma faithful_session:
  assumes "faithful X jwt t0 rs r" and "saw_session X (rr_draws r) (rr_request r) (rr_trace r)"
  shows "\<exists>k x. session_token (l_http X) (rr_request r) = Some k \<and> csrf_field (rr_request r) = csrf_token x \<and>
    logged_session X t0 rs k x"
proof -
  obtain k u rows where k: "session_token (l_http X) (rr_request r) = Some k"
      "(SelectSession k (int (dr_now (rr_draws r))), Inr (Rows ([u, csrf_field (rr_request r)] # rows))) \<in> set (rr_trace r)"
    using assms(2) unfolding saw_session_def by blast
  with assms(1) have "logged_session X t0 rs k \<lparr>username = u, csrf_token = csrf_field (rr_request r)\<rparr>"
    unfolding faithful_def by blast
  with k(1) show ?thesis by (metis session.select_convs(2))
qed

lemma explained_statement:
  assumes "database (l_sql X)" and "explained X (st_jwt st) t0 rs (sql_tables (l_sql X) db)" and "i < length rs"
    and r: "r = rs ! i"
    and iss: "issued X cfg st (rr_draws r) (rr_metrics r) (rr_request r) (map snd (rr_trace r) @ [out]) = rr_trace r @ [(stmt, out)]"
    and run: "sql_run (l_sql X) stmt db = (db', out)"
  defines "rs' \<equiv> rs[i := r\<lparr>rr_trace := rr_trace r @ [(stmt, out)]\<rparr>]"
  shows "explained X (st_jwt st) t0 rs' (sql_tables (l_sql X) db')"
proof -
  let ?t = "sql_tables (l_sql X) db" and ?t' = "sql_tables (l_sql X) db'"
  let ?r' = "r\<lparr>rr_trace := rr_trace r @ [(stmt, out)]\<rparr>"
  have mem: "r \<in> set rs" "?r' \<in> set rs'" using assms(3) r by (auto simp: rs'_def set_update_memI)
  have cov: "covers rs rs'" unfolding rs'_def r by (rule covers_update)
  note new = faithful_statement [OF assms(1,2) mem(1) iss run]
  then have perm: "permitted X (st_jwt st) (rr_draws r) (rr_request r) (rr_trace r) stmt" by (simp add: faithful_def)
  consider "?t' = ?t" | clock reply where "sql_apply clock stmt ?t = Some (?t', reply)"
    using database.run_cases [OF assms(1) run] by blast
  then have eff: "tables_ok ?t' \<and> tab_users ?t' = tab_users t0 \<and>
      (\<forall>j. items_of ?t' j \<noteq> items_of ?t j \<longrightarrow> touches j ?r') \<and>
      (\<forall>k x e. sessions_of ?t' k = Some (x, e) \<longrightarrow> (\<exists>e0. sessions_of ?t k = Some (x, e0)) \<or>
        (\<exists>e. stmt = InsertSession k (username x) (csrf_token x) e))"
  proof cases
    case 2
    then show ?thesis
      using permitted_effect [OF 2 perm] sql_apply_tables_ok [OF 2] assms(2) by (auto simp: explained_def touches_def)
  qed (use assms(2) in \<open>auto simp: explained_def\<close>)
  have sess: "logged_session X t0 rs' k x" if here: "sessions_of ?t' k = Some (x, e)" for k x e
  proof (cases "\<exists>e0. sessions_of ?t k = Some (x, e0)")
    case True
    then show ?thesis using assms(2) covers_mono(1) [OF cov] unfolding explained_def by blast
  next
    case False
    then obtain e' where "stmt = InsertSession k (username x) (csrf_token x) e'" using eff here by blast
    moreover have "faithful X (st_jwt st) t0 rs r" using assms(2) mem(1) by (simp add: explained_def)
    ultimately show ?thesis
      using perm faithful_login mem(2) unfolding logged_session_def by fastforce
  qed
  have "faithful X (st_jwt st) t0 rs' q" if "q \<in> set rs'" for q
    using that covers_mono(3) [OF cov] new assms(2) set_update_subset_insert [of rs i ?r']
    unfolding rs'_def explained_def by blast
  moreover have "\<exists>q \<in> set rs'. touches j q" if "items_of ?t' j \<noteq> items_of t0 j" for j
    using that eff covers_mono(2) [OF cov] mem(2) assms(2) unfolding explained_def by metis
  ultimately show ?thesis using eff sess by (simp add: explained_def)
qed

lemma faithful_may_write:
  assumes "faithful X jwt t0 rs r" and "touches i r"
  shows "may_write X jwt t0 rs r"
proof -
  obtain j where j: "j < length (rr_trace r)"
      "fst (rr_trace r ! j) = DeleteItem i \<or> (\<exists>n ds. fst (rr_trace r ! j) = InsertItem i n ds)"
    using assms(2) unfolding touches_def by (force simp: in_set_conv_nth)
  then have "permitted X jwt (rr_draws r) (rr_request r) (take j (rr_trace r)) (fst (rr_trace r ! j))"
    using assms(1) by (simp add: faithful_def disciplined_def)
  then have "bearer_valid X jwt (dr_now (rr_draws r)) (rr_request r) \<or>
      saw_session X (rr_draws r) (rr_request r) (take j (rr_trace r))"
    using j(2) by auto
  moreover have "saw_session X (rr_draws r) (rr_request r) (rr_trace r)"
    if "saw_session X (rr_draws r) (rr_request r) (take j (rr_trace r))"
    using that set_take_subset unfolding saw_session_def by fast
  ultimately show ?thesis using faithful_session [OF assms(1)] unfolding may_write_def by blast
qed

lemma explained_start: "tables_ok t0 \<Longrightarrow> explained X jwt t0 [] t0"
  by (auto simp: explained_def logged_session_def)

lemma explained_arrive:
  assumes "explained X jwt t0 rs t"
  shows "explained X jwt t0 (rs @ [new_run d m req]) t"
proof -
  let ?rs' = "rs @ [new_run d m req]"
  have cov: "covers rs ?rs'" by (rule covers_append)
  have "faithful X jwt t0 ?rs' (new_run d m req)" by (simp add: faithful_def new_run_def)
  then have "\<forall>r \<in> set ?rs'. faithful X jwt t0 ?rs' r"
    using assms covers_mono(3) [OF cov, of X jwt t0] unfolding explained_def by auto
  with assms show ?thesis
    unfolding explained_def using covers_mono(1) [OF cov, of X t0] covers_mono(2) [OF cov] by presburger
qed

lemma interleaved_explained:
  assumes "interleaved X cfg st db0 rs db" and "database (l_sql X)" and "tables_ok (sql_tables (l_sql X) db0)"
  shows "explained X (st_jwt st) (sql_tables (l_sql X) db0) rs (sql_tables (l_sql X) db)"
  using assms(1)
proof induction
  case (statement rs db i r out stmt db')
  from explained_statement [OF assms(2) statement.IH statement.hyps(2-5)] show ?case .
qed (simp_all add: explained_start explained_arrive assms(3))

end
