(* ===== verification/Adequacy.thy ===== *)
theory Adequacy
  imports Interleave
begin

text \<open>
  The interleaved system runs the handlers of the source: a request that has the database to itself executes, statement by
  statement, exactly what \<open>dispatch\<close> does, with the same final database, and one that is dropped half-way executes a first
  part of that.

  \<open>mimics\<close> relates an operation over the engine to the same operation over replayed answers and over the engine that is
  cut off; the operations and the handlers are built from it with one rule for each construct.
\<close>

fun chain :: "'db sql_engine \<Rightarrow> 'db \<Rightarrow> trace \<Rightarrow> 'db \<Rightarrow> bool" where
  "chain E db [] db' \<longleftrightarrow> db' = db"
| "chain E db ((stmt, out) # t) db' \<longleftrightarrow> snd (sql_run E stmt db) = out \<and> chain E (fst (sql_run E stmt db)) t db'"

lemma chain_append: "chain E db (t @ t') db' \<longleftrightarrow> (\<exists>db1. chain E db t db1 \<and> chain E db1 t' db')"
  by (induction E db t db' arbitrary: db' rule: chain.induct) auto

text \<open>
  \<open>tracks\<close>: from the database \<open>db\<close> the operation \<open>f\<close> executes the statements of \<open>tr\<close>; \<open>g\<close> issues the same when it
  is given their answers and a first part of them when it is given a first part of the answers; and \<open>c\<close>, cut
  off after some of them, leaves the database where these, and perhaps one more, lead.
\<close>

definition tracks ::
    "'db sql_engine \<Rightarrow> ('db \<Rightarrow> 'db \<times> 'r) \<Rightarrow> (sql_outcome list \<times> trace \<Rightarrow> (sql_outcome list \<times> trace) \<times> 'r) \<Rightarrow>
     ('db \<times> cutoff \<Rightarrow> ('db \<times> cutoff) \<times> 'r) \<Rightarrow> 'db \<Rightarrow> trace \<Rightarrow> bool" where
  "tracks E f g c db tr \<longleftrightarrow>
     chain E db tr (fst (f db)) \<and>
     (\<forall>rest t. g (map snd tr @ rest, t) = ((rest, t @ tr), snd (f db))) \<and>
     (\<forall>n < length tr. \<forall>t. fst (g (take n (map snd tr), t)) = ([], t @ take n tr)) \<and>
     (\<forall>n \<ge> length tr. \<forall>b. c (db, Cut n b) = ((fst (f db), Cut (n - length tr) b), snd (f db))) \<and>
     (\<forall>n < length tr. \<forall>b. \<exists>db'. fst (c (db, Cut n b)) = (db', Dead) \<and> chain E db (take (if b then Suc n else n) tr) db')"

text \<open>An operation that gets no more answers issues nothing.\<close>

definition inert ::
    "(sql_outcome list \<times> trace \<Rightarrow> (sql_outcome list \<times> trace) \<times> 'r) \<Rightarrow> ('db \<times> cutoff \<Rightarrow> ('db \<times> cutoff) \<times> 'r) \<Rightarrow> bool" where
  "inert g c \<longleftrightarrow> (\<forall>t. fst (g ([], t)) = ([], t)) \<and> (\<forall>db. fst (c (db, Dead)) = (db, Dead))"

definition mimics ::
    "'db sql_engine \<Rightarrow> ('db \<Rightarrow> 'db \<times> 'r) \<Rightarrow> (sql_outcome list \<times> trace \<Rightarrow> (sql_outcome list \<times> trace) \<times> 'r) \<Rightarrow>
     ('db \<times> cutoff \<Rightarrow> ('db \<times> cutoff) \<times> 'r) \<Rightarrow> bool" where
  "mimics E f g c \<longleftrightarrow> inert g c \<and> (\<forall>db. \<exists>tr. tracks E f g c db tr)"

lemma mimics_return: "mimics E (\<lambda>db. (db, x)) (\<lambda>w. (w, x)) (\<lambda>dc. (dc, x))"
  by (auto simp: mimics_def inert_def tracks_def intro: exI [of _ "[]"])

lemma mimics_run: "mimics E (sql_run E stmt) (sql_run script_engine stmt) (sql_run (cut_engine E) stmt)"
  unfolding mimics_def
proof (intro conjI allI)
  fix db
  have "sql_run (cut_engine E) stmt (db, Cut n b) =
      ((fst (sql_run E stmt db), Cut (n - Suc 0) b), snd (sql_run E stmt db))" if "Suc 0 \<le> n" for n b
    using that by (cases n) (simp_all add: cut_run split: prod.split)
  then have "tracks E (sql_run E stmt) (sql_run script_engine stmt) (sql_run (cut_engine E) stmt) db
      [(stmt, snd (sql_run E stmt db))]"
    by (simp add: tracks_def script_run cut_run)
  then show "\<exists>tr. tracks E (sql_run E stmt) (sql_run script_engine stmt) (sql_run (cut_engine E) stmt) db tr" ..
qed (simp add: inert_def script_run cut_run)

lemma inert_bind:
  assumes "inert g c" and "\<And>r. inert (l r) (e r)"
  shows "inert (\<lambda>w. case g w of (w', r) \<Rightarrow> l r w') (\<lambda>dc. case c dc of (dc', r) \<Rightarrow> e r dc')"
  using assms unfolding inert_def by (metis (mono_tags, lifting) prod.case_eq_if)

lemma tracks_bind:
  assumes "tracks E f g c db tr1" and "f db = (db1, r)" and "tracks E (k r) (l r) (e r) db1 tr2" and "\<And>r. inert (l r) (e r)"
  shows "tracks E (\<lambda>db. case f db of (db', r) \<Rightarrow> k r db') (\<lambda>w. case g w of (w', r) \<Rightarrow> l r w')
    (\<lambda>dc. case c dc of (dc', r) \<Rightarrow> e r dc') db (tr1 @ tr2)"
proof -
  note 1 = assms(1) [unfolded tracks_def assms(2) fst_conv snd_conv] and 2 = assms(3) [unfolded tracks_def]
  have inert: "fst (l q ([], t)) = ([], t)" "fst (e q (db, Dead)) = (db, Dead)" for q t db
    using assms(4) by (simp_all add: inert_def)
  have cut: "fst (case g (take n (map snd (tr1 @ tr2)), t) of (w', r) \<Rightarrow> l r w') = ([], t @ take n (tr1 @ tr2))"
    if n: "n < length (tr1 @ tr2)" for n t
  proof (cases "n < length tr1")
    case True
    then have "fst (g (take n (map snd tr1), t)) = ([], t @ take n tr1)" using 1 by blast
    then show ?thesis using True inert(1) by (cases "g (take n (map snd tr1), t)") simp
  next
    case False
    have "g (map snd tr1 @ take (n - length tr1) (map snd tr2), t) = ((take (n - length tr1) (map snd tr2), t @ tr1), r)"
      using 1 by blast
    moreover have "fst (l r (take (n - length tr1) (map snd tr2), t @ tr1)) = ([], (t @ tr1) @ take (n - length tr1) tr2)"
      using 2 False n by auto
    ultimately show ?thesis using False by simp
  qed
  have "\<exists>db'. fst (case c (db, Cut n b) of (dc', r) \<Rightarrow> e r dc') = (db', Dead) \<and>
      chain E db (take (if b then Suc n else n) (tr1 @ tr2)) db'" if n: "n < length (tr1 @ tr2)" for n b
  proof (cases "n < length tr1")
    case True
    then obtain db' where "fst (c (db, Cut n b)) = (db', Dead)" "chain E db (take (if b then Suc n else n) tr1) db'"
      using 1 by blast
    then show ?thesis using True inert(2) by (cases "c (db, Cut n b)") auto
  next
    case False
    then have "n - length tr1 < length tr2" using n by auto
    then obtain db' where db': "fst (e r (db1, Cut (n - length tr1) b)) = (db', Dead)"
        "chain E db1 (take (if b then Suc (n - length tr1) else n - length tr1) tr2) db'"
      using 2 by blast
    have c: "c (db, Cut n b) = ((db1, Cut (n - length tr1) b), r)" and "chain E db tr1 db1" using 1 False by auto
    with db'(2) have "chain E db (tr1 @ take (if b then Suc (n - length tr1) else n - length tr1) tr2) db'"
      unfolding chain_append by blast
    moreover have "take (if b then Suc n else n) (tr1 @ tr2) =
        tr1 @ take (if b then Suc (n - length tr1) else n - length tr1) tr2"
      using False by (simp add: Suc_diff_le)
    ultimately show ?thesis using c db'(1) by simp
  qed
  with 1 2 cut show ?thesis unfolding tracks_def by (auto simp: chain_append assms(2))
qed

lemma mimics_bind:
  assumes "mimics E f g c" and "\<And>r. mimics E (k r) (l r) (e r)"
  shows "mimics E (\<lambda>db. case f db of (db', r) \<Rightarrow> k r db') (\<lambda>w. case g w of (w', r) \<Rightarrow> l r w')
    (\<lambda>dc. case c dc of (dc', r) \<Rightarrow> e r dc')"
  using assms inert_bind tracks_bind unfolding mimics_def by (metis surj_pair)

lemma try_then_bind:
  "try_then q k = (case q of (db, r) \<Rightarrow> (case r of Inl e \<Rightarrow> \<lambda>db. (db, Inl e) | Inr x \<Rightarrow> k x) db)"
  by (simp add: try_then_def split: prod.split sum.split)

lemma mimics_try_then:
  assumes "mimics E f g c" and "\<And>x. mimics E (k x) (l x) (e x)"
  shows "mimics E (\<lambda>db. try_then (f db) k) (\<lambda>w. try_then (g w) l) (\<lambda>dc. try_then (c dc) e)"
  unfolding try_then_bind
  by (rule mimics_bind [OF assms(1)]) (simp add: mimics_return assms(2) split: sum.split)

text \<open>One rule for each way of branching on a value that does not depend on the database.\<close>

lemma mimics_cases:
  "(b \<Longrightarrow> mimics E f1 g1 c1) \<Longrightarrow> (\<not> b \<Longrightarrow> mimics E f2 g2 c2) \<Longrightarrow>
     mimics E (\<lambda>s. if b then f1 s else f2 s) (\<lambda>s. if b then g1 s else g2 s) (\<lambda>s. if b then c1 s else c2 s)"
  "(o1 = None \<Longrightarrow> mimics E f1 g1 c1) \<Longrightarrow> (\<And>x. o1 = Some x \<Longrightarrow> mimics E (f3 x) (g3 x) (c3 x)) \<Longrightarrow>
     mimics E (\<lambda>s. case o1 of None \<Rightarrow> f1 s | Some x \<Rightarrow> f3 x s) (\<lambda>s. case o1 of None \<Rightarrow> g1 s | Some x \<Rightarrow> g3 x s)
       (\<lambda>s. case o1 of None \<Rightarrow> c1 s | Some x \<Rightarrow> c3 x s)"
  "(\<And>x. s1 = Inl x \<Longrightarrow> mimics E (f4 x) (g4 x) (c4 x)) \<Longrightarrow> (\<And>x. s1 = Inr x \<Longrightarrow> mimics E (f5 x) (g5 x) (c5 x)) \<Longrightarrow>
     mimics E (\<lambda>s. case s1 of Inl x \<Rightarrow> f4 x s | Inr x \<Rightarrow> f5 x s) (\<lambda>s. case s1 of Inl x \<Rightarrow> g4 x s | Inr x \<Rightarrow> g5 x s)
       (\<lambda>s. case s1 of Inl x \<Rightarrow> c4 x s | Inr x \<Rightarrow> c5 x s)"
  by (cases b; simp) ((cases o1; simp), (cases s1; simp))

lemmas mimics_rules = mimics_return mimics_run mimics_try_then mimics_cases

lemma mimics_ops:
  "mimics E (execute E stmt) (execute script_engine stmt) (execute (cut_engine E) stmt)"
  "mimics E (fetch_all E f stmt) (fetch_all script_engine f stmt) (fetch_all (cut_engine E) f stmt)"
  "mimics E (fetch_optional E f stmt) (fetch_optional script_engine f stmt) (fetch_optional (cut_engine E) f stmt)"
  unfolding execute_def fetch_all_def fetch_optional_def by (intro mimics_rules)+

lemma mimics_db:
  "mimics E (list_items E) (list_items script_engine) (list_items (cut_engine E))"
  "mimics E (get_item E i) (get_item script_engine i) (get_item (cut_engine E) i)"
  "mimics E (create_item E i n ds) (create_item script_engine i n ds) (create_item (cut_engine E) i n ds)"
  "mimics E (delete_item E i) (delete_item script_engine i) (delete_item (cut_engine E) i)"
  "mimics E (verify_user E A u p) (verify_user script_engine A u p) (verify_user (cut_engine E) A u p)"
  "mimics E (session_create E tok cs now u) (session_create script_engine tok cs now u) (session_create (cut_engine E) tok cs now u)"
  "mimics E (session_get E now tok) (session_get script_engine now tok) (session_get (cut_engine E) now tok)"
  "mimics E (session_remove E tok) (session_remove script_engine tok) (session_remove (cut_engine E) tok)"
  unfolding list_items_def get_item_def create_item_def delete_item_def verify_user_def session_create_def session_get_def
    session_remove_def
  by (intro mimics_rules mimics_ops)+

lemma mimics_current_session:
  "mimics E (current_session E now token) (current_session script_engine now token) (current_session (cut_engine E) now token)"
proof (cases token)
  case (Some t)
  have "mimics E (\<lambda>db. case session_get E (int now) t db of (db', res) \<Rightarrow> (db', Option.bind (result_ok res) id))
      (\<lambda>w. case session_get script_engine (int now) t w of (w', res) \<Rightarrow> (w', Option.bind (result_ok res) id))
      (\<lambda>dc. case session_get (cut_engine E) (int now) t dc of (dc', res) \<Rightarrow> (dc', Option.bind (result_ok res) id))"
    by (rule mimics_bind [OF mimics_db(7) mimics_return])
  with Some show ?thesis by (simp add: current_session_def [abs_def])
qed (simp add: current_session_def [abs_def] mimics_return)

subsection \<open>Handlers\<close>

definition on_db :: "metrics \<Rightarrow> ('db app_shared \<Rightarrow> 'db app_shared \<times> 'a) \<Rightarrow> 'db \<Rightarrow> 'db \<times> 'a" where
  "on_db m h db = (case h \<lparr>sh_db = db, sh_metrics = m\<rparr> of (s, resp) \<Rightarrow> (sh_db s, resp))"

definition handler_mimics ::
    "'db sql_engine \<Rightarrow> metrics \<Rightarrow> ('db app_shared \<Rightarrow> 'db app_shared \<times> 'a) \<Rightarrow>
     ((sql_outcome list \<times> trace) app_shared \<Rightarrow> (sql_outcome list \<times> trace) app_shared \<times> 'a) \<Rightarrow>
     (('db \<times> cutoff) app_shared \<Rightarrow> ('db \<times> cutoff) app_shared \<times> 'a) \<Rightarrow> bool" where
  "handler_mimics E m f g c \<longleftrightarrow> mimics E (on_db m f) (on_db m g) (on_db m c)"

lemma handler_read_metrics:
  "handler_mimics E m (\<lambda>s. (s, F (sh_metrics s))) (\<lambda>s. (s, F (sh_metrics s))) (\<lambda>s. (s, F (sh_metrics s)))"
  using mimics_return [of E "F m"] by (simp add: handler_mimics_def on_db_def [abs_def])

lemma handler_return: "handler_mimics E m (\<lambda>s. (s, x)) (\<lambda>s. (s, x)) (\<lambda>s. (s, x))"
  by (rule handler_read_metrics)

lemma handler_with_db:
  assumes "mimics E f g c" and "\<And>r. handler_mimics E m (k r) (l r) (e r)"
  shows "handler_mimics E m (\<lambda>s. with_db f s k) (\<lambda>s. with_db g s l) (\<lambda>s. with_db c s e)"
proof -
  have "mimics E (\<lambda>db. case f db of (db', r) \<Rightarrow> on_db m (k r) db') (\<lambda>w. case g w of (w', r) \<Rightarrow> on_db m (l r) w')
      (\<lambda>dc. case c dc of (dc', r) \<Rightarrow> on_db m (e r) dc')"
    by (rule mimics_bind [OF assms(1)]) (rule assms(2) [unfolded handler_mimics_def])
  then show ?thesis by (simp add: handler_mimics_def on_db_def [abs_def] with_db_def case_prod_beta)
qed

lemma handler_cases:
  "(b \<Longrightarrow> handler_mimics E m f1 g1 c1) \<Longrightarrow> (\<not> b \<Longrightarrow> handler_mimics E m f2 g2 c2) \<Longrightarrow>
     handler_mimics E m (\<lambda>s. if b then f1 s else f2 s) (\<lambda>s. if b then g1 s else g2 s) (\<lambda>s. if b then c1 s else c2 s)"
  "(b \<Longrightarrow> handler_mimics E m f1 g1 c1) \<Longrightarrow> (\<not> b \<Longrightarrow> handler_mimics E m f2 g2 c2) \<Longrightarrow>
     handler_mimics E m (\<lambda>s. case b of True \<Rightarrow> f1 s | False \<Rightarrow> f2 s) (\<lambda>s. case b of True \<Rightarrow> g1 s | False \<Rightarrow> g2 s)
       (\<lambda>s. case b of True \<Rightarrow> c1 s | False \<Rightarrow> c2 s)"
  "(o1 = None \<Longrightarrow> handler_mimics E m f1 g1 c1) \<Longrightarrow> (\<And>x. o1 = Some x \<Longrightarrow> handler_mimics E m (f3 x) (g3 x) (c3 x)) \<Longrightarrow>
     handler_mimics E m (\<lambda>s. case o1 of None \<Rightarrow> f1 s | Some x \<Rightarrow> f3 x s) (\<lambda>s. case o1 of None \<Rightarrow> g1 s | Some x \<Rightarrow> g3 x s)
       (\<lambda>s. case o1 of None \<Rightarrow> c1 s | Some x \<Rightarrow> c3 x s)"
  "(\<And>x. s1 = Inl x \<Longrightarrow> handler_mimics E m (f4 x) (g4 x) (c4 x)) \<Longrightarrow> (\<And>x. s1 = Inr x \<Longrightarrow> handler_mimics E m (f5 x) (g5 x) (c5 x)) \<Longrightarrow>
     handler_mimics E m (\<lambda>s. case s1 of Inl x \<Rightarrow> f4 x s | Inr x \<Rightarrow> f5 x s) (\<lambda>s. case s1 of Inl x \<Rightarrow> g4 x s | Inr x \<Rightarrow> g5 x s)
       (\<lambda>s. case s1 of Inl x \<Rightarrow> c4 x s | Inr x \<Rightarrow> c5 x s)"
  "(\<And>x y. p1 = (x, y) \<Longrightarrow> handler_mimics E m (f6 x y) (g6 x y) (c6 x y)) \<Longrightarrow>
     handler_mimics E m (\<lambda>s. case p1 of (x, y) \<Rightarrow> f6 x y s) (\<lambda>s. case p1 of (x, y) \<Rightarrow> g6 x y s) (\<lambda>s. case p1 of (x, y) \<Rightarrow> c6 x y s)"
  by (cases b; simp) ((cases b; simp), (cases o1; simp), (cases s1; simp), (cases p1; simp))

lemmas handler_rules = handler_return handler_with_db handler_cases mimics_db mimics_current_session

lemma with_engine_responses [simp]:
  "respond_json (with_engine E X) v b = respond_json X v b"
  "require_bearer (with_engine E X) jwt now req = require_bearer X jwt now req"
  by (simp_all add: respond_json_def require_bearer_def cong: option.case_cong sum.case_cong)

lemmas handler_defs = perform.simps [abs_def] h_root_def [abs_def] h_health_def [abs_def] h_ui_root_def [abs_def]
  h_ui_login_page_def [abs_def] h_proxy_def [abs_def] h_echo_def [abs_def] h_fib_def [abs_def] h_static_def [abs_def]
  h_auth_token_def [abs_def] h_list_items_def [abs_def] h_get_item_def [abs_def] h_ui_index_def [abs_def]
  h_ui_logout_def [abs_def] h_ui_items_def [abs_def] h_admin_create_def [abs_def] h_admin_delete_def [abs_def]
  h_ui_login_def [abs_def] h_ui_create_def [abs_def] h_ui_delete_def [abs_def] h_metrics_def [abs_def]
  h_ui_metrics_def [abs_def]

lemma perform_mimics:
  "handler_mimics (l_sql X) m (perform X cfg st d act req) (perform (with_engine script_engine X) cfg st d act req)
     (perform (cut_libs X) cfg st d act req)"
  unfolding cut_libs_def
proof (cases act)
  case MetricsText
  then show "handler_mimics (l_sql X) m (perform X cfg st d act req) (perform (with_engine script_engine X) cfg st d act req)
      (perform (with_engine (cut_engine (l_sql X)) X) cfg st d act req)"
    by (simp only: handler_defs with_engine_simps) (intro handler_read_metrics)
next
  case UiMetrics
  then show "handler_mimics (l_sql X) m (perform X cfg st d act req) (perform (with_engine script_engine X) cfg st d act req)
      (perform (with_engine (cut_engine (l_sql X)) X) cfg st d act req)"
    by (simp only: handler_defs with_engine_simps Let_def) (intro handler_with_db mimics_current_session handler_read_metrics)
qed (simp_all only: handler_defs Let_def with_engine_simps with_engine_responses, (intro handler_rules)+)

lemma dispatch_on_db:
  "on_db m (perform X cfg st d (route_of (has_ui st) (has_proxy cfg st) (req_method req) (path_segments (path req))) req) db =
     (sh_db (fst (dispatch (l_http X) (build_router X cfg st d) req \<lparr>sh_db = db, sh_metrics = m\<rparr>)),
      snd (dispatch (l_http X) (build_router X cfg st d) req \<lparr>sh_db = db, sh_metrics = m\<rparr>))"
  by (simp only: on_db_def dispatch_table case_prod_beta)

lemma tracks_dropped:
  assumes "tracks E f g c db tr" and "inert g c"
  shows "\<exists>n \<le> length tr. chain E db (take n tr) (fst (fst (c (db, co))))"
proof (cases co)
  case (Cut k b)
  show ?thesis
  proof (cases "k < length tr")
    case True
    then obtain db' where "fst (c (db, Cut k b)) = (db', Dead)" "chain E db (take (if b then Suc k else k) tr) db'"
      using assms(1) unfolding tracks_def by blast
    with True show ?thesis unfolding Cut by (intro exI [of _ "if b then Suc k else k"]) simp
  next
    case False
    then show ?thesis using assms(1) unfolding Cut tracks_def by (intro exI [of _ "length tr"]) simp
  qed
qed (use assms(2) in \<open>auto simp: inert_def intro: exI [of _ 0]\<close>)

text \<open>The statements of a dispatched request, and of the same request when it is dropped.\<close>

definition statements ::
    "('h, 'db, 'ph, 'ek, 'dk, 't, 'f) app_libs \<Rightarrow> server_config \<Rightarrow> ('ek, 'dk, 't, 'h) app_state \<Rightarrow> draws \<Rightarrow> metrics \<Rightarrow>
     'h http_request \<Rightarrow> 'db \<Rightarrow> trace \<Rightarrow> bool" where
  "statements X cfg st d m req db tr \<longleftrightarrow>
     (let (s', resp) = dispatch (l_http X) (build_router X cfg st d) req \<lparr>sh_db = db, sh_metrics = m\<rparr> in
      chain (l_sql X) db tr (sh_db s') \<and>
      (\<forall>n \<le> length tr. issued X cfg st d m req (take n (map snd tr)) = take n tr) \<and>
      snd (dispatch (l_http X) (build_router (with_engine script_engine X) cfg st d) req
        \<lparr>sh_db = (map snd tr, []), sh_metrics = m\<rparr>) = resp \<and>
      (\<forall>c. \<exists>n \<le> length tr. chain (l_sql X) db (take n tr)
        (sh_db (dropped_dispatch X cfg st d c req \<lparr>sh_db = db, sh_metrics = m\<rparr>))))"

lemma statements_ex: "\<exists>tr. statements X cfg st d m req db tr"
proof -
  let ?act = "route_of (has_ui st) (has_proxy cfg st) (req_method req) (path_segments (path req))"
  let ?f = "on_db m (perform X cfg st d ?act req)" and ?g = "on_db m (perform (with_engine script_engine X) cfg st d ?act req)"
    and ?c = "on_db m (perform (cut_libs X) cfg st d ?act req)"
  have mim: "mimics (l_sql X) ?f ?g ?c" using perform_mimics unfolding handler_mimics_def .
  then obtain tr where tracks: "tracks (l_sql X) ?f ?g ?c db tr" unfolding mimics_def by blast
  note tr = tracks [unfolded tracks_def]
  have g: "issued X cfg st d m req answers = snd (fst (?g (answers, [])))" for answers
    using dispatch_on_db [of m "with_engine script_engine X" cfg st d req "(answers, [])"] by (simp add: issued_def)
  have whole: "?g (map snd tr, []) = (([], tr), snd (?f db))" using tr by (metis append_Nil append_Nil2)
  have "issued X cfg st d m req (take n (map snd tr)) = take n tr" if "n \<le> length tr" for n
    unfolding g using that whole tr by (cases "n = length tr") auto
  moreover have "\<exists>n \<le> length tr. chain (l_sql X) db (take n tr)
      (sh_db (dropped_dispatch X cfg st d c req \<lparr>sh_db = db, sh_metrics = m\<rparr>))" for c
    using dispatch_on_db [of m "cut_libs X" cfg st d req "(db, c)"] tracks_dropped [OF tracks, of c] mim
    by (simp add: dropped_dispatch_def cut_libs_def mimics_def)
  moreover have "snd (dispatch (l_http X) (build_router (with_engine script_engine X) cfg st d) req
      \<lparr>sh_db = (map snd tr, []), sh_metrics = m\<rparr>) = snd (?f db)"
    using dispatch_on_db [of m "with_engine script_engine X" cfg st d req "(map snd tr, [])"] whole by simp
  ultimately have "statements X cfg st d m req db tr"
    using tr unfolding statements_def dispatch_on_db by (simp add: case_prod_beta)
  then show ?thesis ..
qed

lemma chain_interleaved:
  assumes "interleaved X cfg st db0 rs db"
    and "\<And>n. n \<le> length tr \<Longrightarrow> issued X cfg st d m req (take n (map snd tr)) = take n tr"
    and "n \<le> length tr" and "chain (l_sql X) db (take n tr) db'"
  shows "interleaved X cfg st db0 (rs @ [(new_run d m req)\<lparr>rr_trace := take n tr\<rparr>]) db'"
  using assms(3,4)
proof (induction n arbitrary: db')
  case 0
  then show ?case using interleaved.arrive [OF assms(1), of d m req] by (simp add: new_run_def)
next
  case (Suc n)
  obtain stmt out where nth: "tr ! n = (stmt, out)" by fastforce
  have take: "take (Suc n) tr = take n tr @ [(stmt, out)]" using Suc.prems(1) nth by (simp add: take_Suc_conv_app_nth)
  then obtain db1 where db1: "chain (l_sql X) db (take n tr) db1" "sql_run (l_sql X) stmt db1 = (db', out)"
    using Suc.prems(2) by (auto simp: chain_append prod_eq_iff)
  let ?r = "(new_run d m req)\<lparr>rr_trace := take n tr\<rparr>"
  have "issued X cfg st d m req (map snd (take n tr) @ [out]) = take n tr @ [(stmt, out)]"
    using assms(2) [OF Suc.prems(1)] unfolding take_map take by simp
  then have "interleaved X cfg st db0 ((rs @ [?r])[length rs := ?r\<lparr>rr_trace := rr_trace ?r @ [(stmt, out)]\<rparr>]) db'"
    using Suc.IH [OF _ db1(1)] Suc.prems(1) db1(2)
    by (intro interleaved.statement [where i = "length rs"]) (auto simp: new_run_def)
  then show ?case by (simp add: take)
qed

lemma dispatch_interleaved:
  assumes "interleaved X cfg st db0 rs db"
    and "dispatch (l_http X) (build_router X cfg st d) req \<lparr>sh_db = db, sh_metrics = m\<rparr> = (s', resp)"
  shows "\<exists>tr. interleaved X cfg st db0 (rs @ [(new_run d m req)\<lparr>rr_trace := tr\<rparr>]) (sh_db s') \<and>
    snd (dispatch (l_http X) (build_router (with_engine script_engine X) cfg st d) req
      \<lparr>sh_db = (map snd tr, []), sh_metrics = m\<rparr>) = resp \<and>
    (\<forall>c. \<exists>n \<le> length tr. interleaved X cfg st db0 (rs @ [(new_run d m req)\<lparr>rr_trace := take n tr\<rparr>])
      (sh_db (dropped_dispatch X cfg st d c req \<lparr>sh_db = db, sh_metrics = m\<rparr>)))"
proof -
  obtain tr where "statements X cfg st d m req db tr" using statements_ex [of X cfg st d m req db] by (elim exE)
  then have tr: "chain (l_sql X) db tr (sh_db s')" "\<And>n. n \<le> length tr \<Longrightarrow> issued X cfg st d m req (take n (map snd tr)) = take n tr"
      "snd (dispatch (l_http X) (build_router (with_engine script_engine X) cfg st d) req
        \<lparr>sh_db = (map snd tr, []), sh_metrics = m\<rparr>) = resp"
      "\<And>c. \<exists>n \<le> length tr. chain (l_sql X) db (take n tr)
        (sh_db (dropped_dispatch X cfg st d c req \<lparr>sh_db = db, sh_metrics = m\<rparr>))"
    unfolding statements_def assms(2) by simp_all
  note inter = chain_interleaved [OF assms(1) tr(2)]
  have "interleaved X cfg st db0 (rs @ [(new_run d m req)\<lparr>rr_trace := tr\<rparr>]) (sh_db s')"
    using inter [of "length tr"] tr(1) by simp
  moreover have "\<exists>n \<le> length tr. interleaved X cfg st db0 (rs @ [(new_run d m req)\<lparr>rr_trace := take n tr\<rparr>])
      (sh_db (dropped_dispatch X cfg st d c req \<lparr>sh_db = db, sh_metrics = m\<rparr>))" for c
    using tr(4) [of c] inter by blast
  ultimately show ?thesis using tr(3) by blast
qed

subsection \<open>Properties\<close>

text \<open>
  C2: Safety under concurrency.  Any number of requests run at the same time and share the database; their statements are
  executed in any order, any of them may fail or lose its answer, and any request may be abandoned after any statement.
  Whatever happens, the accounts are those of the beginning and the primary keys hold; every stored session was there at the
  beginning or belongs to a request that sent the right password of its user, with the token and the CSRF token drawn
  for that request; and an item differs from the beginning only if some request issued a statement on it, which
  every such request did with a valid bearer token or with a session of one of those two kinds and its CSRF token.
\<close>

theorem interleaved_traceback:
  assumes "database (l_sql X)" and "tables_ok (sql_tables (l_sql X) db0)" and "interleaved X cfg st db0 rs db"
  shows "tables_ok (sql_tables (l_sql X) db) \<and> tab_users (sql_tables (l_sql X) db) = tab_users (sql_tables (l_sql X) db0) \<and>
    (\<forall>k x e. sessions_of (sql_tables (l_sql X) db) k = Some (x, e) \<longrightarrow>
       logged_session X (sql_tables (l_sql X) db0) rs k x) \<and>
    (\<forall>i. items_of (sql_tables (l_sql X) db) i \<noteq> items_of (sql_tables (l_sql X) db0) i \<longrightarrow>
       (\<exists>r \<in> set rs. touches i r)) \<and>
    (\<forall>r \<in> set rs. \<forall>i. touches i r \<longrightarrow> may_write X (st_jwt st) (sql_tables (l_sql X) db0) rs r)"
proof -
  have "explained X (st_jwt st) (sql_tables (l_sql X) db0) rs (sql_tables (l_sql X) db)"
    by (rule interleaved_explained [OF assms(3,1,2)])
  then show ?thesis unfolding explained_def by (blast intro: faithful_may_write)
qed

lemma demo_interleaved:
  "\<exists>tr. interleaved demo_libs demo_config demo_state (empty_tables, 0) [(new_run demo_draws metrics_new demo_create)\<lparr>rr_trace := tr\<rparr>]
     (empty_tables\<lparr>tab_items := Some [\<lparr>row_id = ''i'', row_name = ''n'', row_description = ''d'', row_created_at = 0\<rparr>]\<rparr>, 1)"
  using dispatch_interleaved [where X = demo_libs and db = "(empty_tables, 0)" and rs = "[]" and m = metrics_new, OF interleaved.start]
    demo_create_dispatch
  by (fastforce simp: demo_shared_def)

theorem interleaved_traceback_witness:
  "\<exists>rs db. interleaved demo_libs demo_config demo_state (empty_tables, 0) rs db \<and> items_of (fst db) ''i'' = Some (''n'', ''d'') \<and>
     (\<exists>r \<in> set rs. touches ''i'' r \<and> may_write demo_libs (st_jwt demo_state) empty_tables rs r)"
proof -
  obtain rs db where run: "interleaved demo_libs demo_config demo_state (empty_tables, 0) rs db"
    and db: "db = (empty_tables\<lparr>tab_items := Some [\<lparr>row_id = ''i'', row_name = ''n'', row_description = ''d'', row_created_at = 0\<rparr>]\<rparr>, 1)"
    using demo_interleaved by blast
  have E: "database (l_sql demo_libs)" and ok: "tables_ok (sql_tables (l_sql demo_libs) (empty_tables, 0))"
    by (simp_all add: mem.database_axioms tables_ok_def empty_tables_def)
  have items: "items_of (fst db) ''i'' = Some (''n'', ''d'')" "items_of empty_tables ''i'' = None"
    by (simp_all add: db items_of_def empty_tables_def)
  note g = interleaved_traceback [OF E ok run, simplified]
  have "items_of (fst db) ''i'' \<noteq> items_of empty_tables ''i''" using items by simp
  then obtain r where r: "r \<in> set rs" "touches ''i'' r" using g by blast
  then have "may_write demo_libs (st_jwt demo_state) empty_tables rs r" using g by blast
  with r run items(1) show ?thesis by blast
qed



end
