(* ===== verification/Lifetime.thy ===== *)
theory Lifetime
  imports Server Runs Service Adequacy
begin

text \<open>
  The server from its start on.  Start-up (\<open>Server\<close>) leaves a database with its three tables and the administrator; the
  requests that follow, ordered one after the other through all the layers (\<open>Runs\<close>) or with their statements interleaved
  (\<open>Interleave\<close>), keep it well-formed, and whatever it holds at any time goes back to the database that was opened or to
  a request that was allowed to put it there.
\<close>

subsection \<open>Well-formed tables\<close>

text \<open>The three tables exist, their primary keys hold, and every session belongs to an account.\<close>

definition sessions_owned :: "tables \<Rightarrow> bool" where
  "sessions_owned t \<longleftrightarrow> list_all (\<lambda>r. users_of t (row_session_user r) \<noteq> None) (unwrap_or (tab_sessions t) [])"

definition well_formed :: "tables \<Rightarrow> bool" where
  "well_formed t \<longleftrightarrow> schema_ok t \<and> tables_ok t \<and> sessions_owned t"

lemma sessions_of_row:
  assumes "tables_ok t" and "r \<in> set (unwrap_or (tab_sessions t) [])"
  shows "sessions_of t (row_token r) =
    Some (\<lparr>username = row_session_user r, csrf_token = row_csrf_token r\<rparr>, row_expires_at r)"
  using assms unfolding sessions_of_def tables_ok_def by (auto simp: map_of_eq_Some_iff comp_def)

lemma sessions_owned_iff:
  assumes "tables_ok t"
  shows "sessions_owned t \<longleftrightarrow> (\<forall>k x e. sessions_of t k = Some (x, e) \<longrightarrow> users_of t (username x) \<noteq> None)"
proof
  assume "sessions_owned t"
  then show "\<forall>k x e. sessions_of t k = Some (x, e) \<longrightarrow> users_of t (username x) \<noteq> None"
    unfolding sessions_owned_def list_all_iff sessions_of_def by (auto dest!: map_of_SomeD)
next
  assume "\<forall>k x e. sessions_of t k = Some (x, e) \<longrightarrow> users_of t (username x) \<noteq> None"
  then show "sessions_owned t"
    using sessions_of_row [OF assms] unfolding sessions_owned_def list_all_iff by fastforce
qed

lemma interleaved_schema:
  assumes "interleaved X cfg st db0 rs db" and "database (l_sql X)" and "schema_ok (sql_tables (l_sql X) db0)"
  shows "schema_ok (sql_tables (l_sql X) db)"
  using assms(1)
proof induction
  case (statement rs db i r out stmt db')
  from database.run_cases [OF assms(2) statement.hyps(5)] statement.IH sql_apply_schema show ?case by metis
qed (simp_all add: assms(3))

lemma interleaved_well_formed:
  assumes "interleaved X cfg st db0 rs db" and "database (l_sql X)" and "well_formed (sql_tables (l_sql X) db0)"
  shows "well_formed (sql_tables (l_sql X) db)"
proof -
  let ?old = "sql_tables (l_sql X) db0" and ?t = "sql_tables (l_sql X) db"
  have ok: "tables_ok ?old" and owned: "sessions_owned ?old" and schema: "schema_ok ?t"
    using assms(3) interleaved_schema [OF assms(1,2)] by (simp_all add: well_formed_def)
  have ex: "explained X (st_jwt st) ?old rs ?t" by (rule interleaved_explained [OF assms(1,2) ok])
  then have "users_of ?t = users_of ?old" and ok': "tables_ok ?t" by (simp_all add: explained_def users_of_def)
  moreover have "users_of ?old (username x) \<noteq> None" if "sessions_of ?t k = Some (x, e)" for k x e
  proof -
    from ex that have "logged_session X ?old rs k x" unfolding explained_def by blast
    then show ?thesis
      using owned [unfolded sessions_owned_iff [OF ok]] unfolding logged_session_def login_valid_def by blast
  qed
  ultimately show ?thesis using schema by (simp add: well_formed_def sessions_owned_iff)
qed

lemma started_from_facts:
  assumes "started_from t0 u h t" and "tables_ok t0"
  shows "schema_ok t" and "tables_ok t" and "items_of t = items_of t0" and "sessions_of t = sessions_of t0"
    and "users_of t v = (if v = u \<and> users_of t0 u = None then Some h else users_of t0 v)"
    and "sessions_owned t0 \<Longrightarrow> sessions_owned t"
proof -
  show ok: "schema_ok t" "tables_ok t" "items_of t = items_of t0" and sess: "sessions_of t = sessions_of t0"
    and users: "users_of t v = (if v = u \<and> users_of t0 u = None then Some h else users_of t0 v)" for v
    using assms by (auto simp: started_from_def schema_ok_def items_of_def sessions_of_def)
  show "sessions_owned t" if "sessions_owned t0"
    using that sess users by (auto simp: sessions_owned_iff assms(2) ok(2))
qed

subsection \<open>Properties\<close>

text \<open>
  C7: The database of a running server is well-formed.  A server that started on a database with its primary keys in order,
  and sessions that belong to accounts, has all three tables from then on, unique keys in each of them, and every
  session belongs to an account, however the statements of its requests interleave and wherever requests are abandoned.
\<close>

theorem database_well_formed:
  assumes "database (l_sql X)"
    and "start_server S X P postgres T build_client cfg password_hash salt local_addr = Inr sr"
    and "open_pool P postgres (cfg_db_url cfg) (of_nat (cfg_db_pool_size cfg)) = Inr db0"
    and "tables_ok (sql_tables (l_sql X) db0)" and "sessions_owned (sql_tables (l_sql X) db0)"
    and "interleaved X cfg (sr_app sr) (sh_db (ss_shared (sr_state sr))) rs db"
  shows "well_formed (sql_tables (l_sql X) db)"
proof -
  obtain h where "started_from (sql_tables (l_sql X) db0) (cfg_auth_username cfg) h (tables_of X (sr_state sr))"
    by (rule started_tables [OF assms(1,2)]) (use assms(3) in simp)
  from started_from_facts [OF this assms(4)] assms(5) have "well_formed (tables_of X (sr_state sr))"
    by (simp add: well_formed_def)
  then show ?thesis by (rule interleaved_well_formed [OF assms(6,1)])
qed

theorem database_well_formed_witness:
  "\<exists>sr tr db. demo_start None = Inr sr \<and>
     interleaved demo_libs demo_config (sr_app sr) (sh_db (ss_shared (sr_state sr)))
       [(new_run demo_draws metrics_new demo_create)\<lparr>rr_trace := tr\<rparr>] db \<and> well_formed (fst db)"
proof -
  let ?db0 = "(\<lparr>tab_items = None, tab_users = None, tab_sessions = None\<rparr>, 0) :: tables \<times> nat"
  obtain sr where sr: "demo_start None = Inr sr"
    using demo_started [of None "''s$secret''"] by (auto simp: bootstrap_hash_def clear_argon2_def demo_config_def)
  obtain s' resp where run: "dispatch (l_http demo_libs) (build_router demo_libs demo_config (sr_app sr) demo_draws) demo_create
      \<lparr>sh_db = sh_db (ss_shared (sr_state sr)), sh_metrics = metrics_new\<rparr> = (s', resp)" by fastforce
  obtain tr where tr: "interleaved demo_libs demo_config (sr_app sr) (sh_db (ss_shared (sr_state sr)))
      [(new_run demo_draws metrics_new demo_create)\<lparr>rr_trace := tr\<rparr>] (sh_db s')"
    using dispatch_interleaved [OF interleaved.start run, unfolded append_Nil] by blast
  have pool: "open_pool mem_pool False (cfg_db_url demo_config) (of_nat (cfg_db_pool_size demo_config)) = Inr ?db0"
    by (simp add: open_pool_def mem_pool_def)
  have "well_formed (sql_tables (l_sql demo_libs) (sh_db s'))"
    by (rule database_well_formed [where X = demo_libs, OF _ sr [unfolded demo_start_def] pool _ _ tr])
      (simp_all add: mem.database_axioms tables_ok_def sessions_owned_def)
  with sr tr show ?thesis by (intro exI) (auto simp: mem_tables)
qed

text \<open>
  C4: Where the contents of the database come from.  A server has started on a database and has served any sequence of
  requests through all its layers, some of them timed out or dropped.  Then the accounts are those of the database that was
  opened and the administrator; every session was in that database or comes from a request of the sequence that sent
  the right password; and if the items differ, some request of the sequence carried a valid bearer token, or a session of one
  of these two kinds, begun before it, with its CSRF token.
\<close>

theorem server_traceback:
  assumes "database (l_sql X)" and "http_crate (l_http X)"
    and "start_server S X P postgres T build_client cfg password_hash salt local_addr = Inr sr"
    and "open_pool P postgres (cfg_db_url cfg) (of_nat (cfg_db_pool_size cfg)) = Inr db0"
    and "tables_ok (sql_tables (l_sql X) db0)" and "list_all (\<lambda>ev. visible_ascii (event_uuid ev)) es"
  defines "t0 \<equiv> sql_tables (l_sql X) db0" and "t1 \<equiv> tables_of X (sr_state sr)"
    and "t \<equiv> tables_of X (run_events S X cfg (sr_app sr) es (sr_state sr))"
  shows "dom (users_of t) = insert (cfg_auth_username cfg) (dom (users_of t0)) \<and> users_of t0 \<subseteq>\<^sub>m users_of t \<and>
    (\<forall>k x e. sessions_of t k = Some (x, e) \<longrightarrow>
       (\<exists>e0. sessions_of t0 k = Some (x, e0)) \<or> list_ex (logged_in X t1 k x) es) \<and>
    (items_of t \<noteq> items_of t0 \<longrightarrow>
       (\<exists>before ev after. es = before @ ev # after \<and> authorised X (st_jwt (sr_app sr)) t1 before ev))"
proof -
  obtain h where "started_from t0 (cfg_auth_username cfg) h t1"
    unfolding t0_def t1_def by (rule started_tables [OF assms(1,3)]) (use assms(4) in simp)
  note start = started_from_facts [OF this assms(5) [folded t0_def]]
  have ok: "tables_ok (tables_of X (sr_state sr))" using start(2) by (simp add: t1_def)
  note run = run_traceback [OF assms(1,2,6) ok, of S cfg "sr_app sr", folded t_def t1_def]
  then have users: "users_of t = users_of t1" by (simp add: users_of_def)
  have "dom (users_of t) = insert (cfg_auth_username cfg) (dom (users_of t0))" "users_of t0 \<subseteq>\<^sub>m users_of t"
    unfolding users by (auto simp: start(5) map_le_def split: if_splits)
  moreover have "\<exists>before ev after. es = before @ ev # after \<and> authorised X (st_jwt (sr_app sr)) t1 before ev"
    if "items_of t \<noteq> items_of t0"
    using run_items_traceback [OF assms(1,2,6) ok, of S cfg "sr_app sr"] that start(3) by (simp add: t_def t1_def)
  ultimately show ?thesis using run start(4) unfolding traced_session_def by simp
qed

theorem server_traceback_witness:
  "\<exists>sr. demo_start None = Inr sr \<and>
     dom (users_of (tables_of demo_libs (run_events counting_semaphore demo_libs demo_config (sr_app sr)
       [Served \<lparr>sa_ip = V4 [127, 0, 0, 1], sa_port = 9, sa_scope_id = 0\<rparr>
          \<lparr>ar_evict_now = 0, ar_new_now = 0, ar_now = 0, ar_uuid = ''u-1'', ar_latency_ms = 0\<rparr> demo_draws Completes
          \<lparr>parts_method = ''POST'', parts_uri = \<lparr>uri_path = ''/ui/login'', uri_query = None, uri_path_and_query = None\<rparr>,
            parts_headers = []\<rparr> (Inr ''username=admin&password=secret'')]
       (sr_state sr)))) = {''admin''}"
proof -
  let ?db0 = "(\<lparr>tab_items = None, tab_users = None, tab_sessions = None\<rparr>, 0) :: tables \<times> nat"
  obtain sr where sr: "demo_start None = Inr sr"
    using demo_started [of None "''s$secret''"] by (auto simp: bootstrap_hash_def clear_argon2_def demo_config_def)
  have pool: "open_pool mem_pool False (cfg_db_url demo_config) (of_nat (cfg_db_pool_size demo_config)) = Inr ?db0"
    by (simp add: open_pool_def mem_pool_def)
  have libs: "database (l_sql demo_libs)" "http_crate (l_http demo_libs)"
    by (simp_all add: mem.database_axioms alist.http_crate_axioms)
  have ok: "tables_ok (sql_tables (l_sql demo_libs) ?db0)" by (simp add: tables_ok_def)
  note g = server_traceback [OF libs sr [unfolded demo_start_def] pool ok]
  have "users_of (fst ?db0) = Map.empty" "cfg_auth_username demo_config = ''admin''"
    by (simp_all add: users_of_def demo_config_def)
  with sr show ?thesis by (intro exI conjI) (assumption, subst g [THEN conjunct1], simp_all add: visible_ascii_def mem_tables)
qed

end
