(* ===== verification/Spec2Isabelle.thy ===== *)
theory Spec2Isabelle
  imports Router Rate_Limiter Concurrency Logging Auth Database Session Templates Metrics
    Static_Files Proxy Ip_Addr Config Task Tls Routes Connection Server Accept_Loop Program Shutdown Runs Service
    Adequacy Lifetime
begin

text \<open>
  Verification of \<^verbatim>\<open>rust-highperf-server\<close>, an HTTP/1 and HTTP/2 server on tokio and hyper.

  \<^bold>\<open>The program.\<close>  \<^verbatim>\<open>main\<close> loads a configuration from the environment and runs the server, which
  loads TLS material, opens and migrates a database, creates the administrator, and then accepts connections.
  Each accepted connection is a task.  Its requests pass three layers (logging, rate limiter, concurrency
  limiter) to an inner service, which reads the body, keeps the metrics and dispatches on a router; the
  handlers are a JSON API with bearer tokens, pages with cookie sessions, static files, metrics and a reverse proxy.
  On a shutdown signal the accept loop stops, tells the tasks, and waits for them.

  \<^bold>\<open>Conventions.\<close>  Strings and byte buffers are \<^typ>\<open>string\<close>, a character for a byte.  An error of the source is
  the left side of a sum and a panic is a value; a \<^verbatim>\<open>HashMap\<close> is a map; atomic counters are \<open>64 word\<close> and
  wrap; numbers that the configuration parses are \<^typ>\<open>nat\<close>, with the bound of the parsed type in the parser.
  Time, fresh UUIDs, salts and the answers of the network are arguments.  A crate the sources only call
  is a record of its operations, with a locale for the laws its documentation promises where a proof needs them; each
  locale is interpreted on an executable instance, on which the witnesses evaluate.  What the
  sources use of the Rust standard library is defined: string searching and splitting, number and address parsing, UTF-8,
  paths, binary64 rounding.

  \<^bold>\<open>The theories, in the order of the dependencies.\<close>
  \<^item> \<open>Prelude\<close>, \<open>Utf8\<close>, \<open>Float64\<close>, \<open>Paths\<close>, \<open>Ip_Addr\<close>: the standard library.  \<open>Float64\<close> has rounding to binary64 as a locale
    of its laws, \<open>Ip_Addr\<close> the recursive descent parser of \<^verbatim>\<open>core::net\<close>.
  \<^item> \<open>Http_Lib\<close>: the interface of the \<^verbatim>\<open>http\<close> crate (header maps and response builder).
  \<^item> \<open>Request\<close>, \<open>Response\<close>, \<open>Router\<close>: \<^verbatim>\<open>src/http\<close>.  Shown: look-up of query and form parameters inverts
    URL encoding; what the response builder emits; \<open>match_path\<close> implements a declarative match relation and \<open>dispatch\<close> picks the
    first match.
  \<^item> \<open>Rate_Limiter\<close>, \<open>Concurrency\<close>, \<open>Logging\<close>, \<open>Auth\<close>: \<^verbatim>\<open>src/middleware\<close>.  Shown: the shared limiter with its
    sweeps is indistinguishable from private buckets, grants at most burst plus refill in any window, with the error of binary64 accounted for, and its
    memory is bounded; the concurrency cap is exact under interleaving; the request id is the same on all
    sides; the lifetime of a token.
  \<^item> \<open>Sql\<close>, \<open>Database\<close>, \<open>Session\<close>: \<^verbatim>\<open>src/db\<close> and \<^verbatim>\<open>src/session\<close>.  \<open>Sql\<close> gives the meaning of the statements the program
    sends as updates of three tables; the engine may fail at any statement, before or after its effect.
    Shown: the item functions refine a finite map; migrations keep data; sliding expiry of sessions.
  \<^item> \<open>Templates\<close>, \<open>Metrics\<close>, \<open>Static_Files\<close>, \<open>Proxy\<close>, \<open>Tls\<close>, \<open>Config\<close>, \<open>Task\<close>: the modules of those names.
    Shown: headers of pages; a scraper reads back the counters; static files are confined to the base directory; what the
    proxy forwards and relays; when TLS material loads; bounds and errors of the configuration and the meaning of the IP lists.
  \<^item> \<open>App\<close>, \<open>Api_Routes\<close>, \<open>Ui_Routes\<close>, \<open>Route_Table\<close>, \<open>Effects\<close>, \<open>Routes\<close>: \<open>AppState\<close>, the handlers and \<open>build_router\<close> of
    \<^verbatim>\<open>src/server/connection.rs\<close>, one definition for each handler closure.  \<open>Route_Table\<close> has the registrations, and shows that
    dispatching on them is performing the entry of an explicit table.  \<open>Effects\<close> has the frame lemmas of the database
    operations.  Shown for every dispatched request: items change only with a valid token or a session with its CSRF token;
    sessions come only from a password that verifies; the item API from end to end; the Fibonacci route.
  \<^item> \<open>Service\<close>: an abstract service over three finite maps, with its answer for every entry of the table.  Shown: with a
    database that answers, \<open>dispatch\<close> refines it, request by request; a visit from the login to the log-out.
  \<^item> \<open>Cancel\<close>, \<open>Connection\<close>: requests that are dropped where they wait; the inner service, the layers and the connection loop
    of \<open>handle_connection\<close>.  Shown: the body limit, the
    order of the layers, the exact meaning of the metrics under overlapping requests, how a connection ends.
  \<^item> \<open>Interleave\<close>, \<open>Adequacy\<close>: any number of requests at the same time, as a transition system whose steps are single SQL
    statements.  What a request does next is what its handler does on the answers it has had: the handlers run
    on an engine that replays them.  Shown: what the database holds at any time goes back to the
    beginning or to a request that was allowed to write it; every dispatched or dropped request is an execution of this system.
  \<^item> \<open>Runs\<close>: sequences of requests through all the layers, served, timed out or dropped.
  \<^item> \<open>Server\<close>, \<open>Accept_Loop\<close>, \<open>Shutdown\<close>: \<^verbatim>\<open>src/server/mod.rs\<close>.  Start-up, the entry points and the redirect listener are functions; the
    accept loop with its tasks and the drain is a transition system over the atomic actions, and \<open>Shutdown\<close> adds the
    \<^verbatim>\<open>select!\<close> with the signal handlers.  Shown: the state of a server that started; the target of a
    redirect; the cap and the in-flight counter in every reachable state, with tasks that panic; that a signal ends the loop and what
    else can; when the end of the drain means that no connection is left, and a run in which it does not.
  \<^item> \<open>Lifetime\<close>: a server from its start on.  Shown: its tables stay well-formed in every interleaving, and their contents go
    back to the opened database or to an authorised request.
  \<^item> \<open>Program\<close>: \<^verbatim>\<open>src/main.rs\<close> and \<^verbatim>\<open>src/bin/password_hash.rs\<close>.
  \<^item> This theory: the property that spans the two executables, start-up and the user functions.

  \<^bold>\<open>Bounds and termination.\<close>  No definition uses fuel: every loop of the sources that ends is a recursion over the
  characters, the routes, the rows, the chunks of a file or the polls of a connection, structural except for the two
  decoders that skip several bytes at a time, whose termination is proved by the length of the rest.  The loops
  that never end by themselves (accept loop, redirect listener, sweeper) are step relations or functions of the
  sequence of their events.  The connection semaphore and the in-flight counter are exact up to \<open>MAX_PERMITS\<close>, the bound above which
  \<^verbatim>\<open>Semaphore::new\<close> panics at start-up.

  \<^bold>\<open>Concurrency.\<close>  Transition systems cover what runs at the same time: the statements of the requests
  (\<open>Interleave\<close>), the counters of the requests (\<open>Connection\<close>), the permits of the concurrency limiter (\<open>Concurrency\<close>), and the
  loop with its tasks (\<open>Accept_Loop\<close>, \<open>Shutdown\<close>).  A statement is atomic, as is an operation on an atomic or a semaphore; the
  mutex of the rate limiter makes each of its checks one step.

  \<^bold>\<open>Not modelled.\<close>  The bytes of HTTP/1, HTTP/2 and TLS (hyper, rustls) and the scheduler (tokio), beyond the events
  above; OS signals other than the two the program listens to; the text of log messages other than the access
  log; the templates and static assets; JSON syntax (serde is a parameter); the \<^verbatim>\<open>tower\<close> plumbing of the layers
  (\<^verbatim>\<open>Layer::layer\<close> and \<^verbatim>\<open>poll_ready\<close>, which only clone and delegate);
  the re-exports of \<^verbatim>\<open>lib.rs\<close> and the \<^verbatim>\<open>mod.rs\<close> files; unit tests, integration tests and benchmarks.
\<close>

subsection \<open>From the password tool to the first login\<close>

text \<open>
  C28: The first administrator.  On a database that does not have the account yet, a server that started with a hash
  printed by the \<open>password_hash\<close> tool in \<open>AUTH_PASSWORD_HASH\<close> accepts the password the tool was given, and one
  that started without the variable accepts the configured password, when the database answers.
\<close>

theorem first_administrator:
  assumes "database (l_sql X)" and "argon2_crate (l_argon2 X)"
    and "start_server S X P postgres T build_client cfg password_hash salt local_addr = Inr st"
    and "open_pool P postgres (cfg_db_url cfg) (of_nat (cfg_db_pool_size cfg)) = Inr db0"
    and "tables_ok (sql_tables (l_sql X) db0)"
    and "users_of (sql_tables (l_sql X) db0) (cfg_auth_username cfg) = None"
    and "case password_hash of
        Some h \<Rightarrow> password_hash_main (l_argon2 X) tool_salt [prog, pw] = Printed h
      | None \<Rightarrow> pw = cfg_auth_password cfg"
    and "verify_user (l_sql X) (l_argon2 X) (cfg_auth_username cfg) pw (sh_db (ss_shared (sr_state st))) = (db', Inr b)"
  shows b
proof -
  obtain pool where "bootstrap_admin X cfg password_hash salt pool = Inr (sh_db (ss_shared (sr_state st)))"
    using assms(3) by (elim start_server_Inr)
  then obtain h where h: "bootstrap_hash (l_argon2 X) cfg password_hash salt = Inr h" by (elim bootstrap_admin_Inr)
  moreover have "\<exists>s. argon2_hash_password (l_argon2 X) pw s = Inr h"
    using h assms(7) by (auto simp: bootstrap_hash_def password_hash_Printed split: option.splits)
  ultimately show ?thesis using fresh_admin_verifies [OF assms(1-6) _ _ assms(8)] by blast
qed

theorem first_administrator_witness:
  "password_hash_main clear_argon2 ''t'' [''password_hash'', ''pw''] = Printed ''t$pw'' \<and>
   (\<exists>st db'. demo_start (Some ''t$pw'') = Inr st \<and>
      verify_user mem_engine clear_argon2 ''admin'' ''pw'' (sh_db (ss_shared (sr_state st))) = (db', Inr True))"
proof -
  let ?db0 = "(\<lparr>tab_items = None, tab_users = None, tab_sessions = None\<rparr>, 0) :: tables \<times> nat"
  have tool: "password_hash_main (l_argon2 demo_libs) ''t'' [''password_hash'', ''pw''] = Printed ''t$pw''"
    by (simp add: password_hash_main_def clear_argon2_def)
  obtain st where st: "demo_start (Some ''t$pw'') = Inr st" and db: "sh_db (ss_shared (sr_state st)) =
      (empty_tables\<lparr>tab_users := Some [\<lparr>row_username = ''admin'', row_password_hash = ''t$pw''\<rparr>]\<rparr>, 5)"
    using demo_started [of "Some ''t$pw''" "''t$pw''"] by (auto simp: bootstrap_hash_def clear_argon2_def)
  obtain db' b where v: "verify_user (l_sql demo_libs) (l_argon2 demo_libs) (cfg_auth_username demo_config) ''pw''
      (sh_db (ss_shared (sr_state st))) = (db', Inr b)"
    by (auto simp: db demo_config_def verify_user_def clear_argon2_def fetch_optional_def mem_run sql_apply.simps
        on_table_def empty_tables_def split: sum.split)
  have pool: "open_pool mem_pool False (cfg_db_url demo_config) (of_nat (cfg_db_pool_size demo_config)) = Inr ?db0"
    by (simp add: open_pool_def mem_pool_def)
  have b
    using first_administrator [where X = demo_libs, OF _ _ st [unfolded demo_start_def] pool _ _ _ v] tool
    by (simp add: mem.database_axioms clear_hash.argon2_crate_axioms tables_ok_def users_of_def)
  with st v tool show ?thesis by (auto simp: demo_config_def)
qed

end
